(* ===== verification/Prelude.thy ===== *)
theory Prelude
  imports Main "HOL-Library.Word" "HOL-Library.List_Lexorder" "HOL-Library.Char_ord"
    "HOL-Library.AList" "HOL-Library.Monad_Syntax" "HOL-Library.Multiset"
begin

text \<open>
  What the component theories share: the machine types of the Go program, Go maps with
  their iteration order, and generic facts on lists, maps and lexicographic order.

  A run-time panic of the program is the value \<open>None\<close> of an \<open>option\<close> type, so the
  model of a function that can panic returns an option and is composed with the
  \<open>do\<close> notation of the option monad.
\<close>

named_theorems go_simps \<open>evaluation of the Go standard library functions\<close>
named_theorems key_simps \<open>layout of the keys of the index\<close>

section \<open>Machine types\<close>

type_synonym u8 = "8 word"
type_synonym u32 = "32 word"
type_synonym u64 = "64 word"
type_synonym i64 = "64 word" \<comment> \<open>read with \<open>sint\<close>\<close>
type_synonym u256 = "256 word"
type_synonym bytes = "8 word list"

section \<open>Go maps\<close>

text \<open>
  A Go map is an association list with distinct keys. The order of the list is the order
  in which one \<open>range\<close> loop visits the map; Go leaves that order open, so a statement
  about all lists is a statement about all orders.
\<close>

type_synonym ('k, 'v) gomap = "('k \<times> 'v) list"

abbreviation goSet :: "'k \<Rightarrow> 'v \<Rightarrow> ('k, 'v) gomap \<Rightarrow> ('k, 'v) gomap" where
  "goSet \<equiv> AList.update"

abbreviation goGet :: "('k, 'v) gomap \<Rightarrow> 'k \<Rightarrow> 'v option" where
  "goGet \<equiv> map_of"

lemma goGet_goSet [simp]: "goGet (goSet k v m) = (goGet m)(k \<mapsto> v)"
  by (simp add: update_conv')

lemma distinct_goSet: "distinct (map fst m) \<Longrightarrow> distinct (map fst (goSet k v m))"
  by (rule distinct_update)

lemma goSet_fresh: "k \<notin> fst ` set m \<Longrightarrow> goSet k v m = m @ [(k, v)]"
  by (induction m) auto

lemma map_fst_goSet: "map fst (goSet k v m) = (if k \<in> fst ` set m then map fst m else map fst m @ [k])"
  by (induction m) auto

section \<open>Lists and maps\<close>

lemma map_of_rev_distinct:
  "distinct (map fst xs) \<Longrightarrow> map_of (rev xs) = map_of xs"
  by (rule map_of_eqI) (auto simp: map_of_eq_Some_iff distinct_map rev_map[symmetric])

lemma map_of_Some_distinct:
  "distinct (map fst xs) \<Longrightarrow> map_of xs k = Some v \<longleftrightarrow> (k, v) \<in> set xs"
  by (rule map_of_eq_Some_iff)

lemma find_Some_mem: "find P xs = Some x \<Longrightarrow> x \<in> set xs \<and> P x"
  by (induction xs) (auto split: if_splits)

lemma sum_list_filter_append:
  "sum_list (map f (filter P (xs @ ys))) =
     sum_list (map f (filter P xs)) + sum_list (map f (filter P (ys :: 'a list)))"
  for f :: "'a \<Rightarrow> 'b::comm_monoid_add"
  by simp

lemma map_nth_upt [simp]: "n = length xs \<Longrightarrow> map ((!) xs) [0..<n] = xs"
  by (simp add: map_nth)

section \<open>Lexicographic order of equally long byte strings\<close>

lemma append_le_same_prefix [simp]:
  "(p @ xs \<le> p @ ys) = (xs \<le> (ys :: 'a::linorder list))"
  by (induction p) auto

lemma append_less_same_length:
  "length xs = length ys \<Longrightarrow>
     (xs @ us \<le> ys @ vs) = (xs < ys \<or> (xs = ys \<and> us \<le> (vs :: 'a::linorder list)))"
proof (induction xs ys rule: list_induct2)
  case Nil
  then show ?case by simp
next
  case (Cons x xs y ys)
  then show ?case by (auto simp: not_less)
qed

text \<open>Two strings cut at the same length agree on both parts.\<close>

lemma append_eq_same_length:
  "length xs = length ys \<Longrightarrow> (xs @ us = ys @ vs) = (xs = ys \<and> us = vs)"
  by simp

text \<open>A string that does not start with \<open>q\<close> is on the same side of all strings that do.\<close>

lemma less_of_other_prefix:
  "k \<le> q @ x \<Longrightarrow> take (length q) k \<noteq> q \<Longrightarrow> k < q @ (y :: 'a::linorder list)"
proof (induction q arbitrary: k)
  case Nil
  then show ?case by simp
next
  case (Cons a q)
  show ?case
  proof (cases k)
    case Nil
    then show ?thesis by simp
  next
    case (Cons c ks)
    with Cons.prems Cons.IH [of ks] show ?thesis by auto
  qed
qed

section \<open>A run of numbered items\<close>

text \<open>
  \<open>numbered i n xs\<close>: the numbers of \<open>xs\<close> are \<open>n, n + 1, \<dots>\<close>; the operations built for a
  transaction and the entries of a batch are numbered this way.
\<close>

definition numbered :: "('a \<Rightarrow> nat) \<Rightarrow> nat \<Rightarrow> 'a list \<Rightarrow> bool" where
  "numbered i n xs = (map i xs = [n ..< n + length xs])"

lemma numbered_Nil [simp]: "numbered i n []"
  by (simp add: numbered_def)

lemma numbered_Cons [simp]: "numbered i n (x # xs) = (i x = n \<and> numbered i (Suc n) xs)"
  by (auto simp: numbered_def upt_conv_Cons simp del: upt_Suc)

lemma numbered_append [simp]:
  "numbered i n (xs @ ys) = (numbered i n xs \<and> numbered i (n + length xs) ys)"
  by (induction xs arbitrary: n) auto

end
