(* ===== verification/GoLib.thy ===== *)
theory GoLib
  imports Prelude
begin

text \<open>
  The parts of the Go standard library the program relies on: \<open>strconv\<close> (decimal
  formatting and parsing with the range and syntax errors of \<open>ParseInt\<close> and
  \<open>ParseUint\<close>), \<open>strings.HasPrefix\<close> and \<open>strings.Split\<close>, and \<open>encoding/hex\<close>.
\<close>

section \<open>strconv: formatting\<close>

definition digit :: "nat \<Rightarrow> char" where
  "digit d = ''0123456789'' ! d"

fun decimal :: "nat \<Rightarrow> string" where
  "decimal n = (if n < 10 then [digit n] else decimal (n div 10) @ [digit (n mod 10)])"

declare decimal.simps [simp del]

definition FormatUint :: "u64 \<Rightarrow> string" where
  "FormatUint x = decimal (unat x)"

definition FormatInt :: "i64 \<Rightarrow> string" where
  "FormatInt x =
     (if sint x < 0 then CHR ''-'' # decimal (nat (- sint x)) else decimal (nat (sint x)))"

section \<open>strconv: parsing\<close>

datatype numError = ErrSyntax | ErrRange

definition isDigit :: "char \<Rightarrow> bool" where
  "isDigit c = (48 \<le> (of_char c :: nat) \<and> (of_char c :: nat) \<le> 57)"

definition digitVal :: "char \<Rightarrow> nat" where
  "digitVal c = of_char c - 48"

text \<open>
  The loop of \<open>strconv.ParseUint\<close> in base 10. It stops at the first character that is no
  digit (syntax error, value 0) and at the first digit that takes the value past the
  largest one (range error, largest value), whichever comes first.
\<close>

fun parseDigits :: "nat \<Rightarrow> nat \<Rightarrow> string \<Rightarrow> nat \<times> numError option" where
  "parseDigits maxVal n [] = (n, None)"
| "parseDigits maxVal n (c # cs) =
     (if \<not> isDigit c then (0, Some ErrSyntax)
      else if maxVal < n * 10 + digitVal c then (maxVal, Some ErrRange)
      else parseDigits maxVal (n * 10 + digitVal c) cs)"

definition parseUintMax :: "nat \<Rightarrow> string \<Rightarrow> nat \<times> numError option" where
  "parseUintMax maxVal s = (if s = [] then (0, Some ErrSyntax) else parseDigits maxVal 0 s)"

definition ParseUint :: "string \<Rightarrow> u64 \<times> numError option" where
  "ParseUint s = (case parseUintMax (2 ^ 64 - 1) s of (n, e) \<Rightarrow> (of_nat n, e))"

text \<open>\<open>strconv.ParseUint(s, 10, 32)\<close>, whose result the program converts to \<open>uint32\<close>.\<close>

definition ParseUint32 :: "string \<Rightarrow> u32 \<times> numError option" where
  "ParseUint32 s = (case parseUintMax (2 ^ 32 - 1) s of (n, e) \<Rightarrow> (of_nat n, e))"

text \<open>\<open>strconv.ParseInt(s, 10, 64)\<close>: a range error returns the closest \<open>int64\<close>.\<close>

definition ParseInt :: "string \<Rightarrow> i64 \<times> numError option" where
  "ParseInt s =
     (if s = [] then (0, Some ErrSyntax)
      else
        let neg = (hd s = CHR ''-'');
            s' = (if hd s = CHR ''+'' \<or> hd s = CHR ''-'' then tl s else s)
        in case parseUintMax (2 ^ 64 - 1) s' of
             (un, Some ErrSyntax) \<Rightarrow> (0, Some ErrSyntax)
           | (un, _) \<Rightarrow>
               if \<not> neg \<and> 2 ^ 63 \<le> un then (of_nat (2 ^ 63 - 1), Some ErrRange)
               else if neg \<and> 2 ^ 63 < un then (- of_nat (2 ^ 63), Some ErrRange)
               else ((if neg then - of_nat un else of_nat un), None))"

lemma of_char_digit: "d < 10 \<Longrightarrow> of_char (digit d) = 48 + d"
  by (auto simp: digit_def less_Suc_eq numeral_eq_Suc)

lemma isDigit_digit [simp]: "d < 10 \<Longrightarrow> isDigit (digit d)"
  by (simp add: isDigit_def of_char_digit)

lemma digitVal_digit [simp]: "d < 10 \<Longrightarrow> digitVal (digit d) = d"
  by (simp add: digitVal_def of_char_digit)

lemma decimal_not_Nil [simp]: "decimal n \<noteq> []"
  by (subst decimal.simps) simp

lemma decimal_digits: "c \<in> set (decimal n) \<Longrightarrow> isDigit c"
proof (induction n rule: decimal.induct)
  case (1 n)
  then show ?case by (subst (asm) decimal.simps) (auto split: if_splits)
qed

lemma digit_not_sign:
  "isDigit c \<Longrightarrow> c \<noteq> CHR ''-''" "isDigit c \<Longrightarrow> c \<noteq> CHR ''+''"
  by (auto simp: isDigit_def)

lemma hd_decimal: "hd (decimal n) \<noteq> CHR ''-''" "hd (decimal n) \<noteq> CHR ''+''"
  using decimal_digits [of "hd (decimal n)" n] digit_not_sign by (metis decimal_not_Nil hd_in_set)+

lemma parseDigits_decimal:
  "parseDigits M 0 (decimal n @ cs) =
     (if n \<le> M then parseDigits M n cs else (M, Some ErrRange))"
proof (induction n arbitrary: cs rule: decimal.induct)
  case (1 n)
  show ?case
  proof (cases "n < 10")
    case True
    then show ?thesis by (subst decimal.simps) simp
  next
    case False
    have *: "parseDigits M 0 (decimal n @ cs) =
        (if n div 10 \<le> M then parseDigits M (n div 10) (digit (n mod 10) # cs)
         else (M, Some ErrRange))"
      using "1.IH" [OF False, of "digit (n mod 10) # cs"] False
      by (subst decimal.simps) simp
    show ?thesis
    proof (cases "n \<le> M")
      case True
      then have "n div 10 \<le> M" by (meson div_le_dividend le_trans)
      then show ?thesis using * True by simp
    next
      case F: False
      then show ?thesis using * by (auto simp: linorder_not_le)
    qed
  qed
qed

lemma parseUintMax_decimal:
  "parseUintMax M (decimal n) = (if n \<le> M then (n, None) else (M, Some ErrRange))"
  using parseDigits_decimal [of M n "[]"] by (simp add: parseUintMax_def)

lemma unat_u64_bound: "unat (x :: u64) \<le> 2 ^ 64 - 1"
  using unsigned_less [where 'a = nat and w = x] by simp

lemma ParseUint_FormatUint [simp, go_simps]: "ParseUint (FormatUint x) = (x, None)"
  using unat_u64_bound [of x] by (simp add: ParseUint_def FormatUint_def parseUintMax_decimal)

lemma sint_u64_bounds: "- (2 ^ 63) \<le> sint (x :: u64)" "sint (x :: u64) < 2 ^ 63"
  using sint_greater_eq [of x] sint_lt [of x] by simp_all

lemma ParseInt_decimal:
  assumes "n < 2 ^ 63"
  shows "ParseInt (decimal n) = (of_nat n, None)"
proof -
  have "parseUintMax (2 ^ 64 - 1) (decimal n) = (n, None)"
    using assms by (simp add: parseUintMax_decimal)
  then show ?thesis using assms hd_decimal [of n]
    by (simp add: ParseInt_def Let_def)
qed

lemma ParseInt_minus_decimal:
  assumes "n \<le> 2 ^ 63"
  shows "ParseInt (CHR ''-'' # decimal n) = (- of_nat n, None)"
proof -
  have "parseUintMax (2 ^ 64 - 1) (decimal n) = (n, None)"
    using assms by (simp add: parseUintMax_decimal)
  then show ?thesis using assms
    by (simp add: ParseInt_def Let_def)
qed

lemma of_nat_sint_pos: "0 \<le> sint x \<Longrightarrow> of_nat (nat (sint x)) = (x :: u64)"
  by (simp add: of_nat_nat)

lemma of_nat_sint_neg: "sint x < 0 \<Longrightarrow> of_nat (nat (- sint x)) = - (x :: u64)"
  by (simp add: of_nat_nat)

lemma ParseInt_FormatInt [simp, go_simps]: "ParseInt (FormatInt x) = (x, None)"
proof (cases "sint x < 0")
  case True
  have "nat (- sint x) \<le> 2 ^ 63" using sint_u64_bounds(1) [of x] by simp
  from ParseInt_minus_decimal [OF this] True show ?thesis
    by (simp only: FormatInt_def if_True of_nat_sint_neg minus_minus)
next
  case False
  have "nat (sint x) < 2 ^ 63" using sint_u64_bounds(2) [of x] by simp
  moreover have "0 \<le> sint x" using False by simp
  ultimately show ?thesis
    by (simp only: FormatInt_def False if_False of_nat_sint_pos ParseInt_decimal)
qed

text \<open>
  Reading an unsigned number back with the signed parser: right below \<open>2 ^ 63\<close>, and
  clamped to the largest \<open>int64\<close> with a range error from there on.
\<close>

definition clampInt64 :: "u64 \<Rightarrow> i64" where
  "clampInt64 x = (if unat x < 2 ^ 63 then x else of_nat (2 ^ 63 - 1))"

lemma ParseInt_FormatUint [simp, go_simps]:
  "ParseInt (FormatUint x) =
     (clampInt64 x, (if unat x < 2 ^ 63 then None else Some ErrRange))"
proof -
  have "parseUintMax (2 ^ 64 - 1) (decimal (unat x)) = (unat x, None)"
    using unat_u64_bound [of x] by (simp only: parseUintMax_decimal if_True)
  then show ?thesis using hd_decimal [of "unat x"]
    by (simp add: FormatUint_def ParseInt_def Let_def clampInt64_def)
qed

lemma clampInt64_small [simp]: "unat x < 2 ^ 63 \<Longrightarrow> clampInt64 x = x"
  by (simp add: clampInt64_def)

section \<open>strings\<close>

definition HasPrefix :: "string \<Rightarrow> string \<Rightarrow> bool" where
  "HasPrefix s p = (take (length p) s = p)"

lemma HasPrefix_append [simp]: "HasPrefix (p @ s) p"
  by (simp add: HasPrefix_def)

text \<open>\<open>strings.Split\<close> at a separator of one character.\<close>

fun Split :: "char \<Rightarrow> string \<Rightarrow> string list" where
  "Split c [] = [[]]"
| "Split c (x # xs) =
     (if x = c then [] # Split c xs
      else case Split c xs of [] \<Rightarrow> [[x]] | y # ys \<Rightarrow> (x # y) # ys)"

lemma Split_not_Nil [simp]: "Split c s \<noteq> []"
  by (cases s) (auto split: list.splits)

lemma length_Split: "length (Split c s) = Suc (count_list s c)"
  by (induction s) (auto split: list.splits)

lemma Split_no_sep: "c \<notin> set s \<Longrightarrow> Split c s = [s]"
  by (induction s) auto

lemma Split_append_sep: "c \<notin> set s \<Longrightarrow> Split c (s @ c # t) = s # Split c t"
  by (induction s) auto

section \<open>encoding/hex\<close>

definition hexDigit :: "nat \<Rightarrow> char" where
  "hexDigit n = ''0123456789abcdef'' ! n"

definition fromHexChar :: "char \<Rightarrow> nat option" where
  "fromHexChar c =
     (let n = (of_char c :: nat)
      in if 48 \<le> n \<and> n \<le> 57 then Some (n - 48)
         else if 97 \<le> n \<and> n \<le> 102 then Some (n - 87)
         else if 65 \<le> n \<and> n \<le> 70 then Some (n - 55)
         else None)"

definition hexEncode :: "bytes \<Rightarrow> string" where
  "hexEncode bs = concat (map (\<lambda>b. [hexDigit (unat b div 16), hexDigit (unat b mod 16)]) bs)"

text \<open>\<open>hex.DecodeString\<close>: \<open>None\<close> for its two errors, an odd length and a character that is no hex digit.\<close>

fun hexDecode :: "string \<Rightarrow> bytes option" where
  "hexDecode [] = Some []"
| "hexDecode [c] = None"
| "hexDecode (c # d # cs) =
     do { a \<leftarrow> fromHexChar c;
          b \<leftarrow> fromHexChar d;
          bs \<leftarrow> hexDecode cs;
          Some (of_nat (a * 16 + b) # bs) }"

lemma of_char_hexDigit: "n < 16 \<Longrightarrow> of_char (hexDigit n) = (if n < 10 then 48 + n else 87 + n)"
  by (auto simp: hexDigit_def less_Suc_eq numeral_eq_Suc)

lemma fromHexChar_hexDigit [simp]: "n < 16 \<Longrightarrow> fromHexChar (hexDigit n) = Some n"
  by (simp add: fromHexChar_def of_char_hexDigit Let_def)

lemma hexDecode_hexEncode [simp, go_simps]: "hexDecode (hexEncode bs) = Some bs"
proof (induction bs)
  case Nil
  then show ?case by (simp add: hexEncode_def)
next
  case (Cons b bs)
  have b: "unat b < 256" using unsigned_less [where 'a = nat and w = b] by simp
  then have "unat b div 16 < 16" by simp
  moreover have "unat b div 16 * 16 + unat b mod 16 = unat b" by simp
  ultimately show ?case using Cons
    by (simp add: hexEncode_def del: of_nat_add of_nat_mult)
qed

lemma hexEncode_inj: "hexEncode a = hexEncode b \<Longrightarrow> a = b"
  by (metis hexDecode_hexEncode option.inject)

lemma length_hexEncode [simp]: "length (hexEncode bs) = 2 * length bs"
  by (induction bs) (auto simp: hexEncode_def)

text \<open>\<open>copy\<close> into a fresh byte array of length \<open>n\<close>: cut off, or padded with zeros.\<close>

definition copyArray :: "nat \<Rightarrow> bytes \<Rightarrow> bytes" where
  "copyArray n bs = take n bs @ replicate (n - length bs) 0"

lemma length_copyArray [simp]: "length (copyArray n bs) = n"
  by (simp add: copyArray_def)

lemma copyArray_id [simp]: "length bs = n \<Longrightarrow> copyArray n bs = bs"
  by (simp add: copyArray_def)

section \<open>encoding/binary: big-endian integers\<close>

text \<open>\<open>bigEndian k n\<close>: the \<open>k\<close> low-order bytes of \<open>n\<close>, the most significant first.\<close>

fun bigEndian :: "nat \<Rightarrow> nat \<Rightarrow> bytes" where
  "bigEndian 0 n = []"
| "bigEndian (Suc k) n = bigEndian k (n div 256) @ [of_nat (n mod 256)]"

definition bigEndianVal :: "bytes \<Rightarrow> nat" where
  "bigEndianVal bs = foldl (\<lambda>a b. a * 256 + unat b) 0 bs"

definition PutUint64 :: "u64 \<Rightarrow> bytes" where
  "PutUint64 x = bigEndian 8 (unat x)"

definition BigEndianUint64 :: "bytes \<Rightarrow> u64" where
  "BigEndianUint64 bs = of_nat (bigEndianVal (take 8 bs))"

lemma length_bigEndian [simp]: "length (bigEndian k n) = k"
  by (induction k arbitrary: n) auto

lemma bigEndianVal_snoc [simp]: "bigEndianVal (bs @ [b]) = bigEndianVal bs * 256 + unat b"
  by (simp add: bigEndianVal_def)

lemma bigEndianVal_Nil [simp]: "bigEndianVal [] = 0"
  by (simp add: bigEndianVal_def)

lemma bigEndianVal_bigEndian: "n < 256 ^ k \<Longrightarrow> bigEndianVal (bigEndian k n) = n"
proof (induction k arbitrary: n)
  case 0
  then show ?case by simp
next
  case (Suc k)
  then have "n div 256 < 256 ^ k" by (simp add: less_mult_imp_div_less mult.commute)
  then show ?case using Suc.IH by (simp add: unat_of_nat)
qed

lemma unat_byte: "unat (b :: u8) < 256"
  using unsigned_less [where 'a = nat and w = b] by simp

lemma foldl_bigEndian:
  "foldl (\<lambda>a b. a * 256 + unat b) n (bs :: bytes) = n * 256 ^ length bs + bigEndianVal bs"
proof (induction bs rule: rev_induct)
  case Nil
  then show ?case by simp
next
  case (snoc b bs)
  then show ?case by (simp add: add_mult_distrib)
qed

lemma bigEndianVal_Cons [simp]:
  "bigEndianVal (b # bs) = unat b * 256 ^ length bs + bigEndianVal bs"
  using foldl_bigEndian [of "unat b" bs] by (simp add: bigEndianVal_def)

lemma bigEndianVal_bound: "bigEndianVal bs < 256 ^ length bs"
proof (induction bs)
  case Nil
  then show ?case by simp
next
  case (Cons b bs)
  have "Suc (unat b) * 256 ^ length bs \<le> 256 * 256 ^ length bs"
    using unat_byte [of b] by (intro mult_right_mono) auto
  then have "unat b * 256 ^ length bs + 256 ^ length bs \<le> 256 ^ length (b # bs)" by simp
  then show ?case using Cons unfolding bigEndianVal_Cons by linarith
qed

lemma digit_lessI: "(x :: nat) < y \<Longrightarrow> a < B \<Longrightarrow> x * B + a < y * B + b"
proof -
  assume "x < y" and "a < B"
  from \<open>x < y\<close> have "Suc x * B \<le> y * B" by (intro mult_right_mono) auto
  with \<open>a < B\<close> show ?thesis by simp
qed

lemma digit_less:
  "a < B \<Longrightarrow> b < B \<Longrightarrow> x * B + a < y * B + b \<longleftrightarrow> x < y \<or> (x = y \<and> a < (b :: nat))"
  by (metis add_less_cancel_left digit_lessI linorder_neqE_nat order_less_asym)

lemma bigEndianVal_less:
  "length xs = length ys \<Longrightarrow> bigEndianVal xs < bigEndianVal ys \<longleftrightarrow> xs < ys"
proof (induction xs ys rule: list_induct2)
  case Nil
  then show ?case by simp
next
  case (Cons x xs y ys)
  have "bigEndianVal (x # xs) < bigEndianVal (y # ys) \<longleftrightarrow>
      unat x < unat y \<or> (unat x = unat y \<and> bigEndianVal xs < bigEndianVal ys)"
    using digit_less [of "bigEndianVal xs" "256 ^ length xs" "bigEndianVal ys" "unat x" "unat y"]
      bigEndianVal_bound [of xs] bigEndianVal_bound [of ys] Cons.hyps by simp
  then show ?case using Cons.IH by (simp add: word_less_nat_alt word_unat_eq_iff)
qed

lemma bigEndianVal_PutUint64 [simp]: "bigEndianVal (PutUint64 x) = unat x"
  using unsigned_less [where 'a = nat and w = x]
  by (simp only: PutUint64_def) (rule bigEndianVal_bigEndian, simp)

lemma length_PutUint64 [simp]: "length (PutUint64 x) = 8"
  by (simp add: PutUint64_def)

lemma PutUint64_le [simp]: "PutUint64 x \<le> PutUint64 y \<longleftrightarrow> x \<le> y"
  using bigEndianVal_less [of "PutUint64 y" "PutUint64 x"]
  by (simp add: word_le_nat_alt linorder_not_less [symmetric])

lemma BigEndianUint64_PutUint64 [simp]: "BigEndianUint64 (PutUint64 x @ rest) = x"
  by (simp add: BigEndianUint64_def)

end
