(* ===== verification/Core.thy ===== *)
theory Core
  imports GoLib
begin

text \<open>
  The data the program works on. The first part mirrors the structs of
  \<open>github.com/deso-protocol/core/lib\<close> as far as the program reads them, the second the
  Rosetta API types and the constants of \<open>deso/types.go\<close>. A pointer that may be nil is an
  option; a pointer the program always sets is its target.

  Functions of the core library whose code is not part of the repository (address encodings,
  hashes, the integer encoding of database keys) are the fields of the record \<open>corelib\<close>,
  an argument of every definition that calls one of them.
\<close>

section \<open>Structs of the core library\<close>

type_synonym pubkey = bytes
type_synonym pkid = bytes
type_synonym blockhash = bytes

record UtxoKey =
  keyTxID :: blockhash
  keyIndex :: u32

record UtxoEntry =
  entryAmountNanos :: u64
  entryPublicKey :: pubkey
  entryUtxoKey :: "UtxoKey option"
  entryBlockHeight :: u32

record DeSoInput =
  inputTxID :: blockhash
  inputIndex :: u32

record DeSoOutput =
  outputPublicKey :: pubkey
  outputAmountNanos :: u64

record PublicKeyRoyaltyPair =
  royaltyPublicKey :: pubkey
  RoyaltyAmountNanos :: u64

record CoinEntry =
  CoinsInCirculationNanos :: u256
  DeSoLockedNanos :: u64

record ValidatorEntry =
  ValidatorPKID :: pkid
  TotalStakeAmountNanos :: u256
  validatorIsDeleted :: bool

record StakeEntry =
  StakerPKID :: pkid

record LockedStakeEntry =
  lockedStakerPKID :: pkid
  lockedValidatorPKID :: pkid
  LockedAmountNanos :: u256
  lockedAtEpochNumber :: u64
  lockedIsDeleted :: bool

text \<open>\<open>IsUint64\<close> and \<open>Uint64\<close> of \<open>uint256.Int\<close>: does it fit, and its low 64 bits.\<close>

definition IsUint64 :: "u256 \<Rightarrow> bool" where
  "IsUint64 x = (unat x < 2 ^ 64)"

definition Uint64 :: "u256 \<Rightarrow> u64" where
  "Uint64 x = ucast x"

lemma unat_Uint64 [simp]: "IsUint64 x \<Longrightarrow> unat (Uint64 x) = unat x"
  by (simp add: IsUint64_def Uint64_def unsigned_ucast_eq take_bit_nat_eq_self)

datatype OperationType =
    OperationTypeAddUtxo | OperationTypeSpendUtxo | OperationTypeCreatorCoin
  | OperationTypeSwapIdentity | OperationTypeAcceptNFTBid | OperationTypeNFTBid
  | OperationTypeUpdateProfile | OperationTypeSpendBalance | OperationTypeAddBalance
  | OperationTypeStake | OperationTypeUnstake | OperationTypeUnlockStake
  | OperationTypeStakeDistributionRestake | OperationTypeStakeDistributionPayToBalance
  | OperationTypeAtomicTxnsWrapper | OtherOperationType nat

text \<open>The fields of \<open>lib.UtxoOperation\<close> the program reads, less the nested operations.\<close>

record UtxoOperationFields =
  Type :: OperationType
  Entry :: "UtxoEntry option"
  BalancePublicKey :: pubkey
  BalanceAmountNanos :: u64
  CreatorCoinDESOLockedNanosDiff :: i64
  SwapIdentityFromDESOLockedNanos :: u64
  SwapIdentityToDESOLockedNanos :: u64
  AcceptNFTBidCreatorPublicKey :: pubkey
  AcceptNFTBidBidderPublicKey :: pubkey
  AcceptNFTBidCreatorRoyaltyNanos :: u64
  AcceptNFTBidAdditionalCoinRoyalties :: "PublicKeyRoyaltyPair list"
  PrevCoinEntry :: "CoinEntry option"
  NFTBidCreatorPublicKey :: pubkey
  NFTBidCreatorRoyaltyNanos :: u64
  NFTBidAdditionalCoinRoyalties :: "PublicKeyRoyaltyPair list"
  ClobberedProfileBugDESOLockedNanos :: u64
  PrevValidatorEntry :: "ValidatorEntry option"
  PrevStakeEntries :: "StakeEntry list"
  PrevLockedStakeEntries :: "LockedStakeEntry list"
  LockedAtEpochNumber :: u64
  StakeAmountNanosDiff :: u64

datatype UtxoOperation =
  UtxoOperation (opFields: UtxoOperationFields) (AtomicTxnsInnerUtxoOps: "UtxoOperation list list")

abbreviation utxoType :: "UtxoOperation \<Rightarrow> OperationType" where
  "utxoType u \<equiv> Type (opFields u)"

datatype CreatorCoinOperationType =
    CreatorCoinOperationTypeBuy | CreatorCoinOperationTypeSell | OtherCreatorCoinOperationType nat

record CreatorCoinMetadata =
  ProfilePublicKey :: pubkey
  ccOperationType :: CreatorCoinOperationType

record SwapIdentityMetadata =
  FromPublicKey :: pubkey
  ToPublicKey :: pubkey

record BidderInputs =
  TransactorPublicKey :: pubkey
  Inputs :: "DeSoInput list"

record DeSoNonce =
  ExpirationBlockHeight :: u64
  PartialID :: u64

text \<open>
  A transaction and its metadata. The constructor of the metadata stands for the dynamic
  type behind the interface \<open>lib.DeSoTxnMetadata\<close>, so the test of \<open>GetTxnType()\<close> and the
  type assertion that follows it are one \<open>case\<close>. \<open>StakeMetadata None\<close> is the typed nil
  pointer that \<open>getStakeOps\<close> and \<open>getUnstakeOps\<close> test for.
\<close>

datatype MsgDeSoTxn =
  MsgDeSoTxn (TxInputs: "DeSoInput list") (TxOutputs: "DeSoOutput list") (PublicKey: pubkey)
    (TxnMeta: TxnMetadata) (TxnVersion: u64) (TxnFeeNanos: u64) (TxnNonce: "DeSoNonce option")
    (Signature: "(bytes \<times> bytes) option")
and TxnMetadata =
    BasicTransferMetadata
  | CreatorCoinMetadataa CreatorCoinMetadata
  | SwapIdentityMetadataa SwapIdentityMetadata
  | AcceptNFTBidMetadata "DeSoInput list"
  | NFTBidMetadata
  | UpdateProfileMetadata
  | DAOCoinLimitOrderMetadata "BidderInputs list"
  | StakeMetadata "u256 option"
  | UnstakeMetadata "u256 option"
  | UnlockStakeMetadata
  | AtomicTxnsWrapperMetadata "MsgDeSoTxn list"
  | OtherTxnMetadata nat

record MsgDeSoBlock =
  blockHeaderHeight :: u64
  Txns :: "MsgDeSoTxn list"

record DeSoParams =
  BalanceModelBlockHeight :: u32
  CreatorCoinAutoSellThresholdNanos :: u64
  GenesisOutputs :: "DeSoOutput list" \<comment> \<open>\<open>GenesisBlock.Txns[0].TxOutputs\<close>\<close>

section \<open>Rosetta types and the constants of the package deso\<close>

definition InputOpType :: string where "InputOpType = ''INPUT''"
definition OutputOpType :: string where "OutputOpType = ''OUTPUT''"
definition CreatorCoin :: string where "CreatorCoin = ''CREATOR_COIN''"
definition ValidatorEntryPrefix :: string where "ValidatorEntryPrefix = ''VALIDATOR_ENTRY''"
definition LockedStakeEntryPrefix :: string where "LockedStakeEntryPrefix = ''LOCKED_STAKE_ENTRY''"
definition SuccessStatus :: string where "SuccessStatus = ''SUCCESS''"
definition RevertedStatus :: string where "RevertedStatus = ''REVERTED''"
definition OperationTypes :: "string list" where "OperationTypes = [InputOpType, OutputOpType]"
definition MinFeeRateNanosPerKB :: u64 where "MinFeeRateNanosPerKB = 1000"

datatype Mode = Online | Offline

record Currency =
  Symbol :: string
  Decimals :: nat

definition DesoCurrency :: Currency where
  "DesoCurrency = \<lparr>Symbol = ''DESO'', Decimals = 9\<rparr>"

record Amount =
  Value :: string
  amountCurrency :: Currency

record AccountIdentifier =
  Address :: string
  SubAccount :: "string option"

record Operation =
  opIndex :: nat
  opType :: string
  opStatus :: string
  opAccount :: AccountIdentifier
  opAmount :: Amount

text \<open>JSON values as far as the program builds them; the metadata of a core transaction is opaque.\<close>

datatype json = JUint u64 | JString string | JObject "(string \<times> json) list" | JOpaque nat

record Transaction =
  txHash :: string
  txOperations :: "Operation list"
  txMetadata :: "(string \<rightharpoonup> json) option"

definition amountOf :: "string \<Rightarrow> Amount" where
  "amountOf v = \<lparr>Value = v, amountCurrency = DesoCurrency\<rparr>"

definition mkOp :: "nat \<Rightarrow> string \<Rightarrow> AccountIdentifier \<Rightarrow> string \<Rightarrow> Operation" where
  "mkOp n t a v =
     \<lparr>opIndex = n, opType = t, opStatus = SuccessStatus, opAccount = a, opAmount = amountOf v\<rparr>"

definition plainAccount :: "string \<Rightarrow> AccountIdentifier" where
  "plainAccount a = \<lparr>Address = a, SubAccount = None\<rparr>"

definition subAccount :: "string \<Rightarrow> string \<Rightarrow> AccountIdentifier" where
  "subAccount a s = \<lparr>Address = a, SubAccount = Some s\<rparr>"

lemma mkOp_sel [simp]:
  "opIndex (mkOp n t a v) = n" "opType (mkOp n t a v) = t" "opAccount (mkOp n t a v) = a"
  "opStatus (mkOp n t a v) = SuccessStatus" "opAmount (mkOp n t a v) = amountOf v"
  "Value (amountOf v) = v" "amountCurrency (amountOf v) = DesoCurrency"
  by (simp_all add: mkOp_def amountOf_def)

lemma account_sel [simp]:
  "Address (plainAccount a) = a" "SubAccount (plainAccount a) = None"
  "Address (subAccount a s) = a" "SubAccount (subAccount a s) = Some s"
  by (simp_all add: plainAccount_def subAccount_def)

section \<open>Functions of the core library\<close>

text \<open>
  \<open>Base58CheckEncode\<close> and \<open>PkToString\<close> are taken at the parameters of the node (and
  \<open>isPrivate = false\<close>). A function that reports an error returns an option.
\<close>

record corelib =
  Base58CheckEncode :: "bytes \<Rightarrow> string"
  Base58CheckDecode :: "string \<Rightarrow> bytes option"
  PkToString :: "bytes \<Rightarrow> string"
  NewPublicKey :: "bytes \<Rightarrow> pubkey"
  NewPKID :: "bytes \<Rightarrow> pkid"
  BlockHashString :: "blockhash \<Rightarrow> string"
  TxnHash :: "MsgDeSoTxn \<Rightarrow> blockhash"
  BlockHash :: "MsgDeSoBlock \<Rightarrow> blockhash option"
  Sha256DoubleHash :: "bytes \<Rightarrow> blockhash"
  EncodeUint64 :: "u64 \<Rightarrow> bytes"
  DecodeUint64 :: "bytes \<Rightarrow> u64"
  TxnTypeString :: "TxnMetadata \<Rightarrow> string"
  TxnMetaJSON :: "TxnMetadata \<Rightarrow> (string \<rightharpoonup> json) option"

end
