(* ===== verification/Squash.thy ===== *)
theory Squash
  imports Core
begin

text \<open>
  \<open>squashOperations\<close> of \<open>deso/block.go\<close>: it merges the operations of one transaction that
  name the same account, and renumbers them. The loop is translated as it is; a reference
  definition \<open>squashRef\<close> says what it computes, and the lemmas on amounts are proved on
  the reference.
\<close>

section \<open>The code\<close>

record partialAccountIdentifier =
  partialAddress :: string
  partialSubAddress :: string

definition newPartialAccountIdentifier :: "AccountIdentifier \<Rightarrow> partialAccountIdentifier" where
  "newPartialAccountIdentifier a =
     (case SubAccount a of
        Some s \<Rightarrow> \<lparr>partialAddress = Address a, partialSubAddress = s\<rparr>
      | None \<Rightarrow> \<lparr>partialAddress = Address a, partialSubAddress = ''''\<rparr>)"

abbreviation opPartial :: "Operation \<Rightarrow> partialAccountIdentifier" where
  "opPartial op \<equiv> newPartialAccountIdentifier (opAccount op)"

text \<open>The amount of an operation as the loop reads it, the parse error ignored.\<close>

definition opVal :: "Operation \<Rightarrow> i64" where
  "opVal op = fst (ParseInt (Value (opAmount op)))"

definition addAmount :: "Operation \<Rightarrow> Operation \<Rightarrow> Operation" where
  "addAmount existingOp op =
     existingOp\<lparr>opAmount := (opAmount existingOp)\<lparr>Value := FormatInt (opVal existingOp + opVal op)\<rparr>\<rparr>"

fun squashLoop ::
  "(partialAccountIdentifier \<rightharpoonup> nat) \<Rightarrow> Operation list \<Rightarrow> nat \<Rightarrow> Operation list \<Rightarrow> Operation list" where
  "squashLoop opMap squashedOps nextOp [] = squashedOps"
| "squashLoop opMap squashedOps nextOp (op # ops) =
     (let account = opPartial op
      in case opMap account of
           Some opIdx \<Rightarrow>
             squashLoop opMap (squashedOps[opIdx := addAmount (squashedOps ! opIdx) op]) nextOp ops
         | None \<Rightarrow>
             squashLoop (opMap(account \<mapsto> nextOp)) (squashedOps @ [op\<lparr>opIndex := nextOp\<rparr>])
               (nextOp + 1) ops)"

definition squashOperations :: "Operation list \<Rightarrow> Operation list" where
  "squashOperations ops = squashLoop Map.empty [] 0 ops"

section \<open>The reference\<close>

function squashRef :: "Operation list \<Rightarrow> Operation list" where
  "squashRef [] = []"
| "squashRef (op # ops) =
     foldl addAmount op (filter (\<lambda>x. opPartial x = opPartial op) ops)
       # squashRef (filter (\<lambda>x. opPartial x \<noteq> opPartial op) ops)"
  by pat_completeness auto
termination
  by (relation "measure length") (auto simp: less_Suc_eq_le)

fun renumber :: "nat \<Rightarrow> Operation list \<Rightarrow> Operation list" where
  "renumber n [] = []"
| "renumber n (op # ops) = op\<lparr>opIndex := n\<rparr> # renumber (Suc n) ops"

lemma addAmount_sel [simp]:
  "opAccount (addAmount x y) = opAccount x" "opIndex (addAmount x y) = opIndex x"
  "opType (addAmount x y) = opType x" "opStatus (addAmount x y) = opStatus x"
  "opVal (addAmount x y) = opVal x + opVal y"
  "addAmount (x\<lparr>opIndex := n\<rparr>) y = (addAmount x y)\<lparr>opIndex := n\<rparr>"
  "addAmount x (y\<lparr>opIndex := n\<rparr>) = addAmount x y"
  by (simp_all add: addAmount_def opVal_def)

lemma foldl_addAmount_sel [simp]:
  "opAccount (foldl addAmount x ys) = opAccount x"
  "opType (foldl addAmount x ys) = opType x"
  "opStatus (foldl addAmount x ys) = opStatus x"
  "opVal (foldl addAmount x ys) = opVal x + sum_list (map opVal ys)"
  "foldl addAmount (x\<lparr>opIndex := n\<rparr>) ys = (foldl addAmount x ys)\<lparr>opIndex := n\<rparr>"
  by (induction ys arbitrary: x) (simp_all add: add.assoc)

lemma opVal_index [simp]: "opVal (x\<lparr>opIndex := n\<rparr>) = opVal x"
  by (simp add: opVal_def)

lemma length_renumber [simp]: "length (renumber n ops) = length ops"
  by (induction ops arbitrary: n) auto

lemma map_renumber:
  "map opVal (renumber n ops) = map opVal ops" "map opAccount (renumber n ops) = map opAccount ops"
  "map opType (renumber n ops) = map opType ops"
  by (induction ops arbitrary: n) auto

lemma numbered_renumber [simp]: "numbered opIndex n (renumber n ops)"
  by (induction ops arbitrary: n) auto

lemma renumber_numbered: "numbered opIndex n ops \<Longrightarrow> renumber n ops = ops"
  by (induction ops arbitrary: n) auto

section \<open>The loop computes the reference\<close>

definition squashInv ::
  "(partialAccountIdentifier \<rightharpoonup> nat) \<Rightarrow> Operation list \<Rightarrow> nat \<Rightarrow> bool" where
  "squashInv m sq n \<longleftrightarrow>
     n = length sq \<and> distinct (map opPartial sq) \<and>
     (\<forall>a i. m a = Some i \<longleftrightarrow> i < length sq \<and> opPartial (sq ! i) = a)"

lemma squashInv_new:
  assumes "squashInv m sq n" and "m (opPartial op) = None"
  shows "squashInv (m(opPartial op \<mapsto> n)) (sq @ [op\<lparr>opIndex := n\<rparr>]) (Suc n)"
    and "opPartial op \<notin> opPartial ` set sq"
proof -
  have other: "\<And>i. i < length sq \<Longrightarrow> opPartial (sq ! i) \<noteq> opPartial op"
    using assms unfolding squashInv_def by (metis option.distinct(1))
  then show fresh: "opPartial op \<notin> opPartial ` set sq"
    using other by (metis imageE in_set_conv_nth)
  have upd: "\<And>a i. (m(opPartial op \<mapsto> n)) a = Some i \<longleftrightarrow>
      i < length (sq @ [op\<lparr>opIndex := n\<rparr>]) \<and> opPartial ((sq @ [op\<lparr>opIndex := n\<rparr>]) ! i) = a"
    using assms other by (auto simp: squashInv_def nth_append less_Suc_eq)
  have "distinct (map opPartial (sq @ [op\<lparr>opIndex := n\<rparr>]))"
    and "Suc n = length (sq @ [op\<lparr>opIndex := n\<rparr>])"
    using assms fresh by (simp_all add: squashInv_def image_iff)
  with upd show "squashInv (m(opPartial op \<mapsto> n)) (sq @ [op\<lparr>opIndex := n\<rparr>]) (Suc n)"
    unfolding squashInv_def by blast
qed

lemma squashInv_old:
  assumes "squashInv m sq n" and "m (opPartial op) = Some i"
  shows "squashInv m (sq[i := addAmount (sq ! i) op]) n"
    and "i < length sq" and "opPartial (sq ! i) = opPartial op"
proof -
  show i: "i < length sq" "opPartial (sq ! i) = opPartial op"
    using assms by (auto simp: squashInv_def)
  have "map opPartial (sq[i := addAmount (sq ! i) op]) = map opPartial sq"
    using i by (metis (no_types, lifting) addAmount_sel(1) length_map list_update_same_conv map_update nth_map)
  moreover have "\<And>j. j < length sq \<Longrightarrow>
      opPartial (sq[i := addAmount (sq ! i) op] ! j) = opPartial (sq ! j)"
    using i by (simp add: nth_list_update)
  ultimately show "squashInv m (sq[i := addAmount (sq ! i) op]) n"
    using assms by (auto simp: squashInv_def)
qed

abbreviation absorb :: "Operation list \<Rightarrow> Operation \<Rightarrow> Operation" where
  "absorb ops x \<equiv> foldl addAmount x (filter (\<lambda>y. opPartial y = opPartial x) ops)"

lemma absorb_update:
  assumes "distinct (map opPartial sq)" and "i < length sq"
    and "opPartial (sq ! i) = opPartial op"
  shows "map (absorb ops) (sq[i := addAmount (sq ! i) op]) = map (absorb (op # ops)) sq"
proof (rule nth_equalityI)
  fix j assume "j < length (map (absorb ops) (sq[i := addAmount (sq ! i) op]))"
  then have j: "j < length sq" by simp
  show "map (absorb ops) (sq[i := addAmount (sq ! i) op]) ! j = map (absorb (op # ops)) sq ! j"
  proof (cases "j = i")
    case True
    then show ?thesis using assms j by simp
  next
    case False
    then have "opPartial (sq ! j) \<noteq> opPartial op"
      using assms j by (metis distinct_conv_nth length_map nth_map)
    then show ?thesis using False j by (simp add: nth_list_update)
  qed
qed simp

lemma squashLoop_ref:
  "squashInv m sq n \<Longrightarrow>
     squashLoop m sq n ops =
       map (absorb ops) sq @ renumber n (squashRef (filter (\<lambda>x. opPartial x \<notin> opPartial ` set sq) ops))"
proof (induction ops arbitrary: m sq n)
  case Nil
  then show ?case by simp
next
  case (Cons op ops)
  show ?case
  proof (cases "m (opPartial op)")
    case None
    note new = squashInv_new [OF Cons.prems None]
    let ?rest = "filter (\<lambda>x. opPartial x \<notin> opPartial ` set sq) ops"
    have old: "map (absorb ops) sq = map (absorb (op # ops)) sq"
      using new(2) by (auto simp: image_iff)
    have rest: "filter (\<lambda>x. opPartial x \<notin> opPartial ` set (sq @ [op\<lparr>opIndex := n\<rparr>])) ops =
        filter (\<lambda>x. opPartial x \<noteq> opPartial op) ?rest"
      by (auto intro!: filter_cong)
    have same: "filter (\<lambda>x. opPartial x = opPartial op) ops =
        filter (\<lambda>x. opPartial x = opPartial op) ?rest"
      using new(2) by (auto intro!: filter_cong) (metis image_eqI)
    have "squashLoop m sq n (op # ops) =
        squashLoop (m(opPartial op \<mapsto> n)) (sq @ [op\<lparr>opIndex := n\<rparr>]) (Suc n) ops"
      using None by simp
    also have "\<dots> = map (absorb ops) sq @ absorb ops (op\<lparr>opIndex := n\<rparr>)
        # renumber (Suc n) (squashRef (filter (\<lambda>x. opPartial x \<noteq> opPartial op) ?rest))"
      by (simp only: Cons.IH [OF new(1)] rest) simp
    also have "\<dots> = map (absorb (op # ops)) sq @ renumber n (squashRef (op # ?rest))"
      by (simp only: old) (simp add: same)
    finally show ?thesis using new(2) by simp
  next
    case (Some i)
    note old = squashInv_old [OF Cons.prems Some]
    have d: "distinct (map opPartial sq)" using Cons.prems by (simp add: squashInv_def)
    have mem: "opPartial op \<in> opPartial ` set sq"
      using old(2,3) by (metis image_eqI nth_mem)
    have "opPartial ` set (sq[i := addAmount (sq ! i) op]) = opPartial ` set sq"
      using old(2) by (metis (no_types, lifting) addAmount_sel(1) list.set_map list_update_id map_update)
    then show ?thesis
      using Cons.IH [OF old(1)] absorb_update [OF d old(2,3), of ops] mem Some by simp
  qed
qed

lemma squashOperations_ref: "squashOperations ops = renumber 0 (squashRef ops)"
  using squashLoop_ref [of Map.empty "[]" 0 ops]
  by (simp add: squashOperations_def squashInv_def)

section \<open>What squashing keeps\<close>

text \<open>The net amount an operation list moves on one account, as an \<open>int64\<close>.\<close>

definition netAmount :: "partialAccountIdentifier \<Rightarrow> Operation list \<Rightarrow> i64" where
  "netAmount a ops = sum_list (map opVal (filter (\<lambda>op. opPartial op = a) ops))"

lemma netAmount_simps [simp]:
  "netAmount a [] = 0"
  "netAmount a (op # ops) = (if opPartial op = a then opVal op + netAmount a ops else netAmount a ops)"
  "netAmount a (xs @ ys) = netAmount a xs + netAmount a ys"
  by (simp_all add: netAmount_def)

lemma netAmount_renumber [simp]: "netAmount a (renumber n ops) = netAmount a ops"
  by (induction ops arbitrary: n) auto

lemma netAmount_other:
  "netAmount a (filter (\<lambda>x. opPartial x \<noteq> b) ops) = (if a = b then 0 else netAmount a ops)"
  by (induction ops) auto

lemma netAmount_squashRef: "netAmount a (squashRef ops) = netAmount a ops"
proof (induction ops rule: squashRef.induct)
  case 1
  then show ?case by simp
next
  case (2 op ops)
  then show ?case
    by (cases "a = opPartial op") (simp_all add: netAmount_other netAmount_def [of _ ops])
qed

lemma set_squashRef: "opPartial ` set (squashRef ops) = opPartial ` set ops"
  by (induction ops rule: squashRef.induct) auto

lemma distinct_squashRef: "distinct (map opPartial (squashRef ops))"
proof (induction ops rule: squashRef.induct)
  case 1
  then show ?case by simp
next
  case (2 op ops)
  have "opPartial op \<notin> opPartial ` set (squashRef (filter (\<lambda>x. opPartial x \<noteq> opPartial op) ops))"
    by (simp add: set_squashRef) auto
  then show ?case using "2.IH" by simp
qed

lemma squashRef_distinct: "distinct (map opPartial ops) \<Longrightarrow> squashRef ops = ops"
proof (induction ops)
  case Nil
  then show ?case by simp
next
  case (Cons op ops)
  then have "filter (\<lambda>x. opPartial x = opPartial op) ops = []"
    and "filter (\<lambda>x. opPartial x \<noteq> opPartial op) ops = ops"
    by (auto simp: filter_empty_conv filter_id_conv image_iff)
  with Cons show ?case by simp
qed

lemma map_opPartial_renumber [simp]: "map opPartial (renumber n ops) = map opPartial ops"
  by (induction ops arbitrary: n) auto

lemma netAmount_squash [simp]: "netAmount a (squashOperations ops) = netAmount a ops"
  by (simp add: squashOperations_ref netAmount_squashRef)

lemma distinct_squash: "distinct (map opPartial (squashOperations ops))"
  by (simp add: squashOperations_ref distinct_squashRef)

lemma numbered_squash: "numbered opIndex 0 (squashOperations ops)"
  by (simp add: squashOperations_ref)

lemma set_squash: "opPartial ` set (squashOperations ops) = opPartial ` set ops"
  by (metis list.set_map map_opPartial_renumber set_squashRef squashOperations_ref)

lemma squash_distinct: "distinct (map opPartial ops) \<Longrightarrow> squashOperations ops = renumber 0 ops"
  by (simp add: squashOperations_ref squashRef_distinct)

lemma netAmount_distinct:
  "distinct (map opPartial ops) \<Longrightarrow> op \<in> set ops \<Longrightarrow> netAmount (opPartial op) ops = opVal op"
proof (induction ops)
  case Nil
  then show ?case by simp
next
  case (Cons x ops)
  have none: "netAmount a ops = 0" if "a \<notin> opPartial ` set ops" for a
    using that by (induction ops) auto
  show ?case using Cons none [of "opPartial x"] by (auto simp: image_iff)
qed

text \<open>Signed 64-bit sums that fit are the sums of integers.\<close>

lemma sint_of_int_u64: "- (2 ^ 63) \<le> k \<Longrightarrow> k < 2 ^ 63 \<Longrightarrow> sint (of_int k :: i64) = k"
  by (simp add: signed_of_int signed_take_bit_int_eq_self)

lemma sum_list_words: "sum_list (xs :: i64 list) = of_int (sum_list (map sint xs))"
  by (induction xs) simp_all

lemma sint_sum_list:
  assumes "- (2 ^ 63) \<le> sum_list (map sint xs)" and "sum_list (map sint xs) < 2 ^ 63"
  shows "sint (sum_list (xs :: i64 list)) = sum_list (map sint xs)"
  by (metis assms sint_of_int_u64 sum_list_words)

section \<open>Properties\<close>

text \<open>
  C11: the loop over an index map, which updates operations in place, computes the reference:
  each account's first operation, in order of first appearance, with the amounts of the later
  operations on the account added one by one, numbered from 0.
\<close>

theorem squash_computes_reference: "squashOperations ops = renumber 0 (squashRef ops)"
  by (rule squashOperations_ref)

text \<open>
  C25: after squashing, the value of an operation read as an integer is the integer sum of the
  values of all operations on its account, whenever that sum fits an \<open>int64\<close>.
\<close>

theorem squash_sums_amounts:
  assumes "op \<in> set (squashOperations ops)"
    and "s = sum_list (map (\<lambda>x. sint (opVal x)) (filter (\<lambda>x. opPartial x = opPartial op) ops))"
    and "- (2 ^ 63) \<le> s" and "s < 2 ^ 63"
  shows "sint (opVal op) = s"
proof -
  have "opVal op = netAmount (opPartial op) (squashOperations ops)"
    using netAmount_distinct [OF distinct_squash assms(1)] by simp
  also have "\<dots> = sum_list (map opVal (filter (\<lambda>x. opPartial x = opPartial op) ops))"
    by (simp only: netAmount_squash) (simp add: netAmount_def)
  finally show ?thesis
    using sint_sum_list [of "map opVal (filter (\<lambda>x. opPartial x = opPartial op) ops)"] assms(2-4)
    by (simp add: comp_def)
qed

definition exampleOps :: "Operation list" where
  "exampleOps =
     [mkOp 0 InputOpType (plainAccount ''a'') (FormatInt (- 105)),
      mkOp 1 OutputOpType (plainAccount ''b'') (FormatUint 60),
      mkOp 2 OutputOpType (plainAccount ''a'') (FormatUint 40)]"

lemma opVal_formatted [simp]:
  "opVal (mkOp n t a (FormatInt x)) = x"
  "opVal (mkOp n t a (FormatUint y)) = clampInt64 y"
  by (simp_all add: opVal_def)

theorem squash_sums_amounts_witness:
  "sint (opVal (hd (squashOperations exampleOps))) = - 65"
proof -
  let ?op = "hd (squashOperations exampleOps)"
  have partial: "opPartial ?op = \<lparr>partialAddress = ''a'', partialSubAddress = []\<rparr>"
    and "squashOperations exampleOps \<noteq> []"
    by (simp_all add: squashOperations_ref exampleOps_def newPartialAccountIdentifier_def)
  then have "?op \<in> set (squashOperations exampleOps)" by simp
  from squash_sums_amounts [OF this refl] show ?thesis unfolding partial
    by (simp add: exampleOps_def newPartialAccountIdentifier_def clampInt64_def)
qed

text \<open>Squashing a squashed list changes nothing.\<close>

theorem squash_idempotent: "squashOperations (squashOperations ops) = squashOperations ops"
  by (simp add: squash_distinct distinct_squash renumber_numbered numbered_squash)

end
