(* ===== verification/CoreLaws.thy ===== *)
theory CoreLaws
  imports Core
begin

text \<open>
  What the program relies on of the core library, as locales over the record \<open>corelib\<close>, and a
  reference library that satisfies every law: addresses in hexadecimal, integers in big-endian
  order (the order \<open>encoding/binary\<close> writes and \<open>lib.EncodeUint64\<close> documents), byte arrays
  by \<open>copy\<close>. The reference library is what witnesses evaluate.
\<close>

section \<open>Addresses\<close>

text \<open>
  A Base58Check address decodes to the bytes it was made from, and no address holds a dash
  (the dash is not in the Base58 alphabet).
\<close>

locale address_codec =
  fixes encode :: "bytes \<Rightarrow> string" and decode :: "string \<Rightarrow> bytes option"
  assumes decode_encode: "decode (encode b) = Some b"
    and no_dash: "CHR ''-'' \<notin> set (encode b)"
begin

lemma encode_inj: "encode a = encode b \<longleftrightarrow> a = b"
  by (metis decode_encode option.inject)

text \<open>A dash ends an address, so two addresses followed by a dash split in the same place.\<close>

lemma encode_dash_inj:
  "encode a @ CHR ''-'' # s = encode b @ CHR ''-'' # t \<longleftrightarrow> a = b \<and> s = t"
proof
  assume eq: "encode a @ CHR ''-'' # s = encode b @ CHR ''-'' # t"
  have "takeWhile (\<lambda>c. c \<noteq> CHR ''-'') (encode x @ CHR ''-'' # u) = encode x" for x u
    using no_dash by (auto intro: takeWhile_append2 [THEN trans])
  then have "encode a = encode b" using eq by metis
  then show "a = b \<and> s = t" using eq encode_inj by auto
qed auto

end

section \<open>Integers and keys\<close>

text \<open>
  \<open>lib.EncodeUint64\<close> writes eight bytes whose lexicographic order is the order of the numbers,
  and \<open>lib.DecodeUint64\<close> reads the first eight bytes back. Public keys and PKIDs are arrays of
  33 bytes.
\<close>

locale uint64_codec =
  fixes encode :: "u64 \<Rightarrow> bytes" and decode :: "bytes \<Rightarrow> u64"
  assumes length_encode [simp]: "length (encode x) = 8"
    and decode_encode [simp]: "decode (encode x @ rest) = x"
    and decode_take: "8 \<le> length bs \<Longrightarrow> decode (take 8 bs) = decode bs"
    and encode_le [simp]: "encode x \<le> encode y \<longleftrightarrow> x \<le> y"
begin

lemma decode_encode_end [simp]: "decode (encode x) = x"
  using decode_encode [of x "[]"] by simp

lemma encode_inj [simp]: "encode x = encode y \<longleftrightarrow> x = y"
  by (metis decode_encode_end)

lemma encode_less [simp]: "encode x < encode y \<longleftrightarrow> x < y"
  by (simp add: less_le_not_le)

text \<open>Two encoded numbers in a row compare like the pair.\<close>

lemma encode_pair_le:
  "encode h @ encode b \<le> encode h' @ encode b' \<longleftrightarrow> h < h' \<or> (h = h' \<and> b \<le> b')"
  by (simp add: append_less_same_length)

end

locale core_library =
  addresses: address_codec "Base58CheckEncode L" "Base58CheckDecode L" +
  uint64: uint64_codec "EncodeUint64 L" "DecodeUint64 L"
  for L :: corelib +
  assumes length_NewPublicKey [simp]: "length (NewPublicKey L b) = 33"
    and NewPublicKey_id [simp]: "length b = 33 \<Longrightarrow> NewPublicKey L b = b"
    and NewPKID_eq: "NewPKID L b = NewPublicKey L b"

section \<open>The reference library\<close>

lemma hexDigit_not_dash: "n < 16 \<Longrightarrow> hexDigit n \<noteq> CHR ''-''"
proof
  assume n: "n < 16" and "hexDigit n = CHR ''-''"
  then have "(of_char (hexDigit n) :: nat) = 45" by simp
  then show False using n by (simp add: of_char_hexDigit split: if_splits)
qed

interpretation hex_address: address_codec hexEncode hexDecode
proof
  fix b :: bytes
  have "unat x div 16 < 16" for x :: u8
    using unat_byte [of x] by simp
  then have "hexDigit (unat x div 16) \<noteq> CHR ''-''" "hexDigit (unat x mod 16) \<noteq> CHR ''-''" for x :: u8
    by (simp_all add: hexDigit_not_dash)
  then show "CHR ''-'' \<notin> set (hexEncode b)" by (auto simp: hexEncode_def dest: sym)
qed simp

interpretation bigendian_uint64: uint64_codec PutUint64 BigEndianUint64
  by unfold_locales (auto simp: BigEndianUint64_def)

definition refLib :: corelib where
  "refLib =
     \<lparr>Base58CheckEncode = hexEncode, Base58CheckDecode = hexDecode, PkToString = hexEncode,
      NewPublicKey = copyArray 33, NewPKID = copyArray 33, BlockHashString = hexEncode,
      TxnHash = (\<lambda>t. copyArray 32 (PublicKey t)),
      BlockHash = (\<lambda>b. Some (copyArray 32 (PutUint64 (blockHeaderHeight b)))),
      Sha256DoubleHash = (\<lambda>b. copyArray 32 (rev b)),
      EncodeUint64 = PutUint64, DecodeUint64 = BigEndianUint64,
      TxnTypeString = (\<lambda>m. []), TxnMetaJSON = (\<lambda>m. Some Map.empty)\<rparr>"

lemma refLib_sel [simp]:
  "Base58CheckEncode refLib = hexEncode" "Base58CheckDecode refLib = hexDecode"
  "PkToString refLib = hexEncode" "NewPublicKey refLib = copyArray 33"
  "NewPKID refLib = copyArray 33" "BlockHashString refLib = hexEncode"
  "EncodeUint64 refLib = PutUint64" "DecodeUint64 refLib = BigEndianUint64"
  "TxnMetaJSON refLib m = Some Map.empty" "TxnTypeString refLib m = []"
  by (simp_all add: refLib_def)

interpretation reference: core_library refLib
  by unfold_locales (auto simp: hex_address.no_dash BigEndianUint64_def)

end
