(* ===== verification/TxnOps.thy ===== *)
theory TxnOps
  imports Squash CoreLaws
begin

text \<open>
  The operations of one transaction: the functions \<open>get...Ops\<close> of \<open>deso/block.go\<close>, one
  definition each, with the index of their first operation as the argument \<open>numOps\<close>, and the
  identifiers of the staking sub-accounts. A function that can panic returns an option.
\<close>

section \<open>Account identifiers of staking\<close>

definition getLockedStakeEntryIdentifierForValidator ::
  "corelib \<Rightarrow> pkid \<Rightarrow> pkid \<Rightarrow> u64 \<Rightarrow> AccountIdentifier" where
  "getLockedStakeEntryIdentifierForValidator L stakerPKID validatorPKID lockedAtEpoch =
     subAccount (Base58CheckEncode L stakerPKID)
       (LockedStakeEntryPrefix @ ''-'' @ Base58CheckEncode L validatorPKID @ ''-''
         @ FormatUint lockedAtEpoch)"

definition getValidatorEntrySubAccountIdentifierForValidator ::
  "corelib \<Rightarrow> pkid \<Rightarrow> AccountIdentifier" where
  "getValidatorEntrySubAccountIdentifierForValidator L validatorPKID =
     subAccount (Base58CheckEncode L validatorPKID) ValidatorEntryPrefix"

text \<open>\<open>None\<close> is the error \<open>invalid subaccount for validator PKID extraction\<close>.\<close>

definition GetValidatorPKIDFromSubAccountIdentifier ::
  "corelib \<Rightarrow> string option \<Rightarrow> pkid option" where
  "GetValidatorPKIDFromSubAccountIdentifier L sub =
     (case sub of
        None \<Rightarrow> None
      | Some s \<Rightarrow>
          if \<not> HasPrefix s LockedStakeEntryPrefix then None
          else
            let segments = Split CHR ''-'' s
            in if length segments \<noteq> 2 then None
               else case Base58CheckDecode L (segments ! 1) of
                      None \<Rightarrow> None
                    | Some validatorPKIDBytes \<Rightarrow> Some (NewPKID L validatorPKIDBytes))"

section \<open>Operations read from the UTXO operations\<close>

fun getBalanceModelSpends :: "corelib \<Rightarrow> nat \<Rightarrow> UtxoOperation list \<Rightarrow> Operation list" where
  "getBalanceModelSpends L numOps [] = []"
| "getBalanceModelSpends L numOps (utxoOp # rest) =
     (if utxoType utxoOp = OperationTypeSpendBalance
      then mkOp numOps InputOpType
             (plainAccount (Base58CheckEncode L (BalancePublicKey (opFields utxoOp))))
             (FormatInt (BalanceAmountNanos (opFields utxoOp) * -1))
           # getBalanceModelSpends L (numOps + 1) rest
      else getBalanceModelSpends L numOps rest)"

definition isImplicitUtxo :: "u32 \<Rightarrow> UtxoOperation \<Rightarrow> bool" where
  "isImplicitUtxo numOutputs utxoOp \<longleftrightarrow>
     utxoType utxoOp = OperationTypeAddUtxo \<and>
     (case Entry (opFields utxoOp) of
        None \<Rightarrow> False
      | Some e \<Rightarrow> (case entryUtxoKey e of None \<Rightarrow> False | Some k \<Rightarrow> numOutputs \<le> keyIndex k))"

fun implicitOutputsLoop :: "corelib \<Rightarrow> u32 \<Rightarrow> nat \<Rightarrow> UtxoOperation list \<Rightarrow> Operation list" where
  "implicitOutputsLoop L numOutputs numOps [] = []"
| "implicitOutputsLoop L numOutputs numOps (utxoOp # rest) =
     (let fromUtxo =
            (case Entry (opFields utxoOp) of
               Some e \<Rightarrow>
                 if isImplicitUtxo numOutputs utxoOp
                 then [mkOp numOps OutputOpType
                         (plainAccount (Base58CheckEncode L (entryPublicKey e)))
                         (FormatUint (entryAmountNanos e))]
                 else []
             | None \<Rightarrow> []);
          fromBalance =
            (if utxoType utxoOp = OperationTypeAddBalance \<or>
                utxoType utxoOp = OperationTypeStakeDistributionPayToBalance
             then [mkOp (numOps + length fromUtxo) OutputOpType
                     (plainAccount (Base58CheckEncode L (BalancePublicKey (opFields utxoOp))))
                     (FormatUint (BalanceAmountNanos (opFields utxoOp)))]
             else [])
      in fromUtxo @ fromBalance @
         implicitOutputsLoop L numOutputs (numOps + length fromUtxo + length fromBalance) rest)"

definition getImplicitOutputs ::
  "corelib \<Rightarrow> DeSoOutput list \<Rightarrow> UtxoOperation list \<Rightarrow> nat \<Rightarrow> Operation list" where
  "getImplicitOutputs L txOutputs utxoOpsForTxn numOps =
     implicitOutputsLoop L (of_nat (length txOutputs)) numOps utxoOpsForTxn"

text \<open>
  \<open>getInputAmount\<close>: a missing input is the inner \<open>None\<close> (the nil the callers test for), an
  index past the outputs of the genesis transaction panics.
\<close>

definition spendsInput :: "DeSoInput \<Rightarrow> UtxoOperation \<Rightarrow> bool" where
  "spendsInput input utxoOp \<longleftrightarrow>
     utxoType utxoOp = OperationTypeSpendUtxo \<and>
     (case Entry (opFields utxoOp) of
        None \<Rightarrow> False
      | Some e \<Rightarrow>
          (case entryUtxoKey e of
             None \<Rightarrow> False
           | Some k \<Rightarrow> keyTxID k = inputTxID input \<and> keyIndex k = inputIndex input))"

definition entryAmount :: "UtxoOperation \<Rightarrow> u64" where
  "entryAmount utxoOp = (case Entry (opFields utxoOp) of Some e \<Rightarrow> entryAmountNanos e | None \<Rightarrow> 0)"

definition getInputAmount ::
  "DeSoParams \<Rightarrow> DeSoInput \<Rightarrow> UtxoOperation list \<Rightarrow> string option option" where
  "getInputAmount P input utxoOpsForTxn =
     (if inputTxID input = replicate 32 0
      then (let i = unat (inputIndex input)
            in if i < length (GenesisOutputs P)
               then Some (Some (FormatInt (outputAmountNanos (GenesisOutputs P ! i) * -1)))
               else None)
      else Some (map_option (\<lambda>utxoOp. FormatInt (entryAmount utxoOp * -1))
                   (find (spendsInput input) utxoOpsForTxn)))"

section \<open>Operations of the special transaction types\<close>

text \<open>The search for the first UTXO operation of one type that most of the functions start with.\<close>

definition findUtxoOp :: "OperationType \<Rightarrow> UtxoOperation list \<Rightarrow> UtxoOperationFields option" where
  "findUtxoOp t utxoOps = map_option opFields (find (\<lambda>u. utxoType u = t) utxoOps)"

definition creatorCoinAccount :: "corelib \<Rightarrow> pubkey \<Rightarrow> AccountIdentifier" where
  "creatorCoinAccount L pk = subAccount (PkToString L pk) CreatorCoin"

definition getCreatorCoinOps ::
  "corelib \<Rightarrow> MsgDeSoTxn \<Rightarrow> UtxoOperation list \<Rightarrow> nat \<Rightarrow> Operation list" where
  "getCreatorCoinOps L txn utxoOpsForTxn numOps =
     (case TxnMeta txn of
        CreatorCoinMetadataa txnMeta \<Rightarrow>
          (case findUtxoOp OperationTypeCreatorCoin utxoOpsForTxn of
             None \<Rightarrow> []
           | Some creatorCoinOp \<Rightarrow>
               let account = creatorCoinAccount L (ProfilePublicKey txnMeta);
                   amount = FormatInt (CreatorCoinDESOLockedNanosDiff creatorCoinOp)
               in if ccOperationType txnMeta = CreatorCoinOperationTypeSell
                  then [mkOp numOps InputOpType account amount]
                  else if ccOperationType txnMeta = CreatorCoinOperationTypeBuy
                  then [mkOp numOps OutputOpType account amount]
                  else [])
      | _ \<Rightarrow> [])"

definition getSwapIdentityOps ::
  "corelib \<Rightarrow> MsgDeSoTxn \<Rightarrow> UtxoOperation list \<Rightarrow> nat \<Rightarrow> Operation list" where
  "getSwapIdentityOps L txn utxoOpsForTxn numOps =
     (case TxnMeta txn of
        SwapIdentityMetadataa realTxMeta \<Rightarrow>
          (case findUtxoOp OperationTypeSwapIdentity utxoOpsForTxn of
             None \<Rightarrow> []
           | Some swapIdentityOp \<Rightarrow>
               let fromAccount = creatorCoinAccount L (FromPublicKey realTxMeta);
                   toAccount = creatorCoinAccount L (ToPublicKey realTxMeta);
                   fromNanos = SwapIdentityFromDESOLockedNanos swapIdentityOp;
                   toNanos = SwapIdentityToDESOLockedNanos swapIdentityOp
               in [mkOp numOps InputOpType fromAccount (FormatInt (fromNanos * -1)),
                   mkOp (numOps + 1) InputOpType toAccount (FormatInt (toNanos * -1)),
                   mkOp (numOps + 2) OutputOpType fromAccount (FormatUint toNanos),
                   mkOp (numOps + 3) OutputOpType toAccount (FormatUint fromNanos)])
      | _ \<Rightarrow> [])"

text \<open>\<open>addNFTRoyalties\<close> appends one output per royalty that is not zero.\<close>

fun addNFTRoyalties ::
  "corelib \<Rightarrow> Operation list \<Rightarrow> nat \<Rightarrow> PublicKeyRoyaltyPair list \<Rightarrow> Operation list \<times> nat" where
  "addNFTRoyalties L ops numOps [] = (ops, numOps)"
| "addNFTRoyalties L ops numOps (r # royalties) =
     (if RoyaltyAmountNanos r = 0 then addNFTRoyalties L ops numOps royalties
      else addNFTRoyalties L
             (ops @ [mkOp numOps OutputOpType (creatorCoinAccount L (royaltyPublicKey r))
                       (FormatUint (RoyaltyAmountNanos r))])
             (numOps + 1) royalties)"

text \<open>
  The loop over the inputs of a bidder, used by \<open>getAcceptNFTOps\<close> and, once per bidder, by
  \<open>getDAOCoinLimitOrderOps\<close>. The inner \<open>None\<close> is the early return of nil. The second early
  return of \<open>getAcceptNFTOps\<close>, on an amount that does not parse, has no branch of its own:
  the amount was formatted by \<open>FormatInt\<close> and \<open>ParseInt_FormatInt\<close> reads it back, and the
  running total it is added to is not used.
\<close>

fun bidderInputOps ::
  "DeSoParams \<Rightarrow> string \<Rightarrow> UtxoOperation list \<Rightarrow> nat \<Rightarrow> DeSoInput list \<Rightarrow> Operation list option option" where
  "bidderInputOps P bidder utxoOpsForTxn numOps [] = Some (Some [])"
| "bidderInputOps P bidder utxoOpsForTxn numOps (input # inputs) =
     do { inputAmount \<leftarrow> getInputAmount P input utxoOpsForTxn;
          (case inputAmount of
             None \<Rightarrow> Some None
           | Some amount \<Rightarrow>
               do { rest \<leftarrow> bidderInputOps P bidder utxoOpsForTxn (numOps + 1) inputs;
                    Some (map_option
                      (\<lambda>ops. mkOp numOps InputOpType (plainAccount bidder) amount # ops) rest) }) }"

definition getAcceptNFTOps ::
  "corelib \<Rightarrow> DeSoParams \<Rightarrow> MsgDeSoTxn \<Rightarrow> UtxoOperation list \<Rightarrow> nat \<Rightarrow> Operation list option" where
  "getAcceptNFTOps L P txn utxoOpsForTxn numOps =
     (case TxnMeta txn of
        AcceptNFTBidMetadata inputs \<Rightarrow>
          (case findUtxoOp OperationTypeAcceptNFTBid utxoOpsForTxn of
             None \<Rightarrow> Some []
           | Some acceptNFTOp \<Rightarrow>
               do { inputOps \<leftarrow> bidderInputOps P
                      (PkToString L (AcceptNFTBidBidderPublicKey acceptNFTOp))
                      utxoOpsForTxn numOps inputs;
                    (case inputOps of
                       None \<Rightarrow> Some []
                     | Some operations \<Rightarrow>
                         do { coinEntry \<leftarrow> PrevCoinEntry acceptNFTOp;
                              let n = numOps + length operations;
                              let royalty = AcceptNFTBidCreatorRoyaltyNanos acceptNFTOp;
                              let creator =
                                (if CreatorCoinAutoSellThresholdNanos P
                                      \<le> Uint64 (CoinsInCirculationNanos coinEntry) \<and> 0 < royalty
                                 then [mkOp n OutputOpType
                                   (creatorCoinAccount L (AcceptNFTBidCreatorPublicKey acceptNFTOp))
                                   (FormatUint royalty)]
                                 else []);
                              Some (fst (addNFTRoyalties L (operations @ creator)
                                (n + length creator)
                                (AcceptNFTBidAdditionalCoinRoyalties acceptNFTOp))) }) })
      | _ \<Rightarrow> Some [])"

definition getBuyNowNFTBidOps ::
  "corelib \<Rightarrow> DeSoParams \<Rightarrow> MsgDeSoTxn \<Rightarrow> UtxoOperation list \<Rightarrow> nat \<Rightarrow> Operation list" where
  "getBuyNowNFTBidOps L P txn utxoOpsForTxn numOps =
     (case TxnMeta txn of
        NFTBidMetadata \<Rightarrow>
          (case findUtxoOp OperationTypeNFTBid utxoOpsForTxn of
             None \<Rightarrow> []
           | Some nftBidOp \<Rightarrow>
               let royalty = NFTBidCreatorRoyaltyNanos nftBidOp;
                   creator =
                     (case PrevCoinEntry nftBidOp of
                        None \<Rightarrow> []
                      | Some coinEntry \<Rightarrow>
                          if CreatorCoinAutoSellThresholdNanos P
                               \<le> Uint64 (CoinsInCirculationNanos coinEntry) \<and> 0 < royalty
                          then [mkOp numOps OutputOpType
                            (creatorCoinAccount L (NFTBidCreatorPublicKey nftBidOp))
                            (FormatUint royalty)]
                          else [])
               in fst (addNFTRoyalties L creator (numOps + length creator)
                         (NFTBidAdditionalCoinRoyalties nftBidOp)))
      | _ \<Rightarrow> [])"

definition getUpdateProfileOps ::
  "corelib \<Rightarrow> MsgDeSoTxn \<Rightarrow> UtxoOperation list \<Rightarrow> nat \<Rightarrow> Operation list" where
  "getUpdateProfileOps L txn utxoOpsForTxn numOps =
     (case TxnMeta txn of
        UpdateProfileMetadata \<Rightarrow>
          (case findUtxoOp OperationTypeUpdateProfile utxoOpsForTxn of
             None \<Rightarrow> []
           | Some utxoOp \<Rightarrow>
               if 0 < ClobberedProfileBugDESOLockedNanos utxoOp
               then [mkOp numOps InputOpType
                       (subAccount (Base58CheckEncode L (PublicKey txn)) CreatorCoin)
                       (FormatInt (ClobberedProfileBugDESOLockedNanos utxoOp * -1))]
               else [])
      | _ \<Rightarrow> [])"

fun bidderOps ::
  "corelib \<Rightarrow> DeSoParams \<Rightarrow> UtxoOperation list \<Rightarrow> nat \<Rightarrow> BidderInputs list \<Rightarrow>
     Operation list option option" where
  "bidderOps L P utxoOpsForTxn numOps [] = Some (Some [])"
| "bidderOps L P utxoOpsForTxn numOps (b # bs) =
     do { ops \<leftarrow> bidderInputOps P (Base58CheckEncode L (TransactorPublicKey b)) utxoOpsForTxn
                  numOps (Inputs b);
          (case ops of
             None \<Rightarrow> Some None
           | Some ops \<Rightarrow>
               do { rest \<leftarrow> bidderOps L P utxoOpsForTxn (numOps + length ops) bs;
                    Some (map_option (\<lambda>r. ops @ r) rest) }) }"

definition getDAOCoinLimitOrderOps ::
  "corelib \<Rightarrow> DeSoParams \<Rightarrow> MsgDeSoTxn \<Rightarrow> UtxoOperation list \<Rightarrow> nat \<Rightarrow> Operation list option" where
  "getDAOCoinLimitOrderOps L P txn utxoOpsForTxn numOps =
     (case TxnMeta txn of
        DAOCoinLimitOrderMetadata bidders \<Rightarrow>
          do { ops \<leftarrow> bidderOps L P utxoOpsForTxn numOps bidders;
               Some (case ops of None \<Rightarrow> [] | Some ops \<Rightarrow> ops) }
      | _ \<Rightarrow> Some [])"

section \<open>Staking\<close>

fun stakeLoop ::
  "corelib \<Rightarrow> u256 option \<Rightarrow> nat \<Rightarrow> UtxoOperation list \<Rightarrow> Operation list" where
  "stakeLoop L meta numOps [] = []"
| "stakeLoop L meta numOps (utxoOp # rest) =
     (if utxoType utxoOp = OperationTypeStake
      then
        case (PrevValidatorEntry (opFields utxoOp), meta) of
          (Some prevValidatorEntry, Some stakeAmountNanos) \<Rightarrow>
            if IsUint64 stakeAmountNanos
            then mkOp numOps OutputOpType
                   (getValidatorEntrySubAccountIdentifierForValidator L
                      (ValidatorPKID prevValidatorEntry))
                   (FormatUint (Uint64 stakeAmountNanos))
                 # stakeLoop L meta (numOps + 1) rest
            else stakeLoop L meta numOps rest
        | _ \<Rightarrow> stakeLoop L meta numOps rest
      else stakeLoop L meta numOps rest)"

definition getStakeOps ::
  "corelib \<Rightarrow> MsgDeSoTxn \<Rightarrow> UtxoOperation list \<Rightarrow> nat \<Rightarrow> Operation list" where
  "getStakeOps L txn utxoOps numOps =
     (case TxnMeta txn of
        StakeMetadata meta \<Rightarrow> stakeLoop L meta numOps utxoOps
      | _ \<Rightarrow> [])"

fun unstakeLoop ::
  "corelib \<Rightarrow> u256 option \<Rightarrow> nat \<Rightarrow> UtxoOperation list \<Rightarrow> Operation list" where
  "unstakeLoop L meta numOps [] = []"
| "unstakeLoop L meta numOps (utxoOp # rest) =
     (if utxoType utxoOp = OperationTypeUnstake
      then
        case (PrevValidatorEntry (opFields utxoOp), PrevStakeEntries (opFields utxoOp), meta) of
          (Some prevValidatorEntry, [prevStakeEntry], Some unstakeAmountNanos) \<Rightarrow>
            if IsUint64 unstakeAmountNanos
            then mkOp numOps InputOpType
                   (getValidatorEntrySubAccountIdentifierForValidator L
                      (ValidatorPKID prevValidatorEntry))
                   (FormatUint (Uint64 unstakeAmountNanos))
                 # mkOp (numOps + 1) OutputOpType
                   (getLockedStakeEntryIdentifierForValidator L (StakerPKID prevStakeEntry)
                      (ValidatorPKID prevValidatorEntry) (LockedAtEpochNumber (opFields utxoOp)))
                   (FormatUint (Uint64 unstakeAmountNanos))
                 # unstakeLoop L meta (numOps + 2) rest
            else unstakeLoop L meta numOps rest
        | _ \<Rightarrow> unstakeLoop L meta numOps rest
      else unstakeLoop L meta numOps rest)"

definition getUnstakeOps ::
  "corelib \<Rightarrow> MsgDeSoTxn \<Rightarrow> UtxoOperation list \<Rightarrow> nat \<Rightarrow> Operation list" where
  "getUnstakeOps L txn utxoOps numOps =
     (case TxnMeta txn of
        UnstakeMetadata meta \<Rightarrow> unstakeLoop L meta numOps utxoOps
      | _ \<Rightarrow> [])"

fun unlockEntriesLoop :: "corelib \<Rightarrow> nat \<Rightarrow> LockedStakeEntry list \<Rightarrow> Operation list" where
  "unlockEntriesLoop L numOps [] = []"
| "unlockEntriesLoop L numOps (e # es) =
     (if IsUint64 (LockedAmountNanos e)
      then mkOp numOps InputOpType
             (getLockedStakeEntryIdentifierForValidator L (lockedStakerPKID e)
                (lockedValidatorPKID e) (lockedAtEpochNumber e))
             (FormatUint (Uint64 (LockedAmountNanos e)))
           # unlockEntriesLoop L (numOps + 1) es
      else unlockEntriesLoop L numOps es)"

fun unlockStakeLoop :: "corelib \<Rightarrow> nat \<Rightarrow> UtxoOperation list \<Rightarrow> Operation list" where
  "unlockStakeLoop L numOps [] = []"
| "unlockStakeLoop L numOps (utxoOp # rest) =
     (if utxoType utxoOp = OperationTypeUnlockStake
      then
        let ops = unlockEntriesLoop L numOps (PrevLockedStakeEntries (opFields utxoOp))
        in ops @ unlockStakeLoop L (numOps + length ops) rest
      else unlockStakeLoop L numOps rest)"

definition getUnlockStakeOps ::
  "corelib \<Rightarrow> MsgDeSoTxn \<Rightarrow> UtxoOperation list \<Rightarrow> nat \<Rightarrow> Operation list" where
  "getUnlockStakeOps L txn utxoOps numOps =
     (case TxnMeta txn of
        UnlockStakeMetadata \<Rightarrow> unlockStakeLoop L numOps utxoOps
      | _ \<Rightarrow> [])"

text \<open>A restaked reward without a previous validator entry is a nil dereference.\<close>

fun getStakingRewardDistributionOps ::
  "corelib \<Rightarrow> nat \<Rightarrow> UtxoOperation list \<Rightarrow> Operation list option" where
  "getStakingRewardDistributionOps L numOps [] = Some []"
| "getStakingRewardDistributionOps L numOps (utxoOp # rest) =
     (if utxoType utxoOp = OperationTypeStakeDistributionRestake
      then
        do { prevValidatorEntry \<leftarrow> PrevValidatorEntry (opFields utxoOp);
             ops \<leftarrow> getStakingRewardDistributionOps L (numOps + 1) rest;
             Some (mkOp numOps OutputOpType
                     (getValidatorEntrySubAccountIdentifierForValidator L
                        (ValidatorPKID prevValidatorEntry))
                     (FormatUint (StakeAmountNanosDiff (opFields utxoOp)))
                   # ops) }
      else getStakingRewardDistributionOps L numOps rest)"

section \<open>Shape: consecutive indices, known types\<close>

text \<open>
  Every function above numbers its operations from \<open>numOps\<close> on and builds only successful
  INPUT and OUTPUT operations in DESO.
\<close>

definition rosettaOp :: "Operation \<Rightarrow> bool" where
  "rosettaOp op \<longleftrightarrow>
     opType op \<in> set OperationTypes \<and> opStatus op = SuccessStatus \<and>
     amountCurrency (opAmount op) = DesoCurrency"

definition okOps :: "nat \<Rightarrow> Operation list \<Rightarrow> bool" where
  "okOps n ops \<longleftrightarrow> numbered opIndex n ops \<and> (\<forall>op \<in> set ops. rosettaOp op)"

named_theorems shape \<open>the operations built are well-formed and consecutively numbered\<close>

lemma okOps_simps [simp]:
  "okOps n []"
  "okOps n (op # ops) = (opIndex op = n \<and> rosettaOp op \<and> okOps (Suc n) ops)"
  "okOps n (xs @ ys) = (okOps n xs \<and> okOps (n + length xs) ys)"
  by (auto simp: okOps_def)

lemma rosettaOp_mkOp [simp]:
  "rosettaOp (mkOp n InputOpType a v)" "rosettaOp (mkOp n OutputOpType a v)"
  by (simp_all add: rosettaOp_def OperationTypes_def)

lemma okOps_spends [shape]: "okOps n (getBalanceModelSpends L n us)"
  by (induction us arbitrary: n) auto

lemma okOps_implicit_loop: "okOps n (implicitOutputsLoop L k n us)"
  by (induction us arbitrary: n) (auto simp: Let_def split: option.splits)

lemma okOps_implicit [shape]: "okOps n (getImplicitOutputs L outs us n)"
  by (simp add: getImplicitOutputs_def okOps_implicit_loop)

lemma okOps_creatorCoin [shape]: "okOps n (getCreatorCoinOps L txn us n)"
  by (simp add: getCreatorCoinOps_def Let_def split: TxnMetadata.splits option.splits)

lemma okOps_swapIdentity [shape]: "okOps n (getSwapIdentityOps L txn us n)"
  by (simp add: getSwapIdentityOps_def Let_def split: TxnMetadata.splits option.splits)

lemma okOps_royalties_at: "okOps m ops \<Longrightarrow> okOps m (fst (addNFTRoyalties L ops (m + length ops) rs))"
proof (induction rs arbitrary: ops)
  case Nil
  then show ?case by simp
next
  case (Cons r rs)
  let ?op = "mkOp (m + length ops) OutputOpType (creatorCoinAccount L (royaltyPublicKey r))
    (FormatUint (RoyaltyAmountNanos r))"
  show ?case using Cons.IH [of ops] Cons.IH [of "ops @ [?op]"] Cons.prems by simp
qed

lemma okOps_royalties:
  "okOps m ops \<Longrightarrow> n = m + length ops \<Longrightarrow> okOps m (fst (addNFTRoyalties L ops n rs))"
  by (simp only: okOps_royalties_at)

lemma okOps_bidderInputs:
  "bidderInputOps P b us n inputs = Some (Some ops) \<Longrightarrow> okOps n ops"
  by (induction inputs arbitrary: n ops) (auto split: bind_splits option.splits)

lemma okOps_acceptNFT [shape]: "getAcceptNFTOps L P txn us n = Some ops \<Longrightarrow> okOps n ops"
  by (auto simp: getAcceptNFTOps_def Let_def
      split: TxnMetadata.splits option.splits bind_splits if_splits
      intro!: okOps_royalties dest: okOps_bidderInputs)

lemma okOps_buyNow [shape]: "okOps n (getBuyNowNFTBidOps L P txn us n)"
  by (auto simp: getBuyNowNFTBidOps_def Let_def intro!: okOps_royalties
      split: TxnMetadata.splits option.splits)

lemma okOps_updateProfile [shape]: "okOps n (getUpdateProfileOps L txn us n)"
  by (simp add: getUpdateProfileOps_def split: TxnMetadata.splits option.splits)

lemma okOps_bidders: "bidderOps L P us n bs = Some (Some ops) \<Longrightarrow> okOps n ops"
  by (induction bs arbitrary: n ops)
    (auto split: bind_splits option.splits dest: okOps_bidderInputs)

lemma okOps_DAO [shape]: "getDAOCoinLimitOrderOps L P txn us n = Some ops \<Longrightarrow> okOps n ops"
  by (auto simp: getDAOCoinLimitOrderOps_def split: TxnMetadata.splits option.splits bind_splits
      dest: okOps_bidders)

lemma okOps_stake_loop: "okOps n (stakeLoop L m n us)"
  by (induction us arbitrary: n) (auto split: option.splits)

lemma okOps_stake [shape]: "okOps n (getStakeOps L txn us n)"
  by (simp add: getStakeOps_def okOps_stake_loop split: TxnMetadata.splits)

lemma okOps_unstake_loop: "okOps n (unstakeLoop L m n us)"
  by (induction us arbitrary: n) (auto split: option.splits list.splits)

lemma okOps_unstake [shape]: "okOps n (getUnstakeOps L txn us n)"
  by (simp add: getUnstakeOps_def okOps_unstake_loop split: TxnMetadata.splits)

lemma okOps_unlock_entries: "okOps n (unlockEntriesLoop L n es)"
  by (induction es arbitrary: n) auto

lemma okOps_unlock_loop: "okOps n (unlockStakeLoop L n us)"
  by (induction us arbitrary: n) (auto simp: Let_def okOps_unlock_entries)

lemma okOps_unlock [shape]: "okOps n (getUnlockStakeOps L txn us n)"
  by (simp add: getUnlockStakeOps_def okOps_unlock_loop split: TxnMetadata.splits)

lemma okOps_rewards [shape]: "getStakingRewardDistributionOps L n us = Some ops \<Longrightarrow> okOps n ops"
  by (induction us arbitrary: n ops) (auto split: if_splits bind_splits)

section \<open>Which accounts an operation list touches\<close>

text \<open>
  The special functions, the two bidder functions apart, touch sub-accounts only, so the net
  amount on a plain account comes from the balance operations and the outputs.
\<close>

definition plainPartial :: "string \<Rightarrow> partialAccountIdentifier" where
  "plainPartial a = \<lparr>partialAddress = a, partialSubAddress = []\<rparr>"

definition subOnly :: "Operation list \<Rightarrow> bool" where
  "subOnly ops \<longleftrightarrow> (\<forall>op \<in> set ops. \<exists>s. SubAccount (opAccount op) = Some s \<and> s \<noteq> [])"

named_theorems sub_only \<open>operations on sub-accounts only\<close>

lemma newPartial_simps [simp]:
  "newPartialAccountIdentifier (plainAccount a) = plainPartial a"
  "newPartialAccountIdentifier (subAccount a s) = \<lparr>partialAddress = a, partialSubAddress = s\<rparr>"
  "plainPartial a = plainPartial b \<longleftrightarrow> a = b"
  by (simp_all add: newPartialAccountIdentifier_def plainPartial_def)

lemma subOnly_simps [simp]:
  "subOnly []" "subOnly (op # ops) = ((\<exists>s. SubAccount (opAccount op) = Some s \<and> s \<noteq> []) \<and> subOnly ops)"
  "subOnly (xs @ ys) = (subOnly xs \<and> subOnly ys)"
  by (auto simp: subOnly_def)

lemma netAmount_subOnly: "subOnly ops \<Longrightarrow> netAmount (plainPartial a) ops = 0"
  by (induction ops) (auto simp: newPartialAccountIdentifier_def plainPartial_def)

lemma sub_addresses_not_Nil [simp]: "CreatorCoin \<noteq> []" "ValidatorEntryPrefix \<noteq> []"
    "LockedStakeEntryPrefix \<noteq> []"
  by (simp_all add: CreatorCoin_def ValidatorEntryPrefix_def LockedStakeEntryPrefix_def)

lemma special_accounts [simp]:
  "SubAccount (creatorCoinAccount L pk) = Some CreatorCoin"
  "SubAccount (getValidatorEntrySubAccountIdentifierForValidator L v) = Some ValidatorEntryPrefix"
  "\<exists>s. SubAccount (getLockedStakeEntryIdentifierForValidator L st v e) = Some s \<and> s \<noteq> []"
  by (simp_all add: creatorCoinAccount_def getValidatorEntrySubAccountIdentifierForValidator_def
      getLockedStakeEntryIdentifierForValidator_def)

lemma subOnly_creatorCoin [sub_only]: "subOnly (getCreatorCoinOps L txn us n)"
  by (simp add: getCreatorCoinOps_def Let_def split: TxnMetadata.splits option.splits)

lemma subOnly_swapIdentity [sub_only]: "subOnly (getSwapIdentityOps L txn us n)"
  by (simp add: getSwapIdentityOps_def Let_def split: TxnMetadata.splits option.splits)

lemma subOnly_royalties: "subOnly ops \<Longrightarrow> subOnly (fst (addNFTRoyalties L ops n rs))"
  by (induction rs arbitrary: ops n) auto

lemma subOnly_buyNow [sub_only]: "subOnly (getBuyNowNFTBidOps L P txn us n)"
  by (auto simp: getBuyNowNFTBidOps_def Let_def intro!: subOnly_royalties
      split: TxnMetadata.splits option.splits)

lemma subOnly_updateProfile [sub_only]: "subOnly (getUpdateProfileOps L txn us n)"
  by (simp add: getUpdateProfileOps_def split: TxnMetadata.splits option.splits)

lemma subOnly_stake [sub_only]: "subOnly (getStakeOps L txn us n)"
proof -
  have "subOnly (stakeLoop L m n us)" for m
    by (induction us arbitrary: n) (auto split: option.splits)
  then show ?thesis by (simp add: getStakeOps_def split: TxnMetadata.splits)
qed

lemma subOnly_unstake [sub_only]: "subOnly (getUnstakeOps L txn us n)"
proof -
  have "subOnly (unstakeLoop L m n us)" for m
    by (induction us arbitrary: n) (auto split: option.splits list.splits)
  then show ?thesis by (simp add: getUnstakeOps_def split: TxnMetadata.splits)
qed

lemma subOnly_unlock [sub_only]: "subOnly (getUnlockStakeOps L txn us n)"
proof -
  have e: "subOnly (unlockEntriesLoop L n es)" for n es
    by (induction es arbitrary: n) auto
  have "subOnly (unlockStakeLoop L n us)"
    by (induction us arbitrary: n) (auto simp: Let_def e)
  then show ?thesis by (simp add: getUnlockStakeOps_def split: TxnMetadata.splits)
qed

lemma subOnly_rewards [sub_only]:
  "getStakingRewardDistributionOps L n us = Some ops \<Longrightarrow> subOnly ops"
  by (induction us arbitrary: n ops) (auto split: if_splits bind_splits)

section \<open>Net amounts\<close>

text \<open>
  The abstract effect of the UTXO operations on an address: what is spent from it in the balance
  model, and what is credited to it (balance additions, staking rewards paid out, and created
  UTXOs beyond the declared outputs).
\<close>

definition spentFrom :: "corelib \<Rightarrow> string \<Rightarrow> UtxoOperation list \<Rightarrow> u64" where
  "spentFrom L a us =
     sum_list (map (\<lambda>u. BalanceAmountNanos (opFields u))
       (filter (\<lambda>u. utxoType u = OperationTypeSpendBalance \<and>
                    Base58CheckEncode L (BalancePublicKey (opFields u)) = a) us))"

definition paysBalance :: "UtxoOperation \<Rightarrow> bool" where
  "paysBalance u \<longleftrightarrow> utxoType u = OperationTypeAddBalance \<or>
     utxoType u = OperationTypeStakeDistributionPayToBalance"

definition entryKey :: "UtxoOperation \<Rightarrow> pubkey" where
  "entryKey u = (case Entry (opFields u) of Some e \<Rightarrow> entryPublicKey e | None \<Rightarrow> [])"

definition creditedTo :: "corelib \<Rightarrow> u32 \<Rightarrow> string \<Rightarrow> UtxoOperation list \<Rightarrow> u64" where
  "creditedTo L numOutputs a us =
     sum_list (map entryAmount
       (filter (\<lambda>u. isImplicitUtxo numOutputs u \<and> Base58CheckEncode L (entryKey u) = a) us)) +
     sum_list (map (\<lambda>u. BalanceAmountNanos (opFields u))
       (filter (\<lambda>u. paysBalance u \<and> Base58CheckEncode L (BalancePublicKey (opFields u)) = a) us))"

text \<open>Amounts that an \<open>int64\<close> holds; all DESO there is amounts to less than \<open>2 ^ 63\<close> nanos.\<close>

definition smallAmounts :: "UtxoOperation list \<Rightarrow> bool" where
  "smallAmounts us \<longleftrightarrow>
     (\<forall>u \<in> set us. unat (BalanceAmountNanos (opFields u)) < 2 ^ 63 \<and> unat (entryAmount u) < 2 ^ 63)"

lemma opVal_mkOp [simp]: "opVal (mkOp n t a v) = fst (ParseInt v)"
  by (simp add: opVal_def)

lemma netAmount_spends:
  "netAmount (plainPartial a) (getBalanceModelSpends L n us) = - spentFrom L a us"
  by (induction us arbitrary: n) (auto simp: spentFrom_def)

lemma isImplicitUtxo_Entry: "isImplicitUtxo k u \<Longrightarrow> \<exists>e. Entry (opFields u) = Some e"
  by (auto simp: isImplicitUtxo_def split: option.splits)

lemma netAmount_implicit_loop:
  "smallAmounts us \<Longrightarrow>
     netAmount (plainPartial a) (implicitOutputsLoop L k n us) = creditedTo L k a us"
proof (induction us arbitrary: n)
  case Nil
  then show ?case by (simp add: creditedTo_def)
next
  case (Cons u us)
  from Cons.prems have "smallAmounts us"
    and "unat (BalanceAmountNanos (opFields u)) < 2 ^ 63" and "unat (entryAmount u) < 2 ^ 63"
    by (auto simp: smallAmounts_def)
  then show ?case using Cons.IH isImplicitUtxo_Entry [of k u]
    by (auto simp: creditedTo_def Let_def paysBalance_def entryAmount_def entryKey_def
        split: option.splits)
qed

lemma netAmount_implicit:
  "smallAmounts us \<Longrightarrow>
     netAmount (plainPartial a) (getImplicitOutputs L outs us n) =
       creditedTo L (of_nat (length outs)) a us"
  by (simp add: getImplicitOutputs_def netAmount_implicit_loop)

lemma FormatUint_inj: "FormatUint x = FormatUint y \<longleftrightarrow> x = y"
  by (metis ParseUint_FormatUint prod.inject)

context core_library begin

lemma locked_identifier_inj:
  "getLockedStakeEntryIdentifierForValidator L s v e =
     getLockedStakeEntryIdentifierForValidator L s' v' e' \<longleftrightarrow> s = s' \<and> v = v' \<and> e = e'"
  by (auto simp: getLockedStakeEntryIdentifierForValidator_def subAccount_def
      addresses.encode_inj addresses.encode_dash_inj FormatUint_inj)

lemma validator_identifier_inj:
  "getValidatorEntrySubAccountIdentifierForValidator L v =
     getValidatorEntrySubAccountIdentifierForValidator L v' \<longleftrightarrow> v = v'"
  by (simp add: getValidatorEntrySubAccountIdentifierForValidator_def subAccount_def
      addresses.encode_inj)

end

section \<open>Properties\<close>

text \<open>
  No locked-stake account identifier that the node hands out is accepted back. The
  sub-account address has the form \<open>LOCKED_STAKE_ENTRY-validator-epoch\<close>, with at least two
  dashes, while \<open>GetValidatorPKIDFromSubAccountIdentifier\<close> insists on exactly two segments; so
  it reports an error for every staker, validator and epoch, whatever the address encoding.
\<close>

theorem locked_stake_identifier_never_resolves:
  "GetValidatorPKIDFromSubAccountIdentifier L
     (SubAccount (getLockedStakeEntryIdentifierForValidator L staker validator epoch)) = None"
proof -
  let ?s = "LockedStakeEntryPrefix @ ''-'' @ Base58CheckEncode L validator @ ''-'' @ FormatUint epoch"
  have "length (Split CHR ''-'' ?s) \<noteq> 2"
    by (simp add: length_Split)
  then show ?thesis
    by (simp add: GetValidatorPKIDFromSubAccountIdentifier_def
        getLockedStakeEntryIdentifierForValidator_def)
qed

text \<open>
  Distinct locked-stake entries have distinct account identifiers: the identifier
  determines the staker, the validator and the epoch, for any address encoding that can be
  decoded and writes no dash.
\<close>

theorem locked_stake_identifier_inj:
  assumes "core_library L"
  shows "getLockedStakeEntryIdentifierForValidator L s v e =
           getLockedStakeEntryIdentifierForValidator L s' v' e' \<longleftrightarrow> s = s' \<and> v = v' \<and> e = e'"
  by (rule core_library.locked_identifier_inj [OF assms])

theorem locked_stake_identifier_inj_witness:
  "getLockedStakeEntryIdentifierForValidator refLib [1] [2] 3 \<noteq>
     getLockedStakeEntryIdentifierForValidator refLib [1] [2] 4"
  using locked_stake_identifier_inj [OF reference.core_library_axioms, of "[1]" "[2]" 3 "[1]" "[2]" 4]
  by simp

text \<open>A UTXO operation of one type whose other fields have Go's zero values.\<close>

definition zeroUtxoFields :: "OperationType \<Rightarrow> UtxoOperationFields" where
  "zeroUtxoFields t =
     \<lparr>Type = t, Entry = None, BalancePublicKey = [], BalanceAmountNanos = 0,
      CreatorCoinDESOLockedNanosDiff = 0, SwapIdentityFromDESOLockedNanos = 0,
      SwapIdentityToDESOLockedNanos = 0, AcceptNFTBidCreatorPublicKey = [],
      AcceptNFTBidBidderPublicKey = [], AcceptNFTBidCreatorRoyaltyNanos = 0,
      AcceptNFTBidAdditionalCoinRoyalties = [], PrevCoinEntry = None, NFTBidCreatorPublicKey = [],
      NFTBidCreatorRoyaltyNanos = 0, NFTBidAdditionalCoinRoyalties = [],
      ClobberedProfileBugDESOLockedNanos = 0, PrevValidatorEntry = None, PrevStakeEntries = [],
      PrevLockedStakeEntries = [], LockedAtEpochNumber = 0, StakeAmountNanosDiff = 0\<rparr>"

definition zeroTxn :: "TxnMetadata \<Rightarrow> MsgDeSoTxn" where
  "zeroTxn meta = MsgDeSoTxn [] [] [] meta 0 0 None None"

lemma zeroTxn_sel [simp]:
  "TxnMeta (zeroTxn m) = m" "TxInputs (zeroTxn m) = []" "TxOutputs (zeroTxn m) = []"
  "PublicKey (zeroTxn m) = []" "TxnNonce (zeroTxn m) = None"
  by (simp_all add: zeroTxn_def)

abbreviation validatorPartial :: "corelib \<Rightarrow> pkid \<Rightarrow> partialAccountIdentifier" where
  "validatorPartial L v \<equiv>
     newPartialAccountIdentifier (getValidatorEntrySubAccountIdentifierForValidator L v)"

text \<open>The UTXO operations of type \<open>t\<close> that name the validator entry of \<open>v\<close>.\<close>

definition namesValidator :: "corelib \<Rightarrow> pkid \<Rightarrow> UtxoOperation \<Rightarrow> bool" where
  "namesValidator L v u =
     (case PrevValidatorEntry (opFields u) of
        None \<Rightarrow> False
      | Some ve \<Rightarrow> Base58CheckEncode L (ValidatorPKID ve) = Base58CheckEncode L v)"

lemma validatorPartial_eq [simp]:
  "validatorPartial L v = validatorPartial L v' \<longleftrightarrow> Base58CheckEncode L v = Base58CheckEncode L v'"
  by (simp add: getValidatorEntrySubAccountIdentifierForValidator_def)

lemma locked_not_validator [simp]:
  "newPartialAccountIdentifier (getLockedStakeEntryIdentifierForValidator L s v' e) \<noteq>
     validatorPartial L v"
  by (simp add: getValidatorEntrySubAccountIdentifierForValidator_def
      getLockedStakeEntryIdentifierForValidator_def ValidatorEntryPrefix_def LockedStakeEntryPrefix_def)

lemma netAmount_stakeLoop:
  "IsUint64 x \<Longrightarrow> unat x < 2 ^ 63 \<Longrightarrow>
     netAmount (validatorPartial L v) (stakeLoop L (Some x) n us) =
       of_nat (length (filter (\<lambda>u. utxoType u = OperationTypeStake \<and> namesValidator L v u) us))
         * Uint64 x"
  by (induction us arbitrary: n)
    (auto simp: namesValidator_def distrib_right split: option.splits)

lemma netAmount_unstakeLoop:
  "IsUint64 x \<Longrightarrow> unat x < 2 ^ 63 \<Longrightarrow>
     netAmount (validatorPartial L v) (unstakeLoop L (Some x) n us) =
       of_nat (length (filter (\<lambda>u. utxoType u = OperationTypeUnstake \<and> namesValidator L v u \<and>
                                length (PrevStakeEntries (opFields u)) = 1) us))
         * Uint64 x"
  by (induction us arbitrary: n)
    (auto simp: namesValidator_def distrib_right split: option.splits list.splits)

text \<open>
  A stake of \<open>x\<close> nanos moves \<open>x\<close> nanos onto the sub-account of the validator entry, once
  per stake operation that names the validator.
\<close>

theorem stake_credits_validator:
  assumes "TxnMeta txn = StakeMetadata (Some x)" and "IsUint64 x" and "unat x < 2 ^ 63"
  shows "netAmount (validatorPartial L v) (getStakeOps L txn us n) =
    of_nat (length (filter (\<lambda>u. utxoType u = OperationTypeStake \<and> namesValidator L v u) us))
      * Uint64 x"
  using assms by (simp add: getStakeOps_def netAmount_stakeLoop)

definition stakeUtxo :: "OperationType \<Rightarrow> UtxoOperation" where
  "stakeUtxo t =
     UtxoOperation ((zeroUtxoFields t)\<lparr>
       PrevValidatorEntry := Some \<lparr>ValidatorPKID = [7], TotalStakeAmountNanos = 0, validatorIsDeleted = False\<rparr>,
       PrevStakeEntries := [\<lparr>StakerPKID = [9]\<rparr>]\<rparr>) []"

lemma stakeUtxo_sel [simp]:
  "utxoType (stakeUtxo t) = t" "namesValidator L [7] (stakeUtxo t)"
  "length (PrevStakeEntries (opFields (stakeUtxo t))) = 1"
  by (simp_all add: stakeUtxo_def zeroUtxoFields_def namesValidator_def)

theorem stake_credits_validator_witness:
  "netAmount (validatorPartial refLib [7])
     (getStakeOps refLib (zeroTxn (StakeMetadata (Some 5))) [stakeUtxo OperationTypeStake] 0) = 5"
  using stake_credits_validator [of "zeroTxn (StakeMetadata (Some 5))" 5 refLib "[7]"
      "[stakeUtxo OperationTypeStake]" 0]
  by (simp add: IsUint64_def Uint64_def)

text \<open>
  C33: an unstake of \<open>x\<close> nanos also moves \<open>+ x\<close> nanos onto the sub-account of the validator
  entry: its INPUT operation is not negated, unlike the spends of \<open>getBalanceModelSpends\<close>, so
  stake and unstake change the validator's sub-account in the same direction.
\<close>

theorem unstake_credits_validator:
  assumes "TxnMeta txn = UnstakeMetadata (Some x)" and "IsUint64 x" and "unat x < 2 ^ 63"
  shows "netAmount (validatorPartial L v) (getUnstakeOps L txn us n) =
    of_nat (length (filter (\<lambda>u. utxoType u = OperationTypeUnstake \<and> namesValidator L v u \<and>
                               length (PrevStakeEntries (opFields u)) = 1) us))
      * Uint64 x"
  using assms by (simp add: getUnstakeOps_def netAmount_unstakeLoop)

theorem unstake_credits_validator_witness:
  "netAmount (validatorPartial refLib [7])
     (getUnstakeOps refLib (zeroTxn (UnstakeMetadata (Some 5))) [stakeUtxo OperationTypeUnstake] 0) = 5"
  using unstake_credits_validator [of "zeroTxn (UnstakeMetadata (Some 5))" 5 refLib "[7]"
      "[stakeUtxo OperationTypeUnstake]" 0]
  by (simp add: IsUint64_def Uint64_def)

definition swapPartial :: "corelib \<Rightarrow> pubkey \<Rightarrow> partialAccountIdentifier" where
  "swapPartial L pk = \<lparr>partialAddress = PkToString L pk, partialSubAddress = CreatorCoin\<rparr>"

lemma creatorCoinPartial [simp]:
  "newPartialAccountIdentifier (creatorCoinAccount L pk) = swapPartial L pk"
  by (simp add: creatorCoinAccount_def swapPartial_def)

lemma netAmount_swapIdentity:
  assumes "TxnMeta txn = SwapIdentityMetadataa meta"
    and "findUtxoOp OperationTypeSwapIdentity us = Some u"
    and "unat (SwapIdentityFromDESOLockedNanos u) < 2 ^ 63"
    and "unat (SwapIdentityToDESOLockedNanos u) < 2 ^ 63"
  shows "netAmount a (squashOperations (getSwapIdentityOps L txn us n)) =
    (if swapPartial L (FromPublicKey meta) = swapPartial L (ToPublicKey meta) then 0
     else if a = swapPartial L (FromPublicKey meta)
     then SwapIdentityToDESOLockedNanos u - SwapIdentityFromDESOLockedNanos u
     else if a = swapPartial L (ToPublicKey meta)
     then SwapIdentityFromDESOLockedNanos u - SwapIdentityToDESOLockedNanos u
     else 0)"
  using assms by (auto simp: getSwapIdentityOps_def Let_def)

lemma double_inj:
  assumes "x + x = y + y" and "unat (x :: u64) < 2 ^ 63" and "unat y < 2 ^ 63"
  shows "x = y"
proof -
  have "unat (z + z) = 2 * unat z" if "unat z < 2 ^ 63" for z :: u64
    using that by (simp add: unat_word_ariths)
  then have "2 * unat x = 2 * unat y" using assms by metis
  then show ?thesis by (simp add: word_unat_eq_iff)
qed

text \<open>C32: What a swap of identities moves. The locked amounts of the operation conserve DESO: the creator coin
  account of the old owner changes by \<open>to - from\<close>, that of the new owner by \<open>from - to\<close>, no other account
  changes, and nothing does when the two keys are one account. These changes exchange the totals of the
  two accounts if the amounts are the totals before the swap. If they are the totals after the swap, as
  the comment of the code says, the changes have the wrong sign, and neither account ends with its total.\<close>

theorem swap_identity_exchanges:
  assumes "TxnMeta txn = SwapIdentityMetadataa meta"
    and "findUtxoOp OperationTypeSwapIdentity us = Some u"
    and "from = SwapIdentityFromDESOLockedNanos u" and "to = SwapIdentityToDESOLockedNanos u"
    and "unat from < 2 ^ 63" and "unat to < 2 ^ 63"
    and "net = (\<lambda>a. netAmount a (squashOperations (getSwapIdentityOps L txn us n)))"
    and "old = swapPartial L (FromPublicKey meta)" and "new = swapPartial L (ToPublicKey meta)"
  shows "(\<forall>a. net a = (if old = new then 0 else if a = old then to - from
       else if a = new then from - to else 0)) \<and>
    (old \<noteq> new \<longrightarrow>
       (\<forall>totalOld totalNew. (from, to) = (totalOld, totalNew) \<longrightarrow>
          totalOld + net old = totalNew \<and> totalNew + net new = totalOld) \<and>
       (\<forall>totalOld totalNew. (from, to) = (totalNew, totalOld) \<longrightarrow> totalOld \<noteq> totalNew \<longrightarrow>
          totalOld + net old \<noteq> totalNew \<and> totalNew + net new \<noteq> totalOld))"
proof -
  have net: "net a = (if old = new then 0 else if a = old then to - from else if a = new then from - to else 0)" for a
    using netAmount_swapIdentity [OF assms(1,2)] assms(3-9) by simp
  have wrong: "x + (x - y) \<noteq> y" if "x \<noteq> y" "unat x < 2 ^ 63" "unat y < 2 ^ 63" for x y :: u64
  proof
    assume "x + (x - y) = y"
    then have "x + x = y + y" by (metis add_diff_eq diff_eq_eq)
    then show False using double_inj that by blast
  qed
  show ?thesis using assms(5,6) wrong by (auto simp: net)
qed

theorem swap_identity_exchanges_witness:
  "let ops = getSwapIdentityOps refLib (zeroTxn (SwapIdentityMetadataa \<lparr>FromPublicKey = [1], ToPublicKey = [2]\<rparr>))
       [UtxoOperation ((zeroUtxoFields OperationTypeSwapIdentity)\<lparr>
          SwapIdentityFromDESOLockedNanos := 30, SwapIdentityToDESOLockedNanos := 50\<rparr>) []] 0
   in netAmount (swapPartial refLib [1]) (squashOperations ops) = 20 \<and>
      netAmount (swapPartial refLib [2]) (squashOperations ops) = - 20 \<and>
      50 + netAmount (swapPartial refLib [1]) (squashOperations ops) \<noteq> 30"
proof -
  let ?u = "(zeroUtxoFields OperationTypeSwapIdentity)\<lparr>
    SwapIdentityFromDESOLockedNanos := 30, SwapIdentityToDESOLockedNanos := 50\<rparr>"
  let ?meta = "\<lparr>FromPublicKey = [1], ToPublicKey = [2]\<rparr>"
  have u: "TxnMeta (zeroTxn (SwapIdentityMetadataa ?meta)) = SwapIdentityMetadataa ?meta"
    "findUtxoOp OperationTypeSwapIdentity [UtxoOperation ?u []] = Some ?u"
    "30 = SwapIdentityFromDESOLockedNanos ?u" "50 = SwapIdentityToDESOLockedNanos ?u"
    by (simp_all add: findUtxoOp_def zeroUtxoFields_def)
  have "swapPartial refLib [1] \<noteq> swapPartial refLib [2]"
    by (simp add: swapPartial_def hexEncode_def hexDigit_def)
  then show ?thesis
    using swap_identity_exchanges [OF u _ _ refl refl refl, of refLib 0] by (simp add: Let_def)
qed

end
