(* ===== verification/Errors.thy ===== *)
theory Errors
  imports Core
begin

text \<open>
  The API errors of \<open>deso/errors.go\<close> and \<open>services/errors.go\<close>, the two lists the
  network-options endpoint advertises, and \<open>wrapErr\<close>. A call that returns
  \<open>(value, *types.Error)\<close> is a value of the sum \<open>Error + 'a\<close>.
\<close>

record Error =
  Code :: nat
  Message :: string
  Retriable :: bool
  Details :: "string option" \<comment> \<open>the entry \<open>context\<close>, the only one the program sets\<close>

definition mkError :: "nat \<Rightarrow> string \<Rightarrow> Error" where
  "mkError c m = \<lparr>Code = c, Message = m, Retriable = False, Details = None\<rparr>"

section \<open>Package deso\<close>

definition ErrBlockHeightTooHigh :: Error where
  "ErrBlockHeightTooHigh = mkError 100 ''Block height is higher than the current tip''"
definition ErrBlockHeightMismatch :: Error where
  "ErrBlockHeightMismatch = mkError 101 ''Block at index does not have the expected height''"
definition ErrCannotDecodeBlockHash :: Error where
  "ErrCannotDecodeBlockHash = mkError 102 ''Cannot decode block hash''"
definition ErrBlockNodeNotFound :: Error where
  "ErrBlockNodeNotFound = mkError 103 ''Block node not found''"
definition ErrProblemFetchingUtxoOpsForBlock :: Error where
  "ErrProblemFetchingUtxoOpsForBlock = mkError 104 ''Problem fetching UTXO operations for block''"
definition ErrCannotHashBlock :: Error where
  "ErrCannotHashBlock = mkError 105 ''Cannot hash block''"
definition ErrMsgDesoBlockNotFound :: Error where
  "ErrMsgDesoBlockNotFound = mkError 106 ''Msg DeSo Block not found''"
definition ErrCommittedTipNotFound :: Error where
  "ErrCommittedTipNotFound = mkError 107 ''Committed tip not found''"
definition ErrBlockIsNotCommitted :: Error where
  "ErrBlockIsNotCommitted = mkError 108 ''Block is not committed''"

definition desoErrors :: "Error list" where
  "desoErrors =
     [ErrBlockHeightTooHigh, ErrBlockHeightMismatch, ErrCannotDecodeBlockHash,
      ErrBlockNodeNotFound, ErrProblemFetchingUtxoOpsForBlock, ErrCannotHashBlock]"

lemmas deso_error_defs =
  ErrBlockHeightTooHigh_def ErrBlockHeightMismatch_def ErrCannotDecodeBlockHash_def
  ErrBlockNodeNotFound_def ErrProblemFetchingUtxoOpsForBlock_def ErrCannotHashBlock_def
  ErrMsgDesoBlockNotFound_def ErrCommittedTipNotFound_def ErrBlockIsNotCommitted_def

section \<open>Package services\<close>

definition ErrUnimplemented :: Error where
  "ErrUnimplemented = mkError 0 ''Endpoint not implemented''"
definition ErrUnavailableOffline :: Error where
  "ErrUnavailableOffline = mkError 1 ''Endpoint unavailable offline''"
definition ErrNotReady :: Error where
  "ErrNotReady = (mkError 2 ''DeSo node is not ready'')\<lparr>Retriable := True\<rparr>"
definition ErrDeSo :: Error where
  "ErrDeSo = mkError 3 ''DeSo node error''"
definition ErrUnableToParseIntermediateResult :: Error where
  "ErrUnableToParseIntermediateResult = mkError 4 ''Unable to parse intermediate result''"
definition ErrUnableToGetCoins :: Error where
  "ErrUnableToGetCoins = mkError 5 ''Unable to get coins''"
definition ErrBlockNotFound :: Error where
  "ErrBlockNotFound = mkError 6 ''Block not found''"
definition ErrMultipleSigners :: Error where
  "ErrMultipleSigners = mkError 7 ''A transaction can only have one signer''"
definition ErrInvalidPublicKey :: Error where
  "ErrInvalidPublicKey = mkError 8 ''Unable to parse public key''"
definition ErrInvalidCoin :: Error where
  "ErrInvalidCoin = mkError 9 ''Unable to parse coin''"
definition ErrInvalidTransaction :: Error where
  "ErrInvalidTransaction = mkError 10 ''Unable to parse transaction''"
definition ErrMultipleInputs :: Error where
  "ErrMultipleInputs = mkError 11 ''A transaction can only have one input''"
definition ErrFeeRateBelowNetworkMinimum :: Error where
  "ErrFeeRateBelowNetworkMinimum = mkError 12 ''Fee rate specified is below network minimum''"
definition ErrFeeTooLow :: Error where
  "ErrFeeTooLow = mkError 13 ''Fee specified is too low''"
definition ErrNonceExpirationBlockHeightOffsetTooLarge :: Error where
  "ErrNonceExpirationBlockHeightOffsetTooLarge =
     mkError 14 ''Nonce expiration block height offset is too large''"
definition ErrNonceExpirationBlockHeightTooLow :: Error where
  "ErrNonceExpirationBlockHeightTooLow = mkError 15 ''Nonce expiration block height is too low''"
definition ErrNonceExpirationBlockHeightTooHigh :: Error where
  "ErrNonceExpirationBlockHeightTooHigh = mkError 16 ''Nonce expiration block height is too high''"
definition ErrLegacyUtxoSelectionNotAllowed :: Error where
  "ErrLegacyUtxoSelectionNotAllowed =
     mkError 17 ''Legacy UTXO selection is not allowed after the migration to balance model''"

definition serviceErrors :: "Error list" where
  "serviceErrors =
     [ErrUnimplemented, ErrUnavailableOffline, ErrNotReady, ErrDeSo,
      ErrUnableToParseIntermediateResult, ErrUnableToGetCoins, ErrBlockNotFound,
      ErrMultipleSigners, ErrInvalidPublicKey, ErrInvalidCoin, ErrInvalidTransaction,
      ErrMultipleInputs, ErrFeeRateBelowNetworkMinimum, ErrFeeTooLow,
      ErrNonceExpirationBlockHeightOffsetTooLarge, ErrNonceExpirationBlockHeightTooLow,
      ErrNonceExpirationBlockHeightTooHigh, ErrLegacyUtxoSelectionNotAllowed]"

lemmas service_error_defs =
  ErrUnimplemented_def ErrUnavailableOffline_def ErrNotReady_def ErrDeSo_def
  ErrUnableToParseIntermediateResult_def ErrUnableToGetCoins_def ErrBlockNotFound_def
  ErrMultipleSigners_def ErrInvalidPublicKey_def ErrInvalidCoin_def ErrInvalidTransaction_def
  ErrMultipleInputs_def ErrFeeRateBelowNetworkMinimum_def ErrFeeTooLow_def
  ErrNonceExpirationBlockHeightOffsetTooLarge_def ErrNonceExpirationBlockHeightTooLow_def
  ErrNonceExpirationBlockHeightTooHigh_def ErrLegacyUtxoSelectionNotAllowed_def

definition wrapErr :: "Error \<Rightarrow> string option \<Rightarrow> Error" where
  "wrapErr rErr err =
     \<lparr>Code = Code rErr, Message = Message rErr, Retriable = Retriable rErr, Details = err\<rparr>"

lemma wrapErr_sel [simp]:
  "Code (wrapErr e d) = Code e" "Message (wrapErr e d) = Message e"
  "Retriable (wrapErr e d) = Retriable e" "Details (wrapErr e d) = d"
  by (simp_all add: wrapErr_def)

end
