(* ===== verification/BlockOps.thy ===== *)
theory BlockOps
  imports TxnOps Errors
begin

text \<open>
  From a block to its Rosetta transactions: \<open>getOperationsForTransaction\<close> and
  \<open>GetTransactionsForConvertBlock\<close> of \<open>deso/block.go\<close>, and \<open>GetUtxoOps\<close> of
  \<open>deso/index.go\<close>. The net-amount lemmas state what a transaction does to a plain account.
\<close>

section \<open>One transaction\<close>

text \<open>An input whose UTXO the block does not spend is reported and counts as 0.\<close>

fun inputOps ::
  "string \<Rightarrow> (UtxoKey \<rightharpoonup> u64) \<Rightarrow> nat \<Rightarrow> DeSoInput list \<Rightarrow> Operation list" where
  "inputOps from spentUtxos numOps [] = []"
| "inputOps from spentUtxos numOps (input # inputs) =
     (let spentAmount =
            (case spentUtxos \<lparr>keyTxID = inputTxID input, keyIndex = inputIndex input\<rparr> of
               Some a \<Rightarrow> a | None \<Rightarrow> 0)
      in mkOp numOps InputOpType (plainAccount from) (FormatInt (spentAmount * -1))
         # inputOps from spentUtxos (numOps + 1) inputs)"

fun outputOps :: "corelib \<Rightarrow> nat \<Rightarrow> DeSoOutput list \<Rightarrow> Operation list" where
  "outputOps L numOps [] = []"
| "outputOps L numOps (output # outputs) =
     mkOp numOps OutputOpType (plainAccount (Base58CheckEncode L (outputPublicKey output)))
       (FormatUint (outputAmountNanos output))
     # outputOps L (numOps + 1) outputs"

definition isBalanceModel :: "DeSoParams \<Rightarrow> u64 \<Rightarrow> bool" where
  "isBalanceModel P height \<longleftrightarrow> ucast (BalanceModelBlockHeight P) \<le> height"

text \<open>The body of \<open>getOperationsForTransaction\<close> for a transaction that wraps no others.\<close>

definition simpleOperations ::
  "corelib \<Rightarrow> DeSoParams \<Rightarrow> u64 \<Rightarrow> (UtxoKey \<rightharpoonup> u64) \<Rightarrow> MsgDeSoTxn \<Rightarrow> UtxoOperation list \<Rightarrow>
     Operation list option" where
  "simpleOperations L P height spentUtxos txn utxoOpsForTxn =
     (let ops = inputOps (Base58CheckEncode L (PublicKey txn)) spentUtxos 0 (TxInputs txn);
          ops = (if isBalanceModel P height then ops
                 else ops @ outputOps L (length ops) (TxOutputs txn))
      in if utxoOpsForTxn = [] then Some ops
         else do {
           let ops = ops @ getBalanceModelSpends L (length ops) utxoOpsForTxn;
           let ops = ops @ getImplicitOutputs L (TxOutputs txn) utxoOpsForTxn (length ops);
           let ops = ops @ getCreatorCoinOps L txn utxoOpsForTxn (length ops);
           let ops = ops @ getSwapIdentityOps L txn utxoOpsForTxn (length ops);
           acceptNftOps \<leftarrow> getAcceptNFTOps L P txn utxoOpsForTxn (length ops);
           let ops = ops @ acceptNftOps;
           let ops = ops @ getBuyNowNFTBidOps L P txn utxoOpsForTxn (length ops);
           let ops = ops @ getUpdateProfileOps L txn utxoOpsForTxn (length ops);
           daoCoinLimitOrderOps \<leftarrow> getDAOCoinLimitOrderOps L P txn utxoOpsForTxn (length ops);
           let ops = ops @ daoCoinLimitOrderOps;
           let ops = ops @ getStakeOps L txn utxoOpsForTxn (length ops);
           let ops = ops @ getUnstakeOps L txn utxoOpsForTxn (length ops);
           let ops = ops @ getUnlockStakeOps L txn utxoOpsForTxn (length ops);
           Some ops
         })"

lemma TxnMeta_size:
  "TxnMeta txn = AtomicTxnsWrapperMetadata innerTxns \<Longrightarrow> size_list size innerTxns < size txn"
  by (cases txn) auto

definition innerUtxoOps :: "UtxoOperation list \<Rightarrow> UtxoOperation list list" where
  "innerUtxoOps utxoOps =
     (case find (\<lambda>u. utxoType u = OperationTypeAtomicTxnsWrapper) utxoOps of
        None \<Rightarrow> [] | Some u \<Rightarrow> AtomicTxnsInnerUtxoOps u)"

text \<open>
  An atomic wrapper has no operations of its own: those of its inner transactions are
  concatenated, each list numbered from 0.
\<close>

function (sequential) getOperationsForTransaction ::
  "corelib \<Rightarrow> DeSoParams \<Rightarrow> u64 \<Rightarrow> (UtxoKey \<rightharpoonup> u64) \<Rightarrow> MsgDeSoTxn \<Rightarrow> UtxoOperation list \<Rightarrow>
     Operation list option"
and innerOperations ::
  "corelib \<Rightarrow> DeSoParams \<Rightarrow> u64 \<Rightarrow> (UtxoKey \<rightharpoonup> u64) \<Rightarrow> MsgDeSoTxn list \<Rightarrow> UtxoOperation list list \<Rightarrow>
     Operation list option" where
  "getOperationsForTransaction L P height spentUtxos txn utxoOpsForTxn =
     (case TxnMeta txn of
        AtomicTxnsWrapperMetadata innerTxns \<Rightarrow>
          (let opsForInnerTxns = innerUtxoOps utxoOpsForTxn
           in if length opsForInnerTxns \<noteq> length innerTxns then Some []
              else innerOperations L P height spentUtxos innerTxns opsForInnerTxns)
      | _ \<Rightarrow> simpleOperations L P height spentUtxos txn utxoOpsForTxn)"
| "innerOperations L P height spentUtxos (txn # txns) (us # uss) =
     do { ops \<leftarrow> getOperationsForTransaction L P height spentUtxos txn us;
          rest \<leftarrow> innerOperations L P height spentUtxos txns uss;
          Some (ops @ rest) }"
| "innerOperations L P height spentUtxos _ _ = Some []"
  by pat_completeness auto
termination
  by (relation "measure (\<lambda>x. case x of Inl (_, _, _, _, txn, _) \<Rightarrow> size txn
                             | Inr (_, _, _, _, txns, _) \<Rightarrow> size_list size txns)")
    (auto dest: TxnMeta_size)

declare getOperationsForTransaction.simps [simp del]

section \<open>One block\<close>

definition GetUtxoOps ::
  "corelib \<Rightarrow> (blockhash \<Rightarrow> UtxoOperation list list option) \<Rightarrow> MsgDeSoBlock \<Rightarrow>
     UtxoOperation list list option" where
  "GetUtxoOps L utxoOperationsForBlock block =
     (case BlockHash L block of None \<Rightarrow> None | Some h \<Rightarrow> utxoOperationsForBlock h)"

text \<open>All UTXOs the block spends. A spend without its entry or key is a nil dereference.\<close>

fun collectSpentUtxos ::
  "(UtxoKey \<rightharpoonup> u64) \<Rightarrow> UtxoOperation list \<Rightarrow> (UtxoKey \<rightharpoonup> u64) option" where
  "collectSpentUtxos spentUtxos [] = Some spentUtxos"
| "collectSpentUtxos spentUtxos (utxoOp # rest) =
     (if utxoType utxoOp = OperationTypeSpendUtxo
      then
        do { e \<leftarrow> Entry (opFields utxoOp);
             k \<leftarrow> entryUtxoKey e;
             collectSpentUtxos (spentUtxos(k \<mapsto> entryAmountNanos e)) rest }
      else collectSpentUtxos spentUtxos rest)"

definition nonceJSON :: "DeSoNonce \<Rightarrow> json" where
  "nonceJSON n =
     JObject [(''ExpirationBlockHeight'', JUint (ExpirationBlockHeight n)),
              (''PartialID'', JUint (PartialID n))]"

definition txnMetadata ::
  "corelib \<Rightarrow> bool \<Rightarrow> MsgDeSoTxn \<Rightarrow> (string \<rightharpoonup> json) \<Rightarrow> (string \<rightharpoonup> json)" where
  "txnMetadata L balanceModel txn metadata =
     (let metadata = metadata(''TxnVersion'' \<mapsto> JUint (TxnVersion txn));
          metadata = metadata(''TxnType'' \<mapsto> JString (TxnTypeString L (TxnMeta txn)));
          metadata =
            (case (balanceModel, TxnNonce txn) of
               (True, Some n) \<Rightarrow> metadata(''TxnNonce'' \<mapsto> nonceJSON n)
             | _ \<Rightarrow> metadata)
      in if balanceModel then metadata(''TxnFeeNanos'' \<mapsto> JUint (TxnFeeNanos txn)) else metadata)"

definition indexSlice :: "'a list \<Rightarrow> nat \<Rightarrow> 'a option" where
  "indexSlice xs i = (if i < length xs then Some (xs ! i) else None)"

text \<open>
  The loop over the transactions. Metadata that does not marshal leaves a nil map, and the
  assignment to it panics; so does an index past the UTXO operations of the block.
\<close>

fun convertTxns ::
  "corelib \<Rightarrow> DeSoParams \<Rightarrow> u64 \<Rightarrow> (UtxoKey \<rightharpoonup> u64) \<Rightarrow> UtxoOperation list list \<Rightarrow> nat \<Rightarrow>
     MsgDeSoTxn list \<Rightarrow> Transaction list option" where
  "convertTxns L P height spentUtxos utxoOpsForBlock i [] = Some []"
| "convertTxns L P height spentUtxos utxoOpsForBlock i (txn # txns) =
     do { metadata \<leftarrow> TxnMetaJSON L (TxnMeta txn);
          utxoOpsForTxn \<leftarrow>
            (if utxoOpsForBlock = [] then Some [] else indexSlice utxoOpsForBlock i);
          ops \<leftarrow> getOperationsForTransaction L P height spentUtxos txn utxoOpsForTxn;
          rest \<leftarrow> convertTxns L P height spentUtxos utxoOpsForBlock (i + 1) txns;
          Some (\<lparr>txHash = BlockHashString L (TxnHash L txn),
                 txOperations = squashOperations ops,
                 txMetadata = Some (txnMetadata L (isBalanceModel P height) txn metadata)\<rparr>
                # rest) }"

text \<open>
  The dummy transaction for the block-level operations: rewards paid out, then rewards
  restaked. Its implicit outputs are taken for a transaction without outputs.
\<close>

definition blockLevelOperations :: "corelib \<Rightarrow> UtxoOperation list \<Rightarrow> Operation list option" where
  "blockLevelOperations L utxoOps =
     do { let implicitOutputOps = getImplicitOutputs L [] utxoOps 0;
          stakeRewardOps \<leftarrow> getStakingRewardDistributionOps L (length implicitOutputOps) utxoOps;
          Some (squashOperations (implicitOutputOps @ stakeRewardOps)) }"

definition GetTransactionsForConvertBlock ::
  "corelib \<Rightarrow> DeSoParams \<Rightarrow> (blockhash \<Rightarrow> UtxoOperation list list option) \<Rightarrow> MsgDeSoBlock \<Rightarrow>
     (Error + Transaction list) option" where
  "GetTransactionsForConvertBlock L P utxoOperationsForBlock block =
     (case GetUtxoOps L utxoOperationsForBlock block of
        None \<Rightarrow> Some (Inl ErrProblemFetchingUtxoOpsForBlock)
      | Some utxoOpsForBlock \<Rightarrow>
          do { spentUtxos \<leftarrow> collectSpentUtxos Map.empty (concat utxoOpsForBlock);
               transactions \<leftarrow>
                 convertTxns L P (blockHeaderHeight block) spentUtxos utxoOpsForBlock 0 (Txns block);
               (if length utxoOpsForBlock = length (Txns block) + 1
                then
                  (case BlockHash L block of
                     None \<Rightarrow> Some (Inl ErrCannotHashBlock)
                   | Some blockHash \<Rightarrow>
                       do { ops \<leftarrow> blockLevelOperations L (last utxoOpsForBlock);
                            Some (Inr (transactions @
                              [\<lparr>txHash = ''blockHash-'' @ BlockHashString L blockHash,
                                txOperations = ops, txMetadata = None\<rparr>])) })
                else Some (Inr transactions)) })"

section \<open>Shape\<close>

lemma okOps_inputs [shape]: "okOps n (inputOps a m n inputs)"
  by (induction inputs arbitrary: n) (auto simp: Let_def)

lemma okOps_outputs [shape]: "okOps n (outputOps L n outputs)"
  by (induction outputs arbitrary: n) auto

lemma okOps_simple: "simpleOperations L P h m txn us = Some ops \<Longrightarrow> okOps 0 ops"
  by (auto simp: simpleOperations_def Let_def shape add.assoc dest!: okOps_acceptNFT okOps_DAO
      split: if_splits bind_splits)

lemma rosettaOps_transaction:
  "getOperationsForTransaction L P h m txn us = Some ops \<Longrightarrow> \<forall>op \<in> set ops. rosettaOp op"
  "innerOperations L P h m txns uss = Some ops \<Longrightarrow> \<forall>op \<in> set ops. rosettaOp op"
proof (induction L P h m txn us and L P h m txns uss arbitrary: ops and ops
    rule: getOperationsForTransaction_innerOperations.induct)
  case (1 L P h m txn us)
  then show ?case
    by (auto simp: getOperationsForTransaction.simps [of L P h m txn us] Let_def okOps_def
        split: TxnMetadata.splits if_splits dest!: okOps_simple)
qed (auto split: bind_splits)

section \<open>Net amounts on plain accounts\<close>

definition spentInputs :: "(UtxoKey \<rightharpoonup> u64) \<Rightarrow> DeSoInput list \<Rightarrow> u64" where
  "spentInputs m inputs =
     sum_list (map (\<lambda>i. case m \<lparr>keyTxID = inputTxID i, keyIndex = inputIndex i\<rparr> of
                          Some a \<Rightarrow> a | None \<Rightarrow> 0) inputs)"

definition declaredTo :: "corelib \<Rightarrow> string \<Rightarrow> DeSoOutput list \<Rightarrow> u64" where
  "declaredTo L a outputs =
     sum_list (map outputAmountNanos
       (filter (\<lambda>x. Base58CheckEncode L (outputPublicKey x) = a) outputs))"

text \<open>
  The abstract effect of a transaction on the plain account \<open>a\<close>: what its inputs spend, what it
  declares as outputs (before the balance-model fork), what the UTXO operations credit and spend.
\<close>

definition simpleEffect ::
  "corelib \<Rightarrow> DeSoParams \<Rightarrow> u64 \<Rightarrow> (UtxoKey \<rightharpoonup> u64) \<Rightarrow> string \<Rightarrow> MsgDeSoTxn \<Rightarrow> UtxoOperation list \<Rightarrow> i64" where
  "simpleEffect L P height m a txn us =
     (if Base58CheckEncode L (PublicKey txn) = a then - spentInputs m (TxInputs txn) else 0)
     + (if isBalanceModel P height then 0 else declaredTo L a (TxOutputs txn))
     + creditedTo L (of_nat (length (TxOutputs txn))) a us - spentFrom L a us"

text \<open>Amounts fit an \<open>int64\<close> and no separate bidder inputs are spent (there are none since the fork).\<close>

definition regularSimple :: "MsgDeSoTxn \<Rightarrow> UtxoOperation list \<Rightarrow> bool" where
  "regularSimple txn us \<longleftrightarrow>
     smallAmounts us \<and> (\<forall>x \<in> set (TxOutputs txn). unat (outputAmountNanos x) < 2 ^ 63) \<and>
     (case TxnMeta txn of
        AcceptNFTBidMetadata inputs \<Rightarrow> inputs = []
      | DAOCoinLimitOrderMetadata bidders \<Rightarrow> \<forall>b \<in> set bidders. Inputs b = []
      | _ \<Rightarrow> True)"

function (sequential) txnEffect ::
  "corelib \<Rightarrow> DeSoParams \<Rightarrow> u64 \<Rightarrow> (UtxoKey \<rightharpoonup> u64) \<Rightarrow> string \<Rightarrow> MsgDeSoTxn \<Rightarrow> UtxoOperation list \<Rightarrow> i64"
and innerEffect ::
  "corelib \<Rightarrow> DeSoParams \<Rightarrow> u64 \<Rightarrow> (UtxoKey \<rightharpoonup> u64) \<Rightarrow> string \<Rightarrow> MsgDeSoTxn list \<Rightarrow>
     UtxoOperation list list \<Rightarrow> i64" where
  "txnEffect L P height m a txn us =
     (case TxnMeta txn of
        AtomicTxnsWrapperMetadata innerTxns \<Rightarrow>
          (if length (innerUtxoOps us) \<noteq> length innerTxns then 0
           else innerEffect L P height m a innerTxns (innerUtxoOps us))
      | _ \<Rightarrow> simpleEffect L P height m a txn us)"
| "innerEffect L P height m a (txn # txns) (us # uss) =
     txnEffect L P height m a txn us + innerEffect L P height m a txns uss"
| "innerEffect L P height m a _ _ = 0"
  by pat_completeness auto
termination
  by (relation "measure (\<lambda>x. case x of Inl (_, _, _, _, _, txn, _) \<Rightarrow> size txn
                             | Inr (_, _, _, _, _, txns, _) \<Rightarrow> size_list size txns)")
    (auto dest: TxnMeta_size)

function (sequential) regularTxn :: "MsgDeSoTxn \<Rightarrow> UtxoOperation list \<Rightarrow> bool"
and regularInner :: "MsgDeSoTxn list \<Rightarrow> UtxoOperation list list \<Rightarrow> bool" where
  "regularTxn txn us =
     (case TxnMeta txn of
        AtomicTxnsWrapperMetadata innerTxns \<Rightarrow> regularInner innerTxns (innerUtxoOps us)
      | _ \<Rightarrow> regularSimple txn us)"
| "regularInner (txn # txns) (us # uss) = (regularTxn txn us \<and> regularInner txns uss)"
| "regularInner _ _ = True"
  by pat_completeness auto
termination
  by (relation "measure (\<lambda>x. case x of Inl (txn, _) \<Rightarrow> size txn | Inr (txns, _) \<Rightarrow> size_list size txns)")
    (auto dest: TxnMeta_size)

declare txnEffect.simps [simp del] regularTxn.simps [simp del]

lemma netAmount_inputs:
  "netAmount (plainPartial a) (inputOps from m n inputs) =
     (if from = a then - spentInputs m inputs else 0)"
  by (induction inputs arbitrary: n) (auto simp: Let_def spentInputs_def)

lemma netAmount_outputs:
  "\<forall>x \<in> set outputs. unat (outputAmountNanos x) < 2 ^ 63 \<Longrightarrow>
     netAmount (plainPartial a) (outputOps L n outputs) = declaredTo L a outputs"
  by (induction outputs arbitrary: n) (auto simp: declaredTo_def)

lemma subOnly_acceptNFT:
  "regularSimple txn us \<Longrightarrow> getAcceptNFTOps L P txn us' n = Some ops \<Longrightarrow> subOnly ops"
  by (auto simp: regularSimple_def getAcceptNFTOps_def Let_def intro!: subOnly_royalties
      split: TxnMetadata.splits option.splits bind_splits if_splits)

lemma bidderOps_empty:
  "\<forall>b \<in> set bidders. Inputs b = [] \<Longrightarrow> bidderOps L P us n bidders = Some (Some [])"
  by (induction bidders arbitrary: n) auto

lemma subOnly_DAO:
  "regularSimple txn us \<Longrightarrow> getDAOCoinLimitOrderOps L P txn us' n = Some ops \<Longrightarrow> subOnly ops"
  by (auto simp: regularSimple_def getDAOCoinLimitOrderOps_def bidderOps_empty
      split: TxnMetadata.splits)

definition declaredOps ::
  "corelib \<Rightarrow> DeSoParams \<Rightarrow> u64 \<Rightarrow> (UtxoKey \<rightharpoonup> u64) \<Rightarrow> MsgDeSoTxn \<Rightarrow> Operation list" where
  "declaredOps L P height m txn =
     (let ops = inputOps (Base58CheckEncode L (PublicKey txn)) m 0 (TxInputs txn)
      in if isBalanceModel P height then ops else ops @ outputOps L (length ops) (TxOutputs txn))"

text \<open>
  The shape of a simple transaction: declared inputs and outputs, balance spends, implicit
  outputs, and a rest that, without bidder inputs, stays on sub-accounts.
\<close>

lemma simpleOperations_parts:
  assumes "simpleOperations L P height m txn us = Some ops" and "us \<noteq> []" and "regularSimple txn us"
  obtains n1 n2 rest where
    "ops = declaredOps L P height m txn @ getBalanceModelSpends L n1 us
             @ getImplicitOutputs L (TxOutputs txn) us n2 @ rest"
    and "subOnly rest"
proof -
  define ops1 where "ops1 = declaredOps L P height m txn"
  have "\<exists>rest. ops = ops1 @ getBalanceModelSpends L (length ops1) us
             @ getImplicitOutputs L (TxOutputs txn) us
                 (length (ops1 @ getBalanceModelSpends L (length ops1) us)) @ rest
           \<and> subOnly rest"
    using assms(1,2) unfolding simpleOperations_def Let_def
    unfolding declaredOps_def [unfolded Let_def, symmetric] ops1_def [symmetric]
    by (auto simp: sub_only split: bind_splits
        dest!: subOnly_acceptNFT [OF assms(3)] subOnly_DAO [OF assms(3)])
  then show ?thesis using that unfolding ops1_def by blast
qed

lemma netAmount_declared:
  "\<forall>x \<in> set (TxOutputs txn). unat (outputAmountNanos x) < 2 ^ 63 \<Longrightarrow>
     netAmount (plainPartial a) (declaredOps L P height m txn) =
       (if Base58CheckEncode L (PublicKey txn) = a then - spentInputs m (TxInputs txn) else 0)
       + (if isBalanceModel P height then 0 else declaredTo L a (TxOutputs txn))"
  by (simp add: declaredOps_def Let_def netAmount_inputs netAmount_outputs)

lemma netAmount_simple:
  assumes "simpleOperations L P height m txn us = Some ops" and "regularSimple txn us"
  shows "netAmount (plainPartial a) ops = simpleEffect L P height m a txn us"
proof -
  have small: "smallAmounts us" "\<forall>x \<in> set (TxOutputs txn). unat (outputAmountNanos x) < 2 ^ 63"
    using assms(2) by (auto simp: regularSimple_def)
  show ?thesis
  proof (cases "us = []")
    case True
    then have "ops = declaredOps L P height m txn"
      using assms(1) by (simp add: simpleOperations_def declaredOps_def Let_def)
    then show ?thesis using True small
      by (simp add: netAmount_declared simpleEffect_def creditedTo_def spentFrom_def)
  next
    case False
    from simpleOperations_parts [OF assms(1) False assms(2)] obtain n1 n2 rest where
      ops: "ops = declaredOps L P height m txn @ getBalanceModelSpends L n1 us
             @ getImplicitOutputs L (TxOutputs txn) us n2 @ rest"
      and rest: "subOnly rest" .
    show ?thesis using small unfolding ops
      by (simp add: netAmount_declared netAmount_spends netAmount_implicit simpleEffect_def
          netAmount_subOnly [OF rest])
  qed
qed

lemma netAmount_transaction:
  "getOperationsForTransaction L P height m txn us = Some ops \<Longrightarrow> regularTxn txn us \<Longrightarrow>
     netAmount (plainPartial a) ops = txnEffect L P height m a txn us"
  "innerOperations L P height m txns uss = Some ops \<Longrightarrow> regularInner txns uss \<Longrightarrow>
     netAmount (plainPartial a) ops = innerEffect L P height m a txns uss"
proof (induction L P height m txn us and L P height m txns uss arbitrary: ops and ops
    rule: getOperationsForTransaction_innerOperations.induct)
  case (1 L P height m txn us)
  then show ?case
    by (auto simp: getOperationsForTransaction.simps [of L P height m txn us] Let_def
        txnEffect.simps [of L P height m a txn us] regularTxn.simps [of txn us]
        split: TxnMetadata.splits if_splits dest: netAmount_simple)
qed (auto split: bind_splits)

section \<open>Properties\<close>

lemma convertTxns_nth:
  "convertTxns L P h m uss i txns = Some ts \<Longrightarrow>
     length ts = length txns \<and>
     (\<forall>j < length txns. \<exists>ops.
        getOperationsForTransaction L P h m (txns ! j) (if uss = [] then [] else uss ! (i + j)) = Some ops \<and>
        txOperations (ts ! j) = squashOperations ops \<and>
        txHash (ts ! j) = BlockHashString L (TxnHash L (txns ! j)))"
proof (induction txns arbitrary: i ts)
  case Nil
  then show ?case by simp
next
  case (Cons txn txns)
  then obtain metadata us ops rest where
    "TxnMetaJSON L (TxnMeta txn) = Some metadata"
    and us: "(if uss = [] then Some [] else indexSlice uss i) = Some us"
    and ops: "getOperationsForTransaction L P h m txn us = Some ops"
    and rest: "convertTxns L P h m uss (Suc i) txns = Some rest"
    and ts: "txOperations (hd ts) = squashOperations ops"
      "txHash (hd ts) = BlockHashString L (TxnHash L txn)" "tl ts = rest" "ts \<noteq> []"
    by (auto split: bind_splits)
  have us': "us = (if uss = [] then [] else uss ! i)"
    using us by (auto simp: indexSlice_def split: if_splits)
  from ts(3,4) obtain t where t: "ts = t # rest" by (cases ts) auto
  show ?case using Cons.IH [OF rest] ops us' ts t
    by (auto simp: nth_Cons split: nat.splits)
qed

definition squashed :: "Operation list \<Rightarrow> bool" where
  "squashed ops \<longleftrightarrow> numbered opIndex 0 ops \<and> distinct (map opPartial ops) \<and>
     (\<forall>op \<in> set ops. rosettaOp op)"

lemma rosettaOp_addAmount: "rosettaOp (addAmount x y) = rosettaOp x"
  by (simp add: rosettaOp_def addAmount_def)

lemma rosettaOp_foldl: "rosettaOp (foldl addAmount x ys) = rosettaOp x"
  by (induction ys arbitrary: x) (auto simp: rosettaOp_addAmount)

lemma rosettaOps_squashRef:
  "\<forall>op \<in> set ops. rosettaOp op \<Longrightarrow> \<forall>op \<in> set (squashRef ops). rosettaOp op"
proof (induction ops rule: squashRef.induct)
  case 1
  then show ?case by simp
next
  case (2 op ops)
  have "\<forall>x \<in> set (filter (\<lambda>x. opPartial x \<noteq> opPartial op) ops). rosettaOp x"
    using "2.prems" by simp
  then have "\<forall>x \<in> set (squashRef (filter (\<lambda>x. opPartial x \<noteq> opPartial op) ops)). rosettaOp x"
    by (rule "2.IH")
  moreover have "rosettaOp op" using "2.prems" unfolding list.set by blast
  ultimately show ?case unfolding squashRef.simps list.set using rosettaOp_foldl by blast
qed

lemma rosettaOp_index [simp]: "rosettaOp (op\<lparr>opIndex := n\<rparr>) = rosettaOp op"
  by (simp add: rosettaOp_def)

lemma rosettaOps_renumber:
  "\<forall>op \<in> set ops. rosettaOp op \<Longrightarrow> \<forall>op \<in> set (renumber n ops). rosettaOp op"
  by (induction ops arbitrary: n) simp_all

lemma squashed_squashOperations:
  assumes "\<forall>op \<in> set ops. rosettaOp op"
  shows "squashed (squashOperations ops)"
  unfolding squashed_def
proof (intro conjI)
  show "numbered opIndex 0 (squashOperations ops)" by (rule numbered_squash)
  show "distinct (map opPartial (squashOperations ops))" by (rule distinct_squash)
  show "\<forall>op \<in> set (squashOperations ops). rosettaOp op"
    unfolding squashOperations_ref by (rule rosettaOps_renumber [OF rosettaOps_squashRef [OF assms]])
qed

lemma squashed_blockLevel:
  assumes "blockLevelOperations L us = Some ops"
  shows "squashed ops"
proof -
  from assms obtain n rewards where
    rewards: "getStakingRewardDistributionOps L n us = Some rewards"
    and ops: "ops = squashOperations (getImplicitOutputs L [] us 0 @ rewards)"
    by (auto simp: blockLevelOperations_def Let_def split: bind_splits)
  have "\<forall>op \<in> set (getImplicitOutputs L [] us 0 @ rewards). rosettaOp op"
    using okOps_implicit [of 0 L "[]" us] okOps_rewards [OF rewards] by (auto simp: okOps_def)
  then show ?thesis unfolding ops by (rule squashed_squashOperations)
qed

lemma GetTransactionsForConvertBlock_parts:
  assumes "GetTransactionsForConvertBlock L P f block = Some (Inr ts)"
    and "GetUtxoOps L f block = Some uss"
  shows "\<exists>m ts1.
    collectSpentUtxos Map.empty (concat uss) = Some m \<and>
    convertTxns L P (blockHeaderHeight block) m uss 0 (Txns block) = Some ts1 \<and>
    (length uss \<noteq> length (Txns block) + 1 \<longrightarrow> ts = ts1) \<and>
    (length uss = length (Txns block) + 1 \<longrightarrow>
      (\<exists>h t. BlockHash L block = Some h \<and> ts = ts1 @ [t] \<and>
         blockLevelOperations L (last uss) = Some (txOperations t) \<and>
         txHash t = ''blockHash-'' @ BlockHashString L h))"
  using assms
  by (auto simp: GetTransactionsForConvertBlock_def split: bind_splits if_splits option.splits)

text \<open>
  C8: the transactions returned for a block are those of the block in order, each under the
  string of its hash, followed by one dummy transaction for the block level exactly when the
  node recorded one more list of UTXO operations than there are transactions; and the
  operations of each are numbered from 0, name pairwise different accounts, and are successful
  INPUT or OUTPUT operations in DESO.
\<close>

theorem converted_block_shape:
  assumes "GetTransactionsForConvertBlock L P f block = Some (Inr ts)"
    and "GetUtxoOps L f block = Some uss"
  shows "map txHash (take (length (Txns block)) ts) =
      map (\<lambda>txn. BlockHashString L (TxnHash L txn)) (Txns block) \<and>
    length ts = length (Txns block) + (if length uss = length (Txns block) + 1 then 1 else 0) \<and>
    (\<forall>t \<in> set ts. squashed (txOperations t))"
proof -
  from GetTransactionsForConvertBlock_parts [OF assms] obtain m ts1 where
    ts1: "convertTxns L P (blockHeaderHeight block) m uss 0 (Txns block) = Some ts1"
    and same: "length uss \<noteq> length (Txns block) + 1 \<longrightarrow> ts = ts1"
    and more: "length uss = length (Txns block) + 1 \<longrightarrow> (\<exists>h t. BlockHash L block = Some h \<and>
      ts = ts1 @ [t] \<and> blockLevelOperations L (last uss) = Some (txOperations t) \<and>
      txHash t = ''blockHash-'' @ BlockHashString L h)"
    by blast
  note nth = convertTxns_nth [OF ts1]
  have hashes: "map txHash ts1 = map (\<lambda>txn. BlockHashString L (TxnHash L txn)) (Txns block)"
    using nth by (auto intro!: nth_equalityI)
  have sq: "squashed (txOperations t)" if "t \<in> set ts1" for t
  proof -
    from that nth obtain j where "j < length (Txns block)" "t = ts1 ! j"
      by (metis in_set_conv_nth)
    with nth show ?thesis
      using squashed_squashOperations rosettaOps_transaction(1) by metis
  qed
  have len: "length ts1 = length (Txns block)" using nth by simp
  show ?thesis
  proof (cases "length uss = length (Txns block) + 1")
    case True
    from more True obtain t where t: "ts = ts1 @ [t]"
      and "blockLevelOperations L (last uss) = Some (txOperations t)" by blast
    then have "squashed (txOperations t)" by (metis squashed_blockLevel)
    then show ?thesis using t sq hashes len True by auto
  next
    case False
    then show ?thesis using same sq hashes len by auto
  qed
qed

definition exampleBlock :: MsgDeSoBlock where
  "exampleBlock =
     \<lparr>blockHeaderHeight = 10,
      Txns = [MsgDeSoTxn [] [] [1] BasicTransferMetadata 1 5 None None]\<rparr>"

definition exampleParams :: DeSoParams where
  "exampleParams =
     \<lparr>BalanceModelBlockHeight = 10, CreatorCoinAutoSellThresholdNanos = 10, GenesisOutputs = []\<rparr>"

definition balanceUtxo :: "OperationType \<Rightarrow> pubkey \<Rightarrow> u64 \<Rightarrow> UtxoOperation" where
  "balanceUtxo t pk x =
     UtxoOperation ((zeroUtxoFields t)\<lparr>BalancePublicKey := pk, BalanceAmountNanos := x\<rparr>) []"

lemma balanceUtxo_sel [simp]:
  "utxoType (balanceUtxo t pk x) = t" "BalancePublicKey (opFields (balanceUtxo t pk x)) = pk"
  "BalanceAmountNanos (opFields (balanceUtxo t pk x)) = x" "Entry (opFields (balanceUtxo t pk x)) = None"
  by (simp_all add: balanceUtxo_def zeroUtxoFields_def)

text \<open>Key 1 pays 100 nanos to key 2 and 5 in fees, and the block pays a reward of 7 to key 3.\<close>

definition exampleUtxoOps :: "UtxoOperation list list" where
  "exampleUtxoOps =
     [[balanceUtxo OperationTypeSpendBalance [1] 105, balanceUtxo OperationTypeAddBalance [2] 100],
      [balanceUtxo OperationTypeStakeDistributionPayToBalance [3] 7]]"

lemmas example_defs = exampleBlock_def exampleParams_def exampleUtxoOps_def

lemma example_converts:
  "\<exists>ts. GetTransactionsForConvertBlock refLib exampleParams (\<lambda>_. Some exampleUtxoOps) exampleBlock
     = Some (Inr ts) \<and> length ts = 2"
  "GetUtxoOps refLib (\<lambda>_. Some exampleUtxoOps) exampleBlock = Some exampleUtxoOps"
  by (simp_all add: GetTransactionsForConvertBlock_def GetUtxoOps_def refLib_def example_defs
      indexSlice_def getOperationsForTransaction.simps simpleOperations_def
      getAcceptNFTOps_def getDAOCoinLimitOrderOps_def blockLevelOperations_def)

theorem converted_block_shape_witness:
  "\<exists>ts. GetTransactionsForConvertBlock refLib exampleParams (\<lambda>_. Some exampleUtxoOps) exampleBlock
      = Some (Inr ts) \<and> length ts = 2 \<and> (\<forall>t \<in> set ts. squashed (txOperations t))"
  using example_converts(1)
    converted_block_shape [OF _ example_converts(2), of exampleParams] by blast

text \<open>
  C3: in a converted block the operations of a transaction, squashed, move on every plain account
  exactly what the transaction does to it: minus the UTXOs its inputs spend, plus its declared
  outputs before the balance-model fork, plus the credits and minus the spends among its UTXO
  operations; and for an atomic wrapper the sum of that over its inner transactions. Only amounts
  that an \<open>int64\<close> does not hold and separate bidder inputs are excluded.
\<close>

theorem converted_transaction_net:
  assumes "GetTransactionsForConvertBlock L P f block = Some (Inr ts)"
    and "GetUtxoOps L f block = Some uss"
    and "collectSpentUtxos Map.empty (concat uss) = Some m"
    and "i < length (Txns block)" and "uss \<noteq> []"
    and "regularTxn (Txns block ! i) (uss ! i)"
  shows "netAmount (plainPartial a) (txOperations (ts ! i)) =
    txnEffect L P (blockHeaderHeight block) m a (Txns block ! i) (uss ! i)"
proof -
  from GetTransactionsForConvertBlock_parts [OF assms(1,2)] assms(3) obtain ts1 where
    ts1: "convertTxns L P (blockHeaderHeight block) m uss 0 (Txns block) = Some ts1"
    and ts: "ts = ts1 \<or> (\<exists>t. ts = ts1 @ [t])"
    by auto
  note nth = convertTxns_nth [OF ts1]
  from nth assms(4,5) obtain ops where
    "getOperationsForTransaction L P (blockHeaderHeight block) m (Txns block ! i) (uss ! i) = Some ops"
    and ops: "txOperations (ts1 ! i) = squashOperations ops"
    by auto
  from netAmount_transaction(1) [OF this(1) assms(6)] have
    "netAmount (plainPartial a) (txOperations (ts1 ! i)) =
       txnEffect L P (blockHeaderHeight block) m a (Txns block ! i) (uss ! i)"
    by (simp add: ops)
  moreover have "ts ! i = ts1 ! i" using ts nth assms(4) by (auto simp: nth_append)
  ultimately show ?thesis by simp
qed

lemma example_regular:
  "collectSpentUtxos Map.empty (concat exampleUtxoOps) = Some Map.empty"
  "regularTxn (Txns exampleBlock ! 0) (exampleUtxoOps ! 0)"
  by (simp_all add: example_defs regularTxn.simps regularSimple_def smallAmounts_def entryAmount_def)

theorem converted_transaction_net_witness:
  "\<exists>ts. GetTransactionsForConvertBlock refLib exampleParams (\<lambda>_. Some exampleUtxoOps) exampleBlock
      = Some (Inr ts) \<and>
    netAmount (plainPartial (hexEncode [1])) (txOperations (ts ! 0)) = - 105 \<and>
    netAmount (plainPartial (hexEncode [2])) (txOperations (ts ! 0)) = 100"
proof -
  from example_converts(1) obtain ts where ts:
    "GetTransactionsForConvertBlock refLib exampleParams (\<lambda>_. Some exampleUtxoOps) exampleBlock
      = Some (Inr ts)" by blast
  have "netAmount (plainPartial a) (txOperations (ts ! 0)) =
      txnEffect refLib exampleParams 10 Map.empty a (Txns exampleBlock ! 0) (exampleUtxoOps ! 0)" for a
    using converted_transaction_net [OF ts example_converts(2) example_regular(1), of 0]
      example_regular(2) by (simp add: exampleBlock_def exampleUtxoOps_def)
  moreover have "hexEncode [1] \<noteq> hexEncode [2]" by (simp add: hex_address.encode_inj)
  ultimately show ?thesis using ts
    by (auto simp: example_defs txnEffect.simps simpleEffect_def isBalanceModel_def spentInputs_def
        creditedTo_def spentFrom_def isImplicitUtxo_def paysBalance_def)
qed

definition restakedTo :: "corelib \<Rightarrow> pkid \<Rightarrow> UtxoOperation list \<Rightarrow> u64" where
  "restakedTo L v us =
     sum_list (map (\<lambda>u. clampInt64 (StakeAmountNanosDiff (opFields u)))
       (filter (\<lambda>u. utxoType u = OperationTypeStakeDistributionRestake \<and> namesValidator L v u) us))"

lemma netAmount_rewards:
  "getStakingRewardDistributionOps L n us = Some ops \<Longrightarrow>
     netAmount (validatorPartial L v) ops = restakedTo L v us"
  by (induction us arbitrary: n ops)
    (auto simp: restakedTo_def namesValidator_def split: if_splits bind_splits)

lemma netAmount_implicit_validator:
  "netAmount (validatorPartial L v) (getImplicitOutputs L outs us n) = 0"
proof -
  have "netAmount (validatorPartial L v) (implicitOutputsLoop L k n us) = 0" for k
    by (induction us arbitrary: n)
      (auto simp: Let_def plainPartial_def getValidatorEntrySubAccountIdentifierForValidator_def
        sub_addresses_not_Nil [symmetric] split: option.splits)
  then show ?thesis by (simp add: getImplicitOutputs_def)
qed

text \<open>
  C20: the dummy transaction at the end of an epoch pays every address exactly the rewards and
  UTXOs credited to it at block level, and every validator's sub-account exactly the rewards
  restaked with it.
\<close>

theorem block_level_rewards:
  assumes "blockLevelOperations L us = Some ops" and "smallAmounts us"
  shows "netAmount (plainPartial a) ops = creditedTo L 0 a us \<and>
    netAmount (validatorPartial L v) ops = restakedTo L v us"
proof -
  from assms(1) obtain n rewards where
    rewards: "getStakingRewardDistributionOps L n us = Some rewards"
    and ops: "ops = squashOperations (getImplicitOutputs L [] us 0 @ rewards)"
    by (auto simp: blockLevelOperations_def Let_def split: bind_splits)
  show ?thesis unfolding ops
    by (simp add: netAmount_implicit assms(2) netAmount_subOnly [OF subOnly_rewards [OF rewards]]
        netAmount_rewards [OF rewards] netAmount_implicit_validator)
qed

theorem block_level_rewards_witness:
  "\<exists>ops. blockLevelOperations refLib
      [balanceUtxo OperationTypeStakeDistributionPayToBalance [3] 7,
       UtxoOperation ((opFields (stakeUtxo OperationTypeStakeDistributionRestake))
         \<lparr>StakeAmountNanosDiff := 11\<rparr>) []] = Some ops \<and>
    netAmount (plainPartial (hexEncode [3])) ops = 7 \<and> netAmount (validatorPartial refLib [7]) ops = 11"
proof -
  let ?us = "[balanceUtxo OperationTypeStakeDistributionPayToBalance [3] 7,
       UtxoOperation ((opFields (stakeUtxo OperationTypeStakeDistributionRestake))
         \<lparr>StakeAmountNanosDiff := 11\<rparr>) []]"
  have small: "smallAmounts ?us"
    by (simp add: smallAmounts_def entryAmount_def stakeUtxo_def zeroUtxoFields_def)
  have "\<exists>ops. blockLevelOperations refLib ?us = Some ops"
    by (simp add: blockLevelOperations_def stakeUtxo_def zeroUtxoFields_def Let_def)
  then obtain ops where ops: "blockLevelOperations refLib ?us = Some ops" ..
  then show ?thesis
    using block_level_rewards [OF ops small, of "hexEncode [3]" "[7]"]
    by (auto simp: creditedTo_def restakedTo_def isImplicitUtxo_def paysBalance_def namesValidator_def
        stakeUtxo_def zeroUtxoFields_def)
qed

end
