(* ===== verification/BlockTotal.thy ===== *)
theory BlockTotal
  imports BlockOps
begin

text \<open>
  When the conversion of a block in \<open>deso/block.go\<close> returns: the places where it would use a nil pointer
  or an index out of range, as a check of the block and its UTXO operations, and the proof that the
  conversion of a block that passes the check returns its transactions, however deeply atomic
  transactions are nested.
\<close>

section \<open>The check\<close>

text \<open>An input of the zero transaction names an output of the genesis block.\<close>

definition inputOk :: "DeSoParams \<Rightarrow> DeSoInput \<Rightarrow> bool" where
  "inputOk P input \<longleftrightarrow>
     inputTxID input \<noteq> replicate 32 0 \<or> unat (inputIndex input) < length (GenesisOutputs P)"

definition simpleOk :: "DeSoParams \<Rightarrow> MsgDeSoTxn \<Rightarrow> UtxoOperation list \<Rightarrow> bool" where
  "simpleOk P txn us \<longleftrightarrow>
     us = [] \<or>
     (case TxnMeta txn of
        AcceptNFTBidMetadata inputs \<Rightarrow>
          list_all (inputOk P) inputs \<and>
          (case findUtxoOp OperationTypeAcceptNFTBid us of
             None \<Rightarrow> True | Some acceptNFTOp \<Rightarrow> PrevCoinEntry acceptNFTOp \<noteq> None)
      | DAOCoinLimitOrderMetadata bidders \<Rightarrow> list_all (\<lambda>b. list_all (inputOk P) (Inputs b)) bidders
      | _ \<Rightarrow> True)"

function (sequential) txnOk :: "DeSoParams \<Rightarrow> MsgDeSoTxn \<Rightarrow> UtxoOperation list \<Rightarrow> bool"
and innerOk :: "DeSoParams \<Rightarrow> MsgDeSoTxn list \<Rightarrow> UtxoOperation list list \<Rightarrow> bool" where
  "txnOk P txn us =
     (case TxnMeta txn of
        AtomicTxnsWrapperMetadata innerTxns \<Rightarrow> innerOk P innerTxns (innerUtxoOps us)
      | _ \<Rightarrow> simpleOk P txn us)"
| "innerOk P (txn # txns) (us # uss) = (txnOk P txn us \<and> innerOk P txns uss)"
| "innerOk P _ _ = True"
  by pat_completeness auto
termination
  by (relation "measure (\<lambda>x. case x of Inl (_, txn, _) \<Rightarrow> size txn | Inr (_, txns, _) \<Rightarrow> size_list size txns)")
    (auto dest: TxnMeta_size)

declare txnOk.simps [simp del]

definition spendOk :: "UtxoOperation \<Rightarrow> bool" where
  "spendOk u \<longleftrightarrow> utxoType u = OperationTypeSpendUtxo \<longrightarrow>
     (case Entry (opFields u) of None \<Rightarrow> False | Some e \<Rightarrow> entryUtxoKey e \<noteq> None)"

definition rewardOk :: "UtxoOperation \<Rightarrow> bool" where
  "rewardOk u \<longleftrightarrow> utxoType u = OperationTypeStakeDistributionRestake \<longrightarrow> PrevValidatorEntry (opFields u) \<noteq> None"

definition convertible ::
  "corelib \<Rightarrow> DeSoParams \<Rightarrow> MsgDeSoBlock \<Rightarrow> UtxoOperation list list \<Rightarrow> bool" where
  "convertible L P block uss \<longleftrightarrow>
     (uss = [] \<or> length (Txns block) \<le> length uss) \<and>
     list_all spendOk (concat uss) \<and>
     list_all (\<lambda>txn. TxnMetaJSON L (TxnMeta txn) \<noteq> None) (Txns block) \<and>
     (\<forall>i < length (Txns block). txnOk P (Txns block ! i) (if uss = [] then [] else uss ! i)) \<and>
     (length uss = length (Txns block) + 1 \<longrightarrow> list_all rewardOk (last uss))"

section \<open>Each part returns\<close>

named_theorems returns \<open>a part of the conversion returns\<close>

lemma getInputAmount_returns [returns]: "inputOk P i \<Longrightarrow> \<exists>r. getInputAmount P i us = Some r"
  by (auto simp: inputOk_def getInputAmount_def Let_def)

lemma bidderInputOps_returns [returns]:
  "list_all (inputOk P) inputs \<Longrightarrow> \<exists>r. bidderInputOps P b us n inputs = Some r"
proof (induction inputs arbitrary: n)
  case (Cons i inputs)
  obtain a where "getInputAmount P i us = Some a"
    using getInputAmount_returns [of P i us] Cons.prems by auto
  moreover obtain r where "bidderInputOps P b us (n + 1) inputs = Some r"
    using Cons.IH [of "n + 1"] Cons.prems by auto
  ultimately show ?case by (cases a) auto
qed simp

lemma bidderOps_returns [returns]:
  "list_all (\<lambda>b. list_all (inputOk P) (Inputs b)) bs \<Longrightarrow> \<exists>r. bidderOps L P us n bs = Some r"
proof (induction bs arbitrary: n)
  case (Cons b bs)
  then have "list_all (inputOk P) (Inputs b)" by simp
  from bidderInputOps_returns [OF this]
  obtain r where r: "bidderInputOps P (Base58CheckEncode L (TransactorPublicKey b)) us n (Inputs b) = Some r"
    by blast
  show ?case
  proof (cases r)
    case (Some ops)
    with Cons obtain r' where "bidderOps L P us (n + length ops) bs = Some r'" by auto
    with r Some show ?thesis by simp
  qed (use r in simp)
qed simp

lemma acceptNFT_returns [returns]:
  "simpleOk P txn us \<Longrightarrow> us \<noteq> [] \<Longrightarrow> \<exists>ops. getAcceptNFTOps L P txn us n = Some ops"
proof (cases "TxnMeta txn")
  case (AcceptNFTBidMetadata inputs)
  assume ok: "simpleOk P txn us" "us \<noteq> []"
  with AcceptNFTBidMetadata have inputs: "list_all (inputOk P) inputs" by (simp add: simpleOk_def)
  show ?thesis
  proof (cases "findUtxoOp OperationTypeAcceptNFTBid us")
    case (Some f)
    with ok AcceptNFTBidMetadata obtain e where "PrevCoinEntry f = Some e" by (auto simp: simpleOk_def)
    moreover obtain r where "bidderInputOps P (PkToString L (AcceptNFTBidBidderPublicKey f)) us n inputs = Some r"
      using bidderInputOps_returns [OF inputs] by blast
    ultimately show ?thesis
      using AcceptNFTBidMetadata Some by (cases r) (simp_all add: getAcceptNFTOps_def Let_def)
  qed (simp add: getAcceptNFTOps_def AcceptNFTBidMetadata)
qed (simp_all add: getAcceptNFTOps_def)

lemma DAO_returns [returns]:
  "simpleOk P txn us \<Longrightarrow> us \<noteq> [] \<Longrightarrow> \<exists>ops. getDAOCoinLimitOrderOps L P txn us n = Some ops"
proof (cases "TxnMeta txn")
  case (DAOCoinLimitOrderMetadata bidders)
  assume "simpleOk P txn us" "us \<noteq> []"
  then have "list_all (\<lambda>b. list_all (inputOk P) (Inputs b)) bidders"
    by (simp add: simpleOk_def DAOCoinLimitOrderMetadata)
  from bidderOps_returns [OF this] obtain r where "bidderOps L P us n bidders = Some r" by blast
  then show ?thesis by (simp add: getDAOCoinLimitOrderOps_def DAOCoinLimitOrderMetadata)
qed (simp_all add: getDAOCoinLimitOrderOps_def)

lemma simple_returns:
  assumes "simpleOk P txn us"
  shows "\<exists>ops. simpleOperations L P h m txn us = Some ops"
proof (cases "us = []")
  case False
  have nft: "getAcceptNFTOps L P txn us n \<noteq> None" for n
    using acceptNFT_returns [OF assms False] by fastforce
  have dao: "getDAOCoinLimitOrderOps L P txn us n \<noteq> None" for n
    using DAO_returns [OF assms False] by fastforce
  have "simpleOperations L P h m txn us \<noteq> None"
    by (simp add: simpleOperations_def Let_def False nft dao bind_eq_None_conv del: not_None_eq)
  then show ?thesis by blast
qed (simp add: simpleOperations_def Let_def)

lemma transaction_returns:
  "txnOk P txn us \<Longrightarrow> \<exists>ops. getOperationsForTransaction L P h m txn us = Some ops"
  "innerOk P txns uss \<Longrightarrow> \<exists>ops. innerOperations L P h m txns uss = Some ops"
proof (induction L P h m txn us and L P h m txns uss
    rule: getOperationsForTransaction_innerOperations.induct)
  case (1 L P h m txn us)
  then show ?case
    by (cases "TxnMeta txn")
      (auto simp: getOperationsForTransaction.simps [of L P h m txn us] txnOk.simps [of P txn us] Let_def
        intro: simple_returns)
next
  case (2 L P h m txn txns us uss)
  then obtain a b where "getOperationsForTransaction L P h m txn us = Some a"
    "innerOperations L P h m txns uss = Some b" by auto
  then show ?case by simp
qed simp_all


lemma convertTxns_returns:
  assumes "list_all (\<lambda>txn. TxnMetaJSON L (TxnMeta txn) \<noteq> None) txns"
    and "uss = [] \<or> i + length txns \<le> length uss"
    and "\<forall>k < length txns. txnOk P (txns ! k) (if uss = [] then [] else uss ! (i + k))"
  shows "\<exists>ts. convertTxns L P h m uss i txns = Some ts"
  using assms
proof (induction txns arbitrary: i)
  case (Cons txn txns)
  let ?us = "if uss = [] then [] else uss ! i"
  from Cons.prems(3) have "txnOk P txn ?us" by force
  then obtain ops where ops: "getOperationsForTransaction L P h m txn ?us = Some ops"
    using transaction_returns(1) by blast
  have "\<forall>k < length txns. txnOk P (txns ! k) (if uss = [] then [] else uss ! (i + 1 + k))"
    using Cons.prems(3) by force
  moreover have "list_all (\<lambda>txn. TxnMetaJSON L (TxnMeta txn) \<noteq> None) txns"
    "uss = [] \<or> i + 1 + length txns \<le> length uss"
    using Cons.prems(1,2) by auto
  ultimately obtain ts where "convertTxns L P h m uss (i + 1) txns = Some ts"
    using Cons.IH [of "i + 1"] by blast
  with ops Cons.prems(1,2) show ?case by (auto simp: indexSlice_def)
qed simp

lemma collectSpentUtxos_returns: "list_all spendOk us \<Longrightarrow> \<exists>m'. collectSpentUtxos m us = Some m'"
proof (induction us arbitrary: m)
  case (Cons u us)
  then show ?case by (cases "Entry (opFields u)") (auto simp: spendOk_def)
qed simp

lemma rewards_return: "list_all rewardOk us \<Longrightarrow> \<exists>ops. getStakingRewardDistributionOps L n us = Some ops"
proof (induction us arbitrary: n)
  case (Cons u us)
  then obtain a b where "getStakingRewardDistributionOps L n us = Some a"
    "getStakingRewardDistributionOps L (n + 1) us = Some b" by fastforce
  with Cons.prems show ?case by (auto simp: rewardOk_def)
qed simp

section \<open>The conversion returns\<close>

text \<open>C9: The conversion of a block returns. When the UTXO operations of the block cannot be found it
  returns that error; otherwise, for a block and UTXO operations that pass the check of \<open>convertible\<close>, it
  returns transactions: one for each of the block, and the one of the block level where the UTXO
  operations have an entry more. The error that the block does not hash is never returned.\<close>

theorem convert_block_returns:
  assumes "\<And>uss. GetUtxoOps L f block = Some uss \<Longrightarrow> convertible L P block uss"
  shows "case GetUtxoOps L f block of
      None \<Rightarrow> GetTransactionsForConvertBlock L P f block = Some (Inl ErrProblemFetchingUtxoOpsForBlock)
    | Some uss \<Rightarrow> \<exists>ts. GetTransactionsForConvertBlock L P f block = Some (Inr ts) \<and>
        length ts = length (Txns block) + (if length uss = length (Txns block) + 1 then 1 else 0)"
proof (cases "GetUtxoOps L f block")
  case (Some uss)
  then obtain hash where hash: "BlockHash L block = Some hash" by (auto simp: GetUtxoOps_def split: option.splits)
  from assms [OF Some] have c: "convertible L P block uss" .
  obtain m where m: "collectSpentUtxos Map.empty (concat uss) = Some m"
    using c collectSpentUtxos_returns by (fastforce simp: convertible_def)
  obtain ts where ts: "convertTxns L P (blockHeaderHeight block) m uss 0 (Txns block) = Some ts"
    using c convertTxns_returns [of L "Txns block" uss 0 P] by (fastforce simp: convertible_def)
  then have len: "length ts = length (Txns block)" by (simp add: convertTxns_nth)
  show ?thesis
  proof (cases "length uss = length (Txns block) + 1")
    case True
    with c have "list_all rewardOk (last uss)" by (simp add: convertible_def)
    from rewards_return [OF this] obtain r where
      "getStakingRewardDistributionOps L (length (getImplicitOutputs L [] (last uss) 0)) (last uss) = Some r"
      by blast
    then obtain ops where "blockLevelOperations L (last uss) = Some ops"
      by (simp add: blockLevelOperations_def Let_def)
    with True Some hash m ts len show ?thesis by (simp add: GetTransactionsForConvertBlock_def)
  next
    case False
    with Some hash m ts len show ?thesis by (simp add: GetTransactionsForConvertBlock_def)
  qed
qed (simp add: GetTransactionsForConvertBlock_def)

theorem convert_block_returns_witness:
  "\<exists>ts. GetTransactionsForConvertBlock refLib exampleParams (\<lambda>_. Some exampleUtxoOps) exampleBlock = Some (Inr ts) \<and>
     length ts = 2"
proof -
  have "GetUtxoOps refLib (\<lambda>_. Some exampleUtxoOps) exampleBlock = Some exampleUtxoOps"
    by (rule example_converts(2))
  moreover have "convertible refLib exampleParams exampleBlock exampleUtxoOps"
    by (simp add: convertible_def exampleBlock_def exampleUtxoOps_def spendOk_def rewardOk_def
        txnOk.simps simpleOk_def)
  ultimately have "\<exists>ts. GetTransactionsForConvertBlock refLib exampleParams (\<lambda>_. Some exampleUtxoOps) exampleBlock =
      Some (Inr ts) \<and> length ts = length (Txns exampleBlock) + 1"
    using convert_block_returns [of refLib "\<lambda>_. Some exampleUtxoOps" exampleBlock exampleParams]
    by (simp add: exampleBlock_def exampleUtxoOps_def)
  then show ?thesis by (simp add: exampleBlock_def numeral_2_eq_2)
qed

end
