(* ===== verification/Store.thy ===== *)
theory Store
  imports Prelude
begin

text \<open>
  The key-value store behind the index (\<open>dgraph-io/badger\<close>) as an interface: the operations
  the program calls are the fields of the record \<open>badger\<close>, and the locale \<open>badger_store\<close> states
  the documented behaviour the program relies on, over an abstraction of a database to a map.
  \<open>reliable_store\<close> adds that no call reports an error. \<open>memStore\<close> is an in-memory store that
  satisfies both.
\<close>

text \<open>\<open>txn.Get\<close> followed by \<open>ValueCopy\<close>; an error of either that is not \<open>ErrKeyNotFound\<close> is \<open>GetError\<close>.\<close>

datatype getResult = KeyNotFound | GetError | GetValue bytes

text \<open>
  Write batches record writes that \<open>Flush\<close> applies in order; the flag of \<open>wbSet\<close> and \<open>wbFlush\<close> is
  \<open>err == nil\<close>. A batch that outgrows a transaction commits what it holds and goes on with a new one, so
  \<open>wbCancel\<close>, which ends a batch that is not flushed, may leave some of its writes in the database. The
  program reads the database only after the end of a batch. \<open>seekReverse\<close> is the key of the item at which an iterator with
  \<open>Reverse = true\<close> stands after \<open>Seek\<close>.
\<close>

record ('db, 'wb) badger =
  NewWriteBatch :: "'db \<Rightarrow> 'wb"
  wbSet :: "'wb \<Rightarrow> bytes \<Rightarrow> bytes \<Rightarrow> 'wb \<times> bool"
  wbFlush :: "'wb \<Rightarrow> 'db \<Rightarrow> 'db \<times> bool"
  wbCancel :: "'wb \<Rightarrow> 'db \<Rightarrow> 'db"
  txnGet :: "'db \<Rightarrow> bytes \<Rightarrow> getResult"
  seekReverse :: "'db \<Rightarrow> bytes \<Rightarrow> bytes option"

definition applyWrites :: "(bytes \<times> bytes) list \<Rightarrow> (bytes \<rightharpoonup> bytes) \<Rightarrow> (bytes \<rightharpoonup> bytes)" where
  "applyWrites ws m = m ++ map_of (rev ws)"

lemma applyWrites_simps [simp]:
  "applyWrites [] m = m"
  "applyWrites (ws @ [(k, v)]) m = (applyWrites ws m)(k \<mapsto> v)"
  by (simp_all add: applyWrites_def)

lemma applyWrites_append: "applyWrites (xs @ ys) m = applyWrites ys (applyWrites xs m)"
  by (simp add: applyWrites_def)

lemma applyWrites_other: "k \<notin> fst ` set ws \<Longrightarrow> applyWrites ws m k = m k"
  by (force simp: applyWrites_def map_add_def split: option.splits dest!: map_of_SomeD)

lemma dom_applyWrites: "dom (applyWrites ws m) = fst ` set ws \<union> dom m"
  by (auto simp: applyWrites_def dom_map_of_conv_image_fst)

locale badger_store =
  fixes B :: "('db, 'wb) badger"
    and kv :: "'db \<Rightarrow> bytes \<rightharpoonup> bytes"
    and pending :: "'wb \<Rightarrow> (bytes \<times> bytes) list"
  assumes finite_kv [simp]: "finite (dom (kv db))"
    and pending_new [simp]: "pending (NewWriteBatch B db) = []"
    and pending_set: "wbSet B wb k v = (wb', True) \<Longrightarrow> pending wb' = pending wb @ [(k, v)]"
    and kv_flush: "wbFlush B wb db = (db', True) \<Longrightarrow> kv db' = applyWrites (pending wb) (kv db)"
    and kv_cancel: "\<exists>ws. set ws \<subseteq> set (pending wb) \<and> kv (wbCancel B wb db) = applyWrites ws (kv db)"
    and get_found: "txnGet B db k = GetValue v \<Longrightarrow> kv db k = Some v"
    and get_missing: "txnGet B db k = KeyNotFound \<Longrightarrow> kv db k = None"
    and seek_Some: "seekReverse B db k = Some k' \<Longrightarrow>
      k' \<in> dom (kv db) \<and> k' \<le> k \<and> (\<forall>x \<in> dom (kv db). x \<le> k \<longrightarrow> x \<le> k')"
    and seek_None: "seekReverse B db k = None \<Longrightarrow> \<forall>x \<in> dom (kv db). \<not> x \<le> k"

locale reliable_store = badger_store +
  assumes set_ok [simp]: "snd (wbSet B wb k v)"
    and flush_ok [simp]: "snd (wbFlush B wb db)"
    and get_ok: "txnGet B db k \<noteq> GetError"
begin

lemma pending_set_fst [simp]: "pending (fst (wbSet B wb k v)) = pending wb @ [(k, v)]"
  using pending_set [of wb k v "fst (wbSet B wb k v)"] set_ok [of wb k v] by (simp add: prod_eq_iff)

lemma kv_flush_fst [simp]: "kv (fst (wbFlush B wb db)) = applyWrites (pending wb) (kv db)"
  using kv_flush [of wb db "fst (wbFlush B wb db)"] flush_ok [of wb db] by (simp add: prod_eq_iff)

lemma get_eq: "txnGet B db k = (case kv db k of None \<Rightarrow> KeyNotFound | Some v \<Rightarrow> GetValue v)"
  using get_ok [of db k] get_found [of db k] get_missing [of db k]
  by (cases "txnGet B db k") auto

end

section \<open>An in-memory store\<close>

type_synonym memDB = "(bytes \<times> bytes) list"

definition memSeek :: "memDB \<Rightarrow> bytes \<Rightarrow> bytes option" where
  "memSeek db k =
     (case filter (\<lambda>x. x \<le> k) (map fst db) of [] \<Rightarrow> None | x # xs \<Rightarrow> Some (fold max xs x))"

definition memStore :: "(memDB, (bytes \<times> bytes) list) badger" where
  "memStore =
     \<lparr>NewWriteBatch = (\<lambda>db. []),
      wbSet = (\<lambda>wb k v. (wb @ [(k, v)], True)),
      wbFlush = (\<lambda>wb db. (rev wb @ db, True)),
      wbCancel = (\<lambda>wb db. db),
      txnGet = (\<lambda>db k. case map_of db k of None \<Rightarrow> KeyNotFound | Some v \<Rightarrow> GetValue v),
      seekReverse = memSeek\<rparr>"

lemma memStore_sel [simp]:
  "NewWriteBatch memStore db = []" "wbSet memStore wb k v = (wb @ [(k, v)], True)"
  "wbFlush memStore wb db = (rev wb @ db, True)" "wbCancel memStore wb db = db"
  "txnGet memStore db k = (case map_of db k of None \<Rightarrow> KeyNotFound | Some v \<Rightarrow> GetValue v)"
  "seekReverse memStore = memSeek"
  by (simp_all add: memStore_def)

lemma memSeek_None: "memSeek db k = None \<longleftrightarrow> (\<forall>x \<in> fst ` set db. \<not> x \<le> k)"
proof -
  have "filter (\<lambda>x. x \<le> k) (map fst db) = [] \<longleftrightarrow> (\<forall>x \<in> fst ` set db. \<not> x \<le> k)"
    by (simp add: filter_empty_conv)
  moreover have "memSeek db k = None \<longleftrightarrow> filter (\<lambda>x. x \<le> k) (map fst db) = []"
    by (simp add: memSeek_def split: list.split)
  ultimately show ?thesis by simp
qed

lemma memSeek_Some:
  assumes "memSeek db k = Some k'"
  shows "k' \<in> fst ` set db \<and> k' \<le> k \<and> (\<forall>x \<in> fst ` set db. x \<le> k \<longrightarrow> x \<le> k')"
proof -
  let ?ks = "filter (\<lambda>x. x \<le> k) (map fst db)"
  from assms obtain x xs where ks: "?ks = x # xs" and k': "k' = fold max xs x"
    by (auto simp: memSeek_def split: list.splits)
  have max: "k' = Max (set ?ks)" by (simp only: ks k' Max.set_eq_fold)
  moreover have "set ?ks \<noteq> {}" using ks by simp
  ultimately have "k' \<in> set ?ks" and "\<forall>y \<in> set ?ks. y \<le> k'"
    by (metis Max_in finite_set) (simp add: max)
  then show ?thesis by auto
qed

interpretation memory: reliable_store memStore map_of "\<lambda>wb. wb"
proof
  fix db :: memDB and k k' :: bytes
  show "finite (dom (map_of db))" by (simp add: dom_map_of_conv_image_fst)
  show "seekReverse memStore db k = Some k' \<Longrightarrow>
    k' \<in> dom (map_of db) \<and> k' \<le> k \<and> (\<forall>x \<in> dom (map_of db). x \<le> k \<longrightarrow> x \<le> k')"
    using memSeek_Some [of db k k'] by (simp add: dom_map_of_conv_image_fst)
  show "seekReverse memStore db k = None \<Longrightarrow> \<forall>x \<in> dom (map_of db). \<not> x \<le> k"
    using memSeek_None [of db k] by (simp add: dom_map_of_conv_image_fst)
  show "\<exists>ws. set ws \<subseteq> set wb \<and> map_of (wbCancel memStore wb db) = applyWrites ws (map_of db)"
    for wb by (intro exI [of _ "[]"]) simp
qed (auto simp: applyWrites_def split: option.splits)

end
