(* ===== verification/Index.thy ===== *)
theory Index
  imports CoreLaws Store "HOL-Library.Product_Lexorder"
begin

text \<open>
  The Rosetta index of \<open>deso/index.go\<close>: the layout of its keys, the writes of balance
  snapshots and hypersync balances to a write batch, and the reads of the latest balance at a
  height. The state is the badger database behind the record \<open>badger\<close>; the keys carry
  the data, so the abstraction of a database is a set of pairs (height, balance) per account.

  A function that can panic returns an option; the flag of a write is \<open>err == nil\<close>.
\<close>

section \<open>Balance types and keys\<close>

type_synonym BalanceType = u8

definition DESOBalance :: BalanceType where "DESOBalance = 0"
definition CreatorCoinLockedBalance :: BalanceType where "CreatorCoinLockedBalance = 1"
definition ValidatorStakedDESOBalance :: BalanceType where "ValidatorStakedDESOBalance = 2"
definition LockedStakeDESOBalance :: BalanceType where "LockedStakeDESOBalance = 3"

definition PrefixBalanceSnapshots :: u8 where "PrefixBalanceSnapshots = 1"
definition PrefixLockedBalanceSnapshots :: u8 where "PrefixLockedBalanceSnapshots = 2"
definition PrefixHypersyncBlockHeightToBalances :: u8 where "PrefixHypersyncBlockHeightToBalances = 3"
definition PrefixValidatorStakedBalanceSnapshots :: u8 where "PrefixValidatorStakedBalanceSnapshots = 4"
definition PrefixLockedStakeBalanceSnapshots :: u8 where "PrefixLockedStakeBalanceSnapshots = 5"

lemmas index_consts =
  DESOBalance_def CreatorCoinLockedBalance_def ValidatorStakedDESOBalance_def
  LockedStakeDESOBalance_def PrefixBalanceSnapshots_def PrefixLockedBalanceSnapshots_def
  PrefixHypersyncBlockHeightToBalances_def PrefixValidatorStakedBalanceSnapshots_def
  PrefixLockedStakeBalanceSnapshots_def

definition BalanceTypePrefix :: "BalanceType \<Rightarrow> u8 option" where
  "BalanceTypePrefix balanceType =
     (if balanceType = DESOBalance then Some PrefixBalanceSnapshots
      else if balanceType = CreatorCoinLockedBalance then Some PrefixLockedBalanceSnapshots
      else if balanceType = ValidatorStakedDESOBalance then Some PrefixValidatorStakedBalanceSnapshots
      else if balanceType = LockedStakeDESOBalance then Some PrefixLockedStakeBalanceSnapshots
      else None)"

definition balanceSnapshotKey ::
  "corelib \<Rightarrow> BalanceType \<Rightarrow> pubkey \<Rightarrow> u64 \<Rightarrow> u64 \<Rightarrow> bytes option" where
  "balanceSnapshotKey L balanceType publicKey blockHeight balance =
     do { prefix \<leftarrow> BalanceTypePrefix balanceType;
          Some (prefix # publicKey @ EncodeUint64 L blockHeight @ EncodeUint64 L balance) }"

definition lockedStakeBalanceSnapshotKey ::
  "corelib \<Rightarrow> BalanceType \<Rightarrow> pkid \<Rightarrow> pkid \<Rightarrow> u64 \<Rightarrow> u64 \<Rightarrow> u64 \<Rightarrow> bytes option" where
  "lockedStakeBalanceSnapshotKey L balanceType stakerPKID validatorPKID lockedAtEpoch blockHeight balance =
     do { prefix \<leftarrow> BalanceTypePrefix balanceType;
          Some (prefix # stakerPKID @ validatorPKID @ EncodeUint64 L lockedAtEpoch
                  @ EncodeUint64 L blockHeight @ EncodeUint64 L balance) }"

definition hypersyncHeightToBlockKey :: "corelib \<Rightarrow> u64 \<Rightarrow> BalanceType \<Rightarrow> bytes" where
  "hypersyncHeightToBlockKey L blockHeight balanceType =
     PrefixHypersyncBlockHeightToBalances # EncodeUint64 L blockHeight @ [balanceType]"

text \<open>The balance types the functions over public keys accept.\<close>

definition publicKeyBalance :: "BalanceType \<Rightarrow> bool" where
  "publicKeyBalance balanceType \<longleftrightarrow>
     \<not> (balanceType \<noteq> DESOBalance \<and> balanceType \<noteq> CreatorCoinLockedBalance \<and>
        balanceType \<noteq> ValidatorStakedDESOBalance)"

record LockedStakeBalanceMapKey =
  mapStakerPKID :: pkid
  mapValidatorPKID :: pkid
  mapLockedAtEpochNumber :: u64

section \<open>Writes of balance snapshots\<close>

fun putBalances ::
  "corelib \<Rightarrow> ('db, 'wb) badger \<Rightarrow> 'wb \<Rightarrow> u64 \<Rightarrow> BalanceType \<Rightarrow> (pubkey, u64) gomap \<Rightarrow>
     ('wb \<times> bool) option" where
  "putBalances L B wb height balanceType [] = Some (wb, True)"
| "putBalances L B wb height balanceType ((pk, bal) # rest) =
     do { key \<leftarrow> balanceSnapshotKey L balanceType pk height bal;
          (case wbSet B wb key [] of
             (wb', True) \<Rightarrow> putBalances L B wb' height balanceType rest
           | (wb', False) \<Rightarrow> Some (wb', False)) }"

definition PutBalanceSnapshotWithWB ::
  "corelib \<Rightarrow> ('db, 'wb) badger \<Rightarrow> 'wb \<Rightarrow> u64 \<Rightarrow> BalanceType \<Rightarrow> (pubkey, u64) gomap \<Rightarrow>
     ('wb \<times> bool) option" where
  "PutBalanceSnapshotWithWB L B wb height balanceType balances =
     (if \<not> publicKeyBalance balanceType then Some (wb, False)
      else putBalances L B wb height balanceType balances)"

definition PutSingleBalanceSnapshotWithWB ::
  "corelib \<Rightarrow> ('db, 'wb) badger \<Rightarrow> 'wb \<Rightarrow> u64 \<Rightarrow> BalanceType \<Rightarrow> pubkey \<Rightarrow> u64 \<Rightarrow>
     ('wb \<times> bool) option" where
  "PutSingleBalanceSnapshotWithWB L B wb height balanceType publicKey balance =
     (if \<not> publicKeyBalance balanceType then Some (wb, False)
      else do { key \<leftarrow> balanceSnapshotKey L balanceType publicKey height balance;
                Some (wbSet B wb key []) })"

fun putLockedStakeBalances ::
  "corelib \<Rightarrow> ('db, 'wb) badger \<Rightarrow> 'wb \<Rightarrow> u64 \<Rightarrow> BalanceType \<Rightarrow>
     (LockedStakeBalanceMapKey, u64) gomap \<Rightarrow> ('wb \<times> bool) option" where
  "putLockedStakeBalances L B wb height balanceType [] = Some (wb, True)"
| "putLockedStakeBalances L B wb height balanceType ((pk, bal) # rest) =
     do { key \<leftarrow> lockedStakeBalanceSnapshotKey L balanceType (mapStakerPKID pk)
                  (mapValidatorPKID pk) (mapLockedAtEpochNumber pk) height bal;
          (case wbSet B wb key [] of
             (wb', True) \<Rightarrow> putLockedStakeBalances L B wb' height balanceType rest
           | (wb', False) \<Rightarrow> Some (wb', False)) }"

definition PutLockedStakeBalanceSnapshotWithWB ::
  "corelib \<Rightarrow> ('db, 'wb) badger \<Rightarrow> 'wb \<Rightarrow> u64 \<Rightarrow> BalanceType \<Rightarrow>
     (LockedStakeBalanceMapKey, u64) gomap \<Rightarrow> ('wb \<times> bool) option" where
  "PutLockedStakeBalanceSnapshotWithWB L B wb height balanceType balances =
     (if balanceType \<noteq> LockedStakeDESOBalance then Some (wb, False)
      else putLockedStakeBalances L B wb height balanceType balances)"

definition PutSingleLockedStakeBalanceSnapshotWithWB ::
  "corelib \<Rightarrow> ('db, 'wb) badger \<Rightarrow> 'wb \<Rightarrow> u64 \<Rightarrow> BalanceType \<Rightarrow> pkid \<Rightarrow> pkid \<Rightarrow> u64 \<Rightarrow> u64 \<Rightarrow>
     ('wb \<times> bool) option" where
  "PutSingleLockedStakeBalanceSnapshotWithWB L B wb height balanceType stakerPKID validatorPKID
       lockedAtEpoch balance =
     (if balanceType \<noteq> LockedStakeDESOBalance then Some (wb, False)
      else do { key \<leftarrow> lockedStakeBalanceSnapshotKey L balanceType stakerPKID validatorPKID
                         lockedAtEpoch height balance;
                Some (wbSet B wb key []) })"

section \<open>Reads of balance snapshots\<close>

definition MaxUint64 :: u64 where "MaxUint64 = - 1"

text \<open>
  The first key at or below \<open>maxPrefix\<close>, provided it starts with the prefix of the account; the
  balance is decoded from a fixed offset of the key found, and the slice \<open>k[n:]\<close> panics on a
  shorter key.
\<close>

definition sliceFrom :: "nat \<Rightarrow> bytes \<Rightarrow> bytes option" where
  "sliceFrom n k = (if n \<le> length k then Some (drop n k) else None)"

definition keyBelow ::
  "('db, 'wb) badger \<Rightarrow> 'db \<Rightarrow> bytes \<Rightarrow> nat \<Rightarrow> bytes option" where
  "keyBelow B db maxPrefix n =
     (case seekReverse B db maxPrefix of
        None \<Rightarrow> None
      | Some k \<Rightarrow> if take n k = take n maxPrefix then Some k else None)"

definition GetBalanceForPublicKeyAtBlockHeightWithTxn ::
  "corelib \<Rightarrow> ('db, 'wb) badger \<Rightarrow> 'db \<Rightarrow> BalanceType \<Rightarrow> pubkey \<Rightarrow> u64 \<Rightarrow> u64 option" where
  "GetBalanceForPublicKeyAtBlockHeightWithTxn L B db balanceType publicKey blockHeight =
     (if \<not> publicKeyBalance balanceType then Some 0
      else
        do { maxPrefix \<leftarrow> balanceSnapshotKey L balanceType publicKey blockHeight MaxUint64;
             (case keyBelow B db maxPrefix (1 + length publicKey) of
                None \<Rightarrow> Some 0
              | Some keyFound \<Rightarrow>
                  map_option (DecodeUint64 L)
                    (sliceFrom (1 + length publicKey + length (EncodeUint64 L blockHeight)) keyFound)) })"

definition GetBalanceSnapshot ::
  "corelib \<Rightarrow> ('db, 'wb) badger \<Rightarrow> 'db \<Rightarrow> BalanceType \<Rightarrow> pubkey \<Rightarrow> u64 \<Rightarrow> u64 option" where
  "GetBalanceSnapshot L B db balanceType publicKey blockHeight =
     (if \<not> publicKeyBalance balanceType then Some 0
      else GetBalanceForPublicKeyAtBlockHeightWithTxn L B db balanceType publicKey blockHeight)"

definition GetLockedStakeBalanceForPublicKeyAtBlockHeightWithTxn ::
  "corelib \<Rightarrow> ('db, 'wb) badger \<Rightarrow> 'db \<Rightarrow> BalanceType \<Rightarrow> pkid \<Rightarrow> pkid \<Rightarrow> u64 \<Rightarrow> u64 \<Rightarrow> u64 option" where
  "GetLockedStakeBalanceForPublicKeyAtBlockHeightWithTxn L B db balanceType stakerPKID validatorPKID
       lockedAtEpoch blockHeight =
     (if balanceType \<noteq> LockedStakeDESOBalance then Some 0
      else
        do { maxPrefix \<leftarrow> lockedStakeBalanceSnapshotKey L balanceType stakerPKID validatorPKID
               lockedAtEpoch blockHeight MaxUint64;
             (case keyBelow B db maxPrefix (1 + length stakerPKID) of
                None \<Rightarrow> Some 0
              | Some keyFound \<Rightarrow>
                  map_option (DecodeUint64 L)
                    (sliceFrom (1 + length stakerPKID + length (EncodeUint64 L blockHeight)) keyFound)) })"

definition GetLockedStakeBalanceSnapshot ::
  "corelib \<Rightarrow> ('db, 'wb) badger \<Rightarrow> 'db \<Rightarrow> BalanceType \<Rightarrow> pkid \<Rightarrow> pkid \<Rightarrow> u64 \<Rightarrow> u64 \<Rightarrow> u64 option" where
  "GetLockedStakeBalanceSnapshot L B db balanceType stakerPKID validatorPKID lockedAtEpoch blockHeight =
     (if balanceType \<noteq> LockedStakeDESOBalance then Some 0
      else GetLockedStakeBalanceForPublicKeyAtBlockHeightWithTxn L B db balanceType stakerPKID
             validatorPKID lockedAtEpoch blockHeight)"

section \<open>Hypersync balances\<close>

text \<open>
  The encoder and decoder of \<open>encoding/gob\<close> for the two map types. Decoding fills a map and may
  stop with an error; the pair is what was filled and whether it succeeded.
\<close>

record gobCodec =
  gobEncodeBalances :: "(pubkey, u64) gomap \<Rightarrow> bytes option"
  gobDecodeBalances :: "bytes \<Rightarrow> (pubkey, u64) gomap \<times> bool"
  gobEncodeLocked :: "(LockedStakeBalanceMapKey, u64) gomap \<Rightarrow> bytes option"
  gobDecodeLocked :: "bytes \<Rightarrow> (LockedStakeBalanceMapKey, u64) gomap \<times> bool"

text \<open>Errors of the encoder and of \<open>Set\<close> are only logged.\<close>

definition PutHypersyncBlockBalancesWithWB ::
  "corelib \<Rightarrow> gobCodec \<Rightarrow> ('db, 'wb) badger \<Rightarrow> 'wb \<Rightarrow> u64 \<Rightarrow> BalanceType \<Rightarrow> (pubkey, u64) gomap \<Rightarrow> 'wb" where
  "PutHypersyncBlockBalancesWithWB L G B wb blockHeight balanceType balances =
     (if \<not> publicKeyBalance balanceType then wb
      else case gobEncodeBalances G balances of
             None \<Rightarrow> wb
           | Some blockBytes \<Rightarrow>
               fst (wbSet B wb (hypersyncHeightToBlockKey L blockHeight balanceType) blockBytes))"

definition PutHypersyncBlockLockedStakeBalancesWithWB ::
  "corelib \<Rightarrow> gobCodec \<Rightarrow> ('db, 'wb) badger \<Rightarrow> 'wb \<Rightarrow> u64 \<Rightarrow>
     (LockedStakeBalanceMapKey, u64) gomap \<Rightarrow> BalanceType \<Rightarrow> 'wb" where
  "PutHypersyncBlockLockedStakeBalancesWithWB L G B wb blockHeight stakeEntries balanceType =
     (if balanceType \<noteq> LockedStakeDESOBalance then wb
      else case gobEncodeLocked G stakeEntries of
             None \<Rightarrow> wb
           | Some blockBytes \<Rightarrow>
               fst (wbSet B wb (hypersyncHeightToBlockKey L blockHeight balanceType) blockBytes))"

text \<open>One of the four reads of \<open>GetHypersyncBlockBalances\<close>; a missing key leaves the map empty.\<close>

definition readGob ::
  "('db, 'wb) badger \<Rightarrow> 'db \<Rightarrow> (bytes \<Rightarrow> ('k, u64) gomap \<times> bool) \<Rightarrow> bytes \<Rightarrow> ('k, u64) gomap \<times> bool" where
  "readGob B db decode key =
     (case txnGet B db key of
        KeyNotFound \<Rightarrow> ([], True)
      | GetError \<Rightarrow> ([], False)
      | GetValue v \<Rightarrow> decode v)"

definition readNext :: "bool \<Rightarrow> ('k, u64) gomap \<times> bool \<Rightarrow> ('k, u64) gomap \<times> bool" where
  "readNext ok r = (if ok then r else ([], False))"

definition GetHypersyncBlockBalances ::
  "corelib \<Rightarrow> gobCodec \<Rightarrow> ('db, 'wb) badger \<Rightarrow> 'db \<Rightarrow> u64 \<Rightarrow>
     (pubkey, u64) gomap \<times> (pubkey, u64) gomap \<times> (pubkey, u64) gomap \<times>
     (LockedStakeBalanceMapKey, u64) gomap" where
  "GetHypersyncBlockBalances L G B db blockHeight =
     (let key = hypersyncHeightToBlockKey L blockHeight;
          (balances, ok) = readGob B db (gobDecodeBalances G) (key DESOBalance);
          (creatorCoinLockedBalances, ok) =
            readNext ok (readGob B db (gobDecodeBalances G) (key CreatorCoinLockedBalance));
          (validatorStakedDESOBalances, ok) =
            readNext ok (readGob B db (gobDecodeBalances G) (key ValidatorStakedDESOBalance));
          (lockedStakeDESOBalances, ok) =
            readNext ok (readGob B db (gobDecodeLocked G) (key LockedStakeDESOBalance))
      in (balances, creatorCoinLockedBalances, validatorStakedDESOBalances, lockedStakeDESOBalances))"

section \<open>The history behind the keys\<close>

text \<open>
  The abstraction: for a balance type and a public key, the set of (height, balance) pairs whose
  key is in the database. A reader of the index is promised the balance of the largest pair whose
  height is at most the height asked for, and 0 if there is none.
\<close>

definition snapshotsOf ::
  "corelib \<Rightarrow> (bytes \<rightharpoonup> bytes) \<Rightarrow> BalanceType \<Rightarrow> pubkey \<Rightarrow> (u64 \<times> u64) set" where
  "snapshotsOf L m balanceType pk =
     {(h, b). \<exists>k \<in> dom m. balanceSnapshotKey L balanceType pk h b = Some k}"

definition latest :: "(u64 \<times> u64) set \<Rightarrow> u64 \<Rightarrow> u64" where
  "latest S h =
     (if {s \<in> S. fst s \<le> h} = {} then 0 else snd (Max {s \<in> S. fst s \<le> h}))"

text \<open>
  The invariant of the database: a key that starts with the byte of a snapshot has the layout
  of one.
\<close>

definition snapshotPrefixes :: "u8 set" where
  "snapshotPrefixes =
     {PrefixBalanceSnapshots, PrefixLockedBalanceSnapshots, PrefixValidatorStakedBalanceSnapshots}"

definition wfKey :: "corelib \<Rightarrow> bytes \<Rightarrow> bool" where
  "wfKey L k \<longleftrightarrow>
     (hd k \<in> snapshotPrefixes \<longrightarrow>
        (\<exists>pk h b. length pk = 33 \<and> k = hd k # pk @ EncodeUint64 L h @ EncodeUint64 L b)) \<and>
     (hd k = PrefixLockedStakeBalanceSnapshots \<longrightarrow>
        (\<exists>s v e h b. length s = 33 \<and> length v = 33 \<and>
           k = hd k # s @ v @ EncodeUint64 L e @ EncodeUint64 L h @ EncodeUint64 L b))"

definition wfIndex :: "corelib \<Rightarrow> (bytes \<rightharpoonup> bytes) \<Rightarrow> bool" where
  "wfIndex L m \<longleftrightarrow> (\<forall>k \<in> dom m. wfKey L k)"

text \<open>The writes of \<open>putBalances\<close> and \<open>putLockedStakeBalances\<close> as a list.\<close>

definition snapshotWrites ::
  "corelib \<Rightarrow> u8 \<Rightarrow> u64 \<Rightarrow> (pubkey, u64) gomap \<Rightarrow> (bytes \<times> bytes) list" where
  "snapshotWrites L p h bals =
     map (\<lambda>(pk, b). (p # pk @ EncodeUint64 L h @ EncodeUint64 L b, [])) bals"

definition lockedWrites ::
  "corelib \<Rightarrow> u64 \<Rightarrow> (LockedStakeBalanceMapKey, u64) gomap \<Rightarrow> (bytes \<times> bytes) list" where
  "lockedWrites L h bals =
     map (\<lambda>(k, b). (PrefixLockedStakeBalanceSnapshots # mapStakerPKID k @ mapValidatorPKID k
        @ EncodeUint64 L (mapLockedAtEpochNumber k) @ EncodeUint64 L h @ EncodeUint64 L b, [])) bals"

lemma wfIndex_applyWrites:
  "wfIndex L m \<Longrightarrow> \<forall>k \<in> fst ` set ws. wfKey L k \<Longrightarrow> wfIndex L (applyWrites ws m)"
  by (auto simp: wfIndex_def dom_applyWrites)

lemma wfKey_snapshotWrites:
  assumes "p \<in> snapshotPrefixes" and "\<forall>pk \<in> fst ` set bals. length pk = 33"
  shows "\<forall>k \<in> fst ` set (snapshotWrites L p h bals). wfKey L k"
  using assms by (fastforce simp: wfKey_def snapshotWrites_def snapshotPrefixes_def index_consts)

lemma wfKey_lockedWrites:
  assumes "\<forall>k \<in> fst ` set bals. length (mapStakerPKID k) = 33 \<and> length (mapValidatorPKID k) = 33"
  shows "\<forall>k \<in> fst ` set (lockedWrites L h bals). wfKey L k"
  using assms by (fastforce simp: wfKey_def lockedWrites_def snapshotPrefixes_def index_consts)

lemma wfKey_hypersync [simp]: "wfKey L (hypersyncHeightToBlockKey L h t)"
  by (simp add: wfKey_def hypersyncHeightToBlockKey_def snapshotPrefixes_def index_consts)

lemma latest_eqI:
  assumes "(h', b) \<in> S" and "h' \<le> h"
    and "\<And>h'' b'. (h'', b') \<in> S \<Longrightarrow> h'' \<le> h \<Longrightarrow> h'' < h' \<or> (h'' = h' \<and> b' \<le> b)"
  shows "latest S h = b"
proof -
  have "Max {s \<in> S. fst s \<le> h} = (h', b)"
  proof (intro Max_eqI)
    fix s assume "s \<in> {s \<in> S. fst s \<le> h}"
    then show "s \<le> (h', b)"
      using assms(3) [of "fst s" "snd s"] by (auto simp: less_eq_prod_def)
  qed (use assms(1,2) in auto)
  then show ?thesis using assms(1,2) by (auto simp: latest_def)
qed

lemma latest_none: "\<forall>s \<in> S. \<not> fst s \<le> h \<Longrightarrow> latest S h = 0"
  by (auto simp: latest_def)

lemma latest_single: "latest {(n, b)} h = (if n \<le> h then b else 0)"
  by (auto intro: latest_eqI [of n] latest_none)

lemma latest_older: "\<forall>s \<in> T. h < fst s \<Longrightarrow> latest (S \<union> T) h = latest S h"
proof -
  assume "\<forall>s \<in> T. h < fst s"
  then have "{s \<in> S \<union> T. fst s \<le> h} = {s \<in> S. fst s \<le> h}" by auto
  then show ?thesis by (simp only: latest_def)
qed

lemma latest_newest:
  "\<forall>s \<in> S. fst s < n \<Longrightarrow> n \<le> h \<Longrightarrow> latest (S \<union> {(n, b)}) h = b"
  by (rule latest_eqI [of n]) auto

lemma latest_same_height:
  assumes "finite S" and b: "latest S h = b" and mem: "(h, b) \<in> S"
  shows "latest (S \<union> {(h, b')}) h = max b b'"
proof -
  let ?T = "{s \<in> S. fst s \<le> h}"
  have fin: "finite ?T" and ne: "?T \<noteq> {}" using assms by auto
  have "fst (Max ?T) \<le> h" using Max_in [OF fin ne] by blast
  moreover have "(h, b) \<le> Max ?T" using fin mem by simp
  moreover have "snd (Max ?T) = b" using b ne by (auto simp: latest_def split: if_splits)
  ultimately have max: "Max ?T = (h, b)" by (auto simp: less_eq_prod_def prod_eq_iff)
  have "{s \<in> S \<union> {(h, b')}. fst s \<le> h} = insert (h, b') ?T" by auto
  then show ?thesis using fin ne max by (auto simp: latest_def max_def less_eq_prod_def)
qed

lemma publicKeyBalance_cases:
  "publicKeyBalance t \<longleftrightarrow>
     t = DESOBalance \<or> t = CreatorCoinLockedBalance \<or> t = ValidatorStakedDESOBalance"
  by (auto simp: publicKeyBalance_def)

lemma BalanceTypePrefix_publicKey:
  assumes "publicKeyBalance t"
  shows "\<exists>p \<in> snapshotPrefixes. BalanceTypePrefix t = Some p"
  using assms by (auto simp: publicKeyBalance_cases BalanceTypePrefix_def snapshotPrefixes_def index_consts)

lemma BalanceTypePrefix_inj:
  "BalanceTypePrefix s = Some p \<Longrightarrow> BalanceTypePrefix t = Some p \<Longrightarrow> s = t"
  by (auto simp: BalanceTypePrefix_def index_consts split: if_splits)

locale index_store = core_library L + badger_store B kv pending
  for L :: corelib and B :: "('db, 'wb) badger" and kv :: "'db \<Rightarrow> bytes \<rightharpoonup> bytes"
    and pending :: "'wb \<Rightarrow> (bytes \<times> bytes) list"
begin

lemma keyBelow_spec:
  assumes "length q = n"
  shows "keyBelow B db (q @ x) n = Some k \<Longrightarrow>
      k \<in> dom (kv db) \<and> take n k = q \<and> k \<le> q @ x \<and>
      (\<forall>y \<in> dom (kv db). take n y = q \<longrightarrow> y \<le> q @ x \<longrightarrow> y \<le> k)"
    and "keyBelow B db (q @ x) n = None \<Longrightarrow>
      \<forall>y \<in> dom (kv db). take n y = q \<longrightarrow> \<not> y \<le> q @ x"
proof -
  assume "keyBelow B db (q @ x) n = Some k"
  then have "seekReverse B db (q @ x) = Some k" and "take n k = q"
    using assms by (auto simp: keyBelow_def split: option.splits if_splits)
  then show "k \<in> dom (kv db) \<and> take n k = q \<and> k \<le> q @ x \<and>
      (\<forall>y \<in> dom (kv db). take n y = q \<longrightarrow> y \<le> q @ x \<longrightarrow> y \<le> k)"
    using seek_Some [of db "q @ x" k] by blast
next
  assume none: "keyBelow B db (q @ x) n = None"
  show "\<forall>y \<in> dom (kv db). take n y = q \<longrightarrow> \<not> y \<le> q @ x"
  proof (cases "seekReverse B db (q @ x)")
    case None
    then show ?thesis using seek_None by blast
  next
    case (Some k)
    have other: "take (length q) k \<noteq> q"
      using none Some assms by (auto simp: keyBelow_def split: if_splits)
    show ?thesis
    proof (intro ballI impI notI)
      fix y assume y: "y \<in> dom (kv db)" "take n y = q" "y \<le> q @ x"
      then have "y \<le> k" using seek_Some [OF Some] by blast
      moreover have "y = q @ drop n y" using y(2) by (metis append_take_drop_id)
      moreover have "k < q @ drop n y"
        using less_of_other_prefix [OF _ other] seek_Some [OF Some] by blast
      ultimately show False by simp
    qed
  qed
qed

lemma snapshotsOf_iff:
  "BalanceTypePrefix t = Some p \<Longrightarrow>
     (h, b) \<in> snapshotsOf L m t pk \<longleftrightarrow> p # pk @ EncodeUint64 L h @ EncodeUint64 L b \<in> dom m"
  by (auto simp: snapshotsOf_def balanceSnapshotKey_def)

lemma finite_snapshotsOf:
  assumes "publicKeyBalance t" and "length pk = 33"
  shows "finite (snapshotsOf L (kv db) t pk)"
proof -
  obtain p where p: "BalanceTypePrefix t = Some p" using BalanceTypePrefix_publicKey [OF assms(1)] by blast
  have "snapshotsOf L (kv db) t pk \<subseteq>
      (\<lambda>k. (DecodeUint64 L (drop 34 k), DecodeUint64 L (drop 42 k))) ` dom (kv db)"
  proof clarify
    fix h b assume "(h, b) \<in> snapshotsOf L (kv db) t pk"
    then have "p # pk @ EncodeUint64 L h @ EncodeUint64 L b \<in> dom (kv db)"
      unfolding snapshotsOf_iff [OF p] .
    then show "(h, b) \<in> (\<lambda>k. (DecodeUint64 L (drop 34 k), DecodeUint64 L (drop 42 k))) ` dom (kv db)"
      using assms(2) by (intro image_eqI) auto
  qed
  then show ?thesis by (rule finite_subset) simp
qed

text \<open>The keys of an account that the reader reaches are its snapshots up to the height.\<close>

lemma wfIndex_key:
  assumes "wfIndex L m" and "y \<in> dom m" and "p \<in> snapshotPrefixes" and "length pk = 33"
    and "take 34 y = p # pk"
  shows "\<exists>h b. y = p # pk @ EncodeUint64 L h @ EncodeUint64 L b"
proof -
  have "hd y = p" using assms(5) by (cases y) auto
  then obtain pk' h b where pk': "length pk' = 33"
    and y: "y = p # pk' @ EncodeUint64 L h @ EncodeUint64 L b"
    using assms(1-3) unfolding wfIndex_def wfKey_def by metis
  then have "pk' = pk" using assms(4,5) by simp
  with y show ?thesis by blast
qed

lemma key_le_iff:
  assumes "length pk = 33"
  shows "p # pk @ EncodeUint64 L h @ EncodeUint64 L b \<le>
      (p # pk) @ EncodeUint64 L h' @ EncodeUint64 L b' \<longleftrightarrow> h < h' \<or> (h = h' \<and> b \<le> b')"
  by (simp add: uint64.encode_pair_le)

lemma MaxUint64_ge [simp]: "b \<le> MaxUint64"
  by (simp add: MaxUint64_def)

lemma get_balance_latest:
  assumes wf: "wfIndex L (kv db)" and t: "publicKeyBalance t" and pk: "length pk = 33"
  shows "GetBalanceSnapshot L B db t pk h = Some (latest (snapshotsOf L (kv db) t pk) h)"
proof -
  from BalanceTypePrefix_publicKey [OF t] obtain p where
    "p \<in> snapshotPrefixes" and "BalanceTypePrefix t = Some p" by (rule bexE)
  then have p: "BalanceTypePrefix t = Some p" "p \<in> snapshotPrefixes" by simp_all
  let ?S = "snapshotsOf L (kv db) t pk"
  let ?key = "\<lambda>h b. p # pk @ EncodeUint64 L h @ EncodeUint64 L b"
  let ?x = "EncodeUint64 L h @ EncodeUint64 L MaxUint64"
  have key: "(h', b) \<in> ?S \<longleftrightarrow> ?key h' b \<in> dom (kv db)" for h' b
    by (rule snapshotsOf_iff [OF p(1)])
  have le: "?key h' b \<le> (p # pk) @ ?x \<longleftrightarrow> h' \<le> h" for h' b
    unfolding key_le_iff [OF pk] by auto
  have n: "length (p # pk) = 34" using pk by simp
  have eq: "GetBalanceSnapshot L B db t pk h =
      (case keyBelow B db ((p # pk) @ ?x) 34 of
         None \<Rightarrow> Some 0 | Some k \<Rightarrow> map_option (DecodeUint64 L) (sliceFrom 42 k))"
    using t p pk
    by (simp add: GetBalanceSnapshot_def GetBalanceForPublicKeyAtBlockHeightWithTxn_def
        balanceSnapshotKey_def cong: option.case_cong)
  show ?thesis
  proof (cases "keyBelow B db ((p # pk) @ ?x) 34")
    case None
    have "\<not> h' \<le> h" if "(h', b) \<in> ?S" for h' b
    proof -
      have "take 34 (?key h' b) = p # pk" using pk by simp
      then have "\<not> ?key h' b \<le> (p # pk) @ ?x"
        using keyBelow_spec(2) [OF n None] that unfolding key by blast
      then show ?thesis unfolding le .
    qed
    then have "\<forall>s \<in> ?S. \<not> fst s \<le> h" by (metis prod.collapse)
    then show ?thesis using eq None by (simp add: latest_none)
  next
    case (Some k)
    note found = keyBelow_spec(1) [OF n Some]
    obtain h' b where k: "k = ?key h' b"
      using wfIndex_key [OF wf _ p(2) pk] found by blast
    have "latest ?S h = b"
    proof (rule latest_eqI)
      show "(h', b) \<in> ?S" using key found k by simp
      show "h' \<le> h" using le found k by simp
      fix h'' b' assume "(h'', b') \<in> ?S" and "h'' \<le> h"
      then have "?key h'' b' \<le> k" using found key le pk by simp
      then show "h'' < h' \<or> (h'' = h' \<and> b' \<le> b)"
        unfolding k using key_le_iff [OF pk] by simp
    qed
    moreover have "map_option (DecodeUint64 L) (sliceFrom 42 k) = Some b"
      using k pk by (simp add: sliceFrom_def uint64.length_encode)
    ultimately show ?thesis using eq Some by simp
  qed
qed

text \<open>What the writes put on a batch, and what the batch does to the history of an account.\<close>

lemma putBalances_pending:
  assumes "BalanceTypePrefix t = Some p"
  shows "putBalances L B wb h t bals = Some (wb', True) \<Longrightarrow>
    pending wb' = pending wb @ snapshotWrites L p h bals"
proof (induction bals arbitrary: wb)
  case (Cons x bals)
  obtain pk b where x: "x = (pk, b)" by force
  from Cons.prems obtain wb1 where
    set1: "wbSet B wb (p # pk @ EncodeUint64 L h @ EncodeUint64 L b) [] = (wb1, True)"
    and rest: "putBalances L B wb1 h t bals = Some (wb', True)"
    using assms by (auto simp: x balanceSnapshotKey_def split: prod.splits bool.splits)
  show ?case using Cons.IH [OF rest] pending_set [OF set1] by (simp add: x snapshotWrites_def)
qed (simp add: snapshotWrites_def)

lemma putLockedStakeBalances_pending:
  "putLockedStakeBalances L B wb h LockedStakeDESOBalance bals = Some (wb', True) \<Longrightarrow>
    pending wb' = pending wb @ lockedWrites L h bals"
proof (induction bals arbitrary: wb)
  case (Cons x bals)
  obtain k b where x: "x = (k, b)" by force
  have p: "BalanceTypePrefix LockedStakeDESOBalance = Some PrefixLockedStakeBalanceSnapshots"
    by (simp add: BalanceTypePrefix_def index_consts)
  from Cons.prems obtain wb1 where
    set1: "wbSet B wb (PrefixLockedStakeBalanceSnapshots # mapStakerPKID k @ mapValidatorPKID k
        @ EncodeUint64 L (mapLockedAtEpochNumber k) @ EncodeUint64 L h @ EncodeUint64 L b) []
      = (wb1, True)"
    and rest: "putLockedStakeBalances L B wb1 h LockedStakeDESOBalance bals = Some (wb', True)"
    using p by (auto simp: x lockedStakeBalanceSnapshotKey_def split: prod.splits bool.splits)
  show ?case using Cons.IH [OF rest] pending_set [OF set1] by (simp add: x lockedWrites_def)
qed (simp add: lockedWrites_def)

lemma snapshotsOf_snapshotWrites:
  assumes p: "BalanceTypePrefix t = Some p" and len: "\<forall>k \<in> fst ` set bals. length k = 33"
    and pk: "length pk = 33"
  shows "snapshotsOf L (applyWrites (snapshotWrites L p h bals) m) t pk =
    snapshotsOf L m t pk \<union> {(h, b) | b. (pk, b) \<in> set bals}"
proof -
  have "(h', b) \<in> snapshotsOf L (applyWrites (snapshotWrites L p h bals) m) t pk \<longleftrightarrow>
    (h', b) \<in> snapshotsOf L m t pk \<or> (h' = h \<and> (pk, b) \<in> set bals)" for h' b
    unfolding snapshotsOf_iff [OF p] dom_applyWrites
    using len pk by (force simp: snapshotWrites_def image_iff)
  then show ?thesis by auto
qed

lemma snapshotsOf_other:
  assumes p: "BalanceTypePrefix t = Some p" and "\<forall>k \<in> fst ` set ws. hd k \<noteq> p"
  shows "snapshotsOf L (applyWrites ws m) t pk = snapshotsOf L m t pk"
proof -
  have "(h', b) \<in> snapshotsOf L (applyWrites ws m) t pk \<longleftrightarrow> (h', b) \<in> snapshotsOf L m t pk" for h' b
    unfolding snapshotsOf_iff [OF p] dom_applyWrites using assms(2) by force
  then show ?thesis by auto
qed

text \<open>A flushed batch of snapshots: the history of every account of that type, and of no other.\<close>

lemma flushed_snapshots:
  assumes t: "publicKeyBalance t" and len: "\<forall>k \<in> fst ` set bals. length k = 33"
    and put: "PutBalanceSnapshotWithWB L B (NewWriteBatch B db) h t bals = Some (wb, True)"
    and flush: "wbFlush B wb db = (db', True)"
  shows "wfIndex L (kv db) \<Longrightarrow> wfIndex L (kv db')"
    and "length pk = 33 \<Longrightarrow> snapshotsOf L (kv db') t pk =
      snapshotsOf L (kv db) t pk \<union> {(h, b) | b. (pk, b) \<in> set bals}"
    and "t' \<noteq> t \<Longrightarrow> publicKeyBalance t' \<Longrightarrow>
      snapshotsOf L (kv db') t' pk = snapshotsOf L (kv db) t' pk"
proof -
  obtain p where p: "p \<in> snapshotPrefixes" "BalanceTypePrefix t = Some p"
    using BalanceTypePrefix_publicKey [OF t] by blast
  have kv': "kv db' = applyWrites (snapshotWrites L p h bals) (kv db)"
    using putBalances_pending [OF p(2)] put t kv_flush [OF flush]
    by (simp add: PutBalanceSnapshotWithWB_def)
  show "wfIndex L (kv db) \<Longrightarrow> wfIndex L (kv db')"
    unfolding kv' by (rule wfIndex_applyWrites [OF _ wfKey_snapshotWrites [OF p(1) len]])
  show "length pk = 33 \<Longrightarrow> snapshotsOf L (kv db') t pk =
      snapshotsOf L (kv db) t pk \<union> {(h, b) | b. (pk, b) \<in> set bals}"
    unfolding kv' by (rule snapshotsOf_snapshotWrites [OF p(2) len])
  assume "t' \<noteq> t" "publicKeyBalance t'"
  then obtain p' where p': "BalanceTypePrefix t' = Some p'" "p' \<noteq> p"
    using BalanceTypePrefix_publicKey [of t'] BalanceTypePrefix_inj [OF p(2)] by metis
  then show "snapshotsOf L (kv db') t' pk = snapshotsOf L (kv db) t' pk"
    unfolding kv' by (intro snapshotsOf_other) (auto simp: snapshotWrites_def)
qed

lemma latest_put:
  assumes dist: "distinct (map fst bals)" and old: "\<forall>s \<in> S. fst s < h \<or> pk \<notin> fst ` set bals"
  shows "latest (S \<union> {(h, b) | b. (pk, b) \<in> set bals}) h' =
    (case map_of bals pk of Some b \<Rightarrow> if h \<le> h' then b else latest S h' | None \<Rightarrow> latest S h')"
proof (cases "map_of bals pk")
  case None
  then have "{(h, b) | b. (pk, b) \<in> set bals} = {}" by (force simp: map_of_eq_None_iff)
  then show ?thesis using None by simp
next
  case (Some b)
  then have "pk \<in> fst ` set bals" by (metis map_of_SomeD fst_conv image_eqI)
  then have old': "\<forall>s \<in> S. fst s < h" using old by blast
  have new: "{(h, b) | b. (pk, b) \<in> set bals} = {(h, b)}"
    using map_of_eq_Some_iff [OF dist, of pk] Some by (simp add: set_eq_iff) metis
  show ?thesis using Some latest_newest [OF old'] latest_older [of "{(h, b)}" h' S] by (simp add: new)
qed

text \<open>A key with the prefix of a staker is a snapshot of that staker with some validator, of whose PKID
  the locked-stake lookup decodes bytes.\<close>

lemma locked_key_found:
  assumes wf: "wfIndex L m" and k: "k \<in> dom m"
    and pre: "take 34 k = PrefixLockedStakeBalanceSnapshots # s" and s: "length s = 33"
  shows "\<exists>v e h b. length v = 33 \<and> lockedStakeBalanceSnapshotKey L LockedStakeDESOBalance s v e h b = Some k \<and>
    map_option (DecodeUint64 L) (sliceFrom 42 k) = Some (DecodeUint64 L (take 8 (drop 8 v)))"
proof -
  have hd: "hd k = PrefixLockedStakeBalanceSnapshots" using pre by (cases k) auto
  obtain s' v e h b where len: "length s' = 33" "length v = 33"
    and eq: "k = hd k # s' @ v @ EncodeUint64 L e @ EncodeUint64 L h @ EncodeUint64 L b"
    using wf k hd unfolding wfIndex_def wfKey_def by meson
  let ?r = "EncodeUint64 L e @ EncodeUint64 L h @ EncodeUint64 L b"
  have "s' = s" using pre len s by (subst (asm) eq) simp
  then have key: "lockedStakeBalanceSnapshotKey L LockedStakeDESOBalance s v e h b = Some k"
    using eq hd by (simp add: lockedStakeBalanceSnapshotKey_def BalanceTypePrefix_def index_consts)
  have "sliceFrom 42 k = Some (drop 8 v @ ?r)"
    using len by (subst eq) (simp add: sliceFrom_def)
  moreover have "DecodeUint64 L (drop 8 v @ ?r) = DecodeUint64 L (take 8 (drop 8 v))"
    using uint64.decode_take [of "drop 8 v @ ?r"] len by simp
  ultimately show ?thesis using len(2) key by (intro exI [of _ v] exI [of _ e] exI [of _ h] exI [of _ b]) simp
qed

lemma take_lockedKey:
  "lockedStakeBalanceSnapshotKey L LockedStakeDESOBalance s v e h b = Some k \<Longrightarrow> length s = 33 \<Longrightarrow>
     take 34 k = PrefixLockedStakeBalanceSnapshots # s"
  by (auto simp: lockedStakeBalanceSnapshotKey_def BalanceTypePrefix_def index_consts)

end

section \<open>Laws of the gob codec\<close>

text \<open>
  Decoding what the encoder wrote, into an empty map, gives a map with the same entries; the
  order of a Go map is not promised. Whatever is decoded, a map has distinct keys, and a public key
  is an array of 33 bytes.
\<close>

definition lockedKeyLengths :: "LockedStakeBalanceMapKey \<Rightarrow> bool" where
  "lockedKeyLengths k \<longleftrightarrow> length (mapStakerPKID k) = 33 \<and> length (mapValidatorPKID k) = 33"

locale gob_codec =
  fixes G :: gobCodec
  assumes decode_balances:
      "gobEncodeBalances G m = Some bs \<Longrightarrow> \<forall>k \<in> fst ` set m. length k = 33 \<Longrightarrow>
         snd (gobDecodeBalances G bs) \<and> map_of (fst (gobDecodeBalances G bs)) = map_of m"
    and decode_locked:
      "gobEncodeLocked G m' = Some bs \<Longrightarrow> \<forall>k \<in> fst ` set m'. lockedKeyLengths k \<Longrightarrow>
         snd (gobDecodeLocked G bs) \<and> map_of (fst (gobDecodeLocked G bs)) = map_of m'"
    and distinct_balances: "distinct (map fst (fst (gobDecodeBalances G bs)))"
    and length_balances: "k \<in> fst ` set (fst (gobDecodeBalances G bs)) \<Longrightarrow> length k = 33"
    and distinct_locked: "distinct (map fst (fst (gobDecodeLocked G bs)))"

text \<open>A reference codec: entries of a fixed width one after another.\<close>

function chunks :: "nat \<Rightarrow> bytes \<Rightarrow> bytes list" where
  "chunks n bs = (if n = 0 \<or> bs = [] then [] else take n bs # chunks n (drop n bs))"
  by pat_completeness auto
termination by (relation "measure (length \<circ> snd)") auto

declare chunks.simps [simp del]

lemma chunks_concat:
  "0 < n \<Longrightarrow> \<forall>x \<in> set xs. length (f x) = n \<Longrightarrow> chunks n (concat (map f xs)) = map f xs"
proof (induction xs)
  case (Cons x xs)
  then have "f x \<noteq> []" and "take n (f x) = f x" and "drop n (f x) = []" by auto
  then show ?case using Cons by (subst chunks.simps) simp
qed (simp add: chunks.simps)

definition refGob :: gobCodec where
  "refGob =
     \<lparr>gobEncodeBalances = (\<lambda>m. Some (concat (map (\<lambda>(k, v). k @ PutUint64 v) m))),
      gobDecodeBalances = (\<lambda>bs.
        (AList.clearjunk (map (\<lambda>c. (copyArray 33 c, BigEndianUint64 (drop 33 c))) (chunks 41 bs)), True)),
      gobEncodeLocked = (\<lambda>m. Some (concat (map (\<lambda>(k, v). mapStakerPKID k @ mapValidatorPKID k
         @ PutUint64 (mapLockedAtEpochNumber k) @ PutUint64 v) m))),
      gobDecodeLocked = (\<lambda>bs. (AList.clearjunk (map (\<lambda>c. (\<lparr>mapStakerPKID = take 33 c,
         mapValidatorPKID = take 33 (drop 33 c), mapLockedAtEpochNumber = BigEndianUint64 (drop 66 c)\<rparr>,
         BigEndianUint64 (drop 74 c))) (chunks 82 bs)), True))\<rparr>"

interpretation refGob: gob_codec refGob
proof
  fix m :: "(pubkey, u64) gomap" and bs
  assume enc: "gobEncodeBalances refGob m = Some bs" and len: "\<forall>k \<in> fst ` set m. length k = 33"
  from enc have bs: "bs = concat (map (\<lambda>(k, v). k @ PutUint64 v) m)" by (simp add: refGob_def)
  have "chunks 41 bs = map (\<lambda>(k, v). k @ PutUint64 v) m"
    unfolding bs by (rule chunks_concat) (use len in auto)
  then have "map (\<lambda>c. (copyArray 33 c, BigEndianUint64 (drop 33 c))) (chunks 41 bs) = m"
    using len by (auto simp: copyArray_def intro!: map_idI)
  then have "gobDecodeBalances refGob bs = (AList.clearjunk m, True)" by (simp add: refGob_def)
  then show "snd (gobDecodeBalances refGob bs) \<and> map_of (fst (gobDecodeBalances refGob bs)) = map_of m"
    by (simp add: map_of_clearjunk)
next
  fix m :: "(LockedStakeBalanceMapKey, u64) gomap" and bs
  assume enc: "gobEncodeLocked refGob m = Some bs" and len: "\<forall>k \<in> fst ` set m. lockedKeyLengths k"
  let ?f = "\<lambda>(k, v). mapStakerPKID k @ mapValidatorPKID k
         @ PutUint64 (mapLockedAtEpochNumber k) @ PutUint64 v"
  from enc have bs: "bs = concat (map ?f m)" by (simp add: refGob_def)
  have "chunks 82 bs = map ?f m"
    unfolding bs by (rule chunks_concat) (use len in \<open>auto simp: lockedKeyLengths_def\<close>)
  then have "map (\<lambda>c. (\<lparr>mapStakerPKID = take 33 c, mapValidatorPKID = take 33 (drop 33 c),
      mapLockedAtEpochNumber = BigEndianUint64 (drop 66 c)\<rparr>, BigEndianUint64 (drop 74 c))) (chunks 82 bs) = m"
    using len by (auto simp: lockedKeyLengths_def intro!: map_idI)
  then have "gobDecodeLocked refGob bs = (AList.clearjunk m, True)" by (simp add: refGob_def)
  then show "snd (gobDecodeLocked refGob bs) \<and> map_of (fst (gobDecodeLocked refGob bs)) = map_of m"
    by (simp add: map_of_clearjunk)
next
  fix bs
  show "distinct (map fst (fst (gobDecodeBalances refGob bs)))"
    "distinct (map fst (fst (gobDecodeLocked refGob bs)))"
    by (simp_all add: refGob_def distinct_clearjunk)
next
  fix k bs assume "k \<in> fst ` set (fst (gobDecodeBalances refGob bs))"
  then show "length k = 33" by (auto simp: refGob_def dom_clearjunk)
qed

section \<open>The balances of the hypersync blocks\<close>

text \<open>
  The abstraction: for a height, one map per balance type, empty where no key is stored.
  \<open>hypersyncDecodes\<close> is the invariant that what is stored decodes.
\<close>

definition hypersyncAt ::
  "corelib \<Rightarrow> gobCodec \<Rightarrow> (bytes \<rightharpoonup> bytes) \<Rightarrow> u64 \<Rightarrow> BalanceType \<Rightarrow> (pubkey \<rightharpoonup> u64)" where
  "hypersyncAt L G m h t =
     (case m (hypersyncHeightToBlockKey L h t) of
        None \<Rightarrow> Map.empty | Some v \<Rightarrow> map_of (fst (gobDecodeBalances G v)))"

definition hypersyncLockedAt ::
  "corelib \<Rightarrow> gobCodec \<Rightarrow> (bytes \<rightharpoonup> bytes) \<Rightarrow> u64 \<Rightarrow> (LockedStakeBalanceMapKey \<rightharpoonup> u64)" where
  "hypersyncLockedAt L G m h =
     (case m (hypersyncHeightToBlockKey L h LockedStakeDESOBalance) of
        None \<Rightarrow> Map.empty | Some v \<Rightarrow> map_of (fst (gobDecodeLocked G v)))"

definition hypersyncDecodes :: "corelib \<Rightarrow> gobCodec \<Rightarrow> (bytes \<rightharpoonup> bytes) \<Rightarrow> bool" where
  "hypersyncDecodes L G m \<longleftrightarrow>
     (\<forall>h t v. m (hypersyncHeightToBlockKey L h t) = Some v \<longrightarrow>
        (publicKeyBalance t \<longrightarrow> snd (gobDecodeBalances G v)) \<and>
        (t = LockedStakeDESOBalance \<longrightarrow> snd (gobDecodeLocked G v)))"

locale hypersync_store = index_store L B kv pending + reliable_store B kv pending + gob_codec G
  for L :: corelib and B :: "('db, 'wb) badger" and kv :: "'db \<Rightarrow> bytes \<rightharpoonup> bytes"
    and pending :: "'wb \<Rightarrow> (bytes \<times> bytes) list" and G :: gobCodec
begin

lemma hypersync_key_inj [simp]:
  "hypersyncHeightToBlockKey L h t = hypersyncHeightToBlockKey L h' t' \<longleftrightarrow> h = h' \<and> t = t'"
  by (simp add: hypersyncHeightToBlockKey_def)

lemma readGob_eq:
  "readGob B db dec k = (case kv db k of None \<Rightarrow> ([], True) | Some v \<Rightarrow> dec v)"
  by (simp add: readGob_def get_eq split: option.split)

lemma GetHypersyncBlockBalances_refines:
  assumes dec: "hypersyncDecodes L G (kv db)"
    and get: "GetHypersyncBlockBalances L G B db h = (a, b, c, d)"
  shows "map_of a = hypersyncAt L G (kv db) h DESOBalance"
    and "map_of b = hypersyncAt L G (kv db) h CreatorCoinLockedBalance"
    and "map_of c = hypersyncAt L G (kv db) h ValidatorStakedDESOBalance"
    and "map_of d = hypersyncLockedAt L G (kv db) h"
proof -
  let ?k = "hypersyncHeightToBlockKey L h"
  let ?r = "\<lambda>t. readGob B db (gobDecodeBalances G) (?k t)"
  let ?l = "readGob B db (gobDecodeLocked G) (?k LockedStakeDESOBalance)"
  have ok: "snd (?r t)" if "publicKeyBalance t" for t
    using dec that by (auto simp: readGob_eq hypersyncDecodes_def split: option.split)
  have abs: "map_of (fst (?r t)) = hypersyncAt L G (kv db) h t" for t
    by (simp add: readGob_eq hypersyncAt_def split: option.split)
  have absl: "map_of (fst ?l) = hypersyncLockedAt L G (kv db) h"
    by (simp add: readGob_eq hypersyncLockedAt_def split: option.split)
  have oks: "snd (?r DESOBalance)" "snd (?r CreatorCoinLockedBalance)"
    "snd (?r ValidatorStakedDESOBalance)" by (rule ok, simp add: publicKeyBalance_cases)+
  have "a = fst (?r DESOBalance) \<and> b = fst (?r CreatorCoinLockedBalance) \<and>
      c = fst (?r ValidatorStakedDESOBalance) \<and> d = fst ?l"
    using get oks unfolding GetHypersyncBlockBalances_def Let_def readNext_def
    by (auto split: prod.splits)
  then show "map_of a = hypersyncAt L G (kv db) h DESOBalance"
    "map_of b = hypersyncAt L G (kv db) h CreatorCoinLockedBalance"
    "map_of c = hypersyncAt L G (kv db) h ValidatorStakedDESOBalance"
    "map_of d = hypersyncLockedAt L G (kv db) h" using abs absl by auto
qed

lemma GetHypersyncBlockBalances_keys:
  assumes "GetHypersyncBlockBalances L G B db h = (a, b, c, d)"
  shows "distinct (map fst a)" "distinct (map fst b)" "distinct (map fst c)" "distinct (map fst d)"
    and "\<forall>k \<in> fst ` set c. length k = 33"
proof -
  have r: "distinct (map fst (fst (readGob B db (gobDecodeBalances G) k)))"
    "distinct (map fst (fst (readNext ok (readGob B db (gobDecodeBalances G) k))))"
    "distinct (map fst (fst (readNext ok (readGob B db (gobDecodeLocked G) k))))"
    "\<forall>k \<in> fst ` set (fst (readNext ok (readGob B db (gobDecodeBalances G) k))). length k = 33" for k ok
    using length_balances
    by (auto simp: readGob_eq readNext_def distinct_balances distinct_locked split: option.split)
  show "distinct (map fst a)" "distinct (map fst b)" "distinct (map fst c)" "distinct (map fst d)"
    "\<forall>k \<in> fst ` set c. length k = 33"
    using assms r unfolding GetHypersyncBlockBalances_def Let_def
    by (auto split: prod.splits) (metis fst_conv)+
qed

lemma kv_put_balances:
  assumes "publicKeyBalance t" and "gobEncodeBalances G bal = Some bs"
    and "wbFlush B (PutHypersyncBlockBalancesWithWB L G B (NewWriteBatch B db) h t bal) db = (db', ok)"
  shows "kv db' = (kv db)(hypersyncHeightToBlockKey L h t \<mapsto> bs)"
proof -
  have db': "db' = fst (wbFlush B (PutHypersyncBlockBalancesWithWB L G B (NewWriteBatch B db) h t bal) db)"
    using assms(3) by simp
  show ?thesis
    unfolding db' using assms(1,2) by (simp add: PutHypersyncBlockBalancesWithWB_def applyWrites_def)
qed

lemma kv_put_locked:
  assumes "gobEncodeLocked G bal = Some bs"
    and "wbFlush B (PutHypersyncBlockLockedStakeBalancesWithWB L G B (NewWriteBatch B db) h bal
      LockedStakeDESOBalance) db = (db', ok)"
  shows "kv db' = (kv db)(hypersyncHeightToBlockKey L h LockedStakeDESOBalance \<mapsto> bs)"
proof -
  have db': "db' = fst (wbFlush B (PutHypersyncBlockLockedStakeBalancesWithWB L G B
      (NewWriteBatch B db) h bal LockedStakeDESOBalance) db)"
    using assms(2) by simp
  show ?thesis
    unfolding db' using assms(1)
    by (simp add: PutHypersyncBlockLockedStakeBalancesWithWB_def applyWrites_def)
qed

text \<open>One write replaces one map of one height.\<close>

lemma hypersyncAt_put:
  assumes "gobEncodeBalances G bal = Some bs" and "\<forall>k \<in> fst ` set bal. length k = 33"
  shows "hypersyncAt L G (m(hypersyncHeightToBlockKey L h t \<mapsto> bs)) h' t' =
    (if h' = h \<and> t' = t then map_of bal else hypersyncAt L G m h' t')"
  using decode_balances [OF assms] by (auto simp: hypersyncAt_def)

lemma hypersyncLockedAt_put:
  assumes "gobEncodeLocked G bal = Some bs" and "\<forall>k \<in> fst ` set bal. lockedKeyLengths k"
  shows "hypersyncLockedAt L G (m(hypersyncHeightToBlockKey L h LockedStakeDESOBalance \<mapsto> bs)) h' =
    (if h' = h then map_of bal else hypersyncLockedAt L G m h')"
  using decode_locked [OF assms] by (auto simp: hypersyncLockedAt_def)

lemma hypersyncDecodes_put:
  assumes "hypersyncDecodes L G m" and "gobEncodeBalances G bal = Some bs"
    and "\<forall>k \<in> fst ` set bal. length k = 33" and "publicKeyBalance t"
  shows "hypersyncDecodes L G (m(hypersyncHeightToBlockKey L h t \<mapsto> bs))"
  using assms decode_balances [OF assms(2,3)]
  by (auto simp: hypersyncDecodes_def publicKeyBalance_cases index_consts)

lemma hypersyncDecodes_put_locked:
  assumes "hypersyncDecodes L G m" and "gobEncodeLocked G bal = Some bs"
    and "\<forall>k \<in> fst ` set bal. lockedKeyLengths k"
  shows "hypersyncDecodes L G (m(hypersyncHeightToBlockKey L h LockedStakeDESOBalance \<mapsto> bs))"
  using assms decode_locked [OF assms(2,3)]
  by (auto simp: hypersyncDecodes_def publicKeyBalance_cases index_consts)

end

interpretation memory_index: hypersync_store refLib memStore map_of "\<lambda>wb. wb" refGob ..

text \<open>A small database for the witnesses: one snapshot of one account.\<close>

definition examplePk :: pubkey where "examplePk = replicate 33 7"

definition exampleDBAt :: "u64 \<Rightarrow> memDB" where
  "exampleDBAt h = rev (snapshotWrites refLib PrefixBalanceSnapshots h [(examplePk, 100)])"

definition exampleDB :: memDB where
  "exampleDB = exampleDBAt 5"

lemma example_length [simp]: "length examplePk = 33"
  by (simp add: examplePk_def)

lemma DESOBalance_prefix:
  "publicKeyBalance DESOBalance" "BalanceTypePrefix DESOBalance = Some PrefixBalanceSnapshots"
  by (simp_all add: publicKeyBalance_def BalanceTypePrefix_def)

lemma map_of_exampleDBAt:
  "map_of (exampleDBAt h) = applyWrites (snapshotWrites refLib PrefixBalanceSnapshots h [(examplePk, 100)]) Map.empty"
  by (simp add: exampleDBAt_def applyWrites_def)

lemma wfIndex_exampleDBAt: "wfIndex refLib (map_of (exampleDBAt h))"
  unfolding map_of_exampleDBAt
  by (rule wfIndex_applyWrites [OF _ wfKey_snapshotWrites])
    (simp_all add: wfIndex_def snapshotPrefixes_def)

lemma snapshotsOf_exampleDBAt: "snapshotsOf refLib (map_of (exampleDBAt h)) DESOBalance examplePk = {(h, 100)}"
proof -
  have "snapshotsOf refLib Map.empty DESOBalance examplePk = {}" by (simp add: snapshotsOf_def)
  then show ?thesis
    unfolding map_of_exampleDBAt
    by (subst memory_index.snapshotsOf_snapshotWrites [OF DESOBalance_prefix(2)]) simp_all
qed

lemma map_of_exampleDB:
  "map_of exampleDB = applyWrites (snapshotWrites refLib PrefixBalanceSnapshots 5 [(examplePk, 100)]) Map.empty"
  by (simp add: exampleDB_def map_of_exampleDBAt)

lemma wfIndex_exampleDB: "wfIndex refLib (map_of exampleDB)"
  unfolding exampleDB_def by (rule wfIndex_exampleDBAt)

lemma snapshotsOf_exampleDB: "snapshotsOf refLib (map_of exampleDB) DESOBalance examplePk = {(5, 100)}"
  unfolding exampleDB_def by (rule snapshotsOf_exampleDBAt)

lemma put_example:
  "PutBalanceSnapshotWithWB refLib memStore (NewWriteBatch memStore db) h DESOBalance
      [(examplePk, b)] = Some (snapshotWrites refLib PrefixBalanceSnapshots h [(examplePk, b)], True)"
  by (simp add: PutBalanceSnapshotWithWB_def DESOBalance_prefix balanceSnapshotKey_def snapshotWrites_def)

text \<open>One locked stake of balance 100, and what the lookup of it returns.\<close>

definition exampleStakes :: "(LockedStakeBalanceMapKey, u64) gomap" where
  "exampleStakes =
     [(\<lparr>mapStakerPKID = replicate 33 7, mapValidatorPKID = replicate 33 9, mapLockedAtEpochNumber = 3\<rparr>, 100)]"

definition exampleLockedDB :: memDB where
  "exampleLockedDB = rev (lockedWrites refLib 5
     [(\<lparr>mapStakerPKID = replicate 33 7, mapValidatorPKID = replicate 33 9, mapLockedAtEpochNumber = 3\<rparr>, 100)])"

lemma wfIndex_exampleLockedDB: "wfIndex refLib (map_of exampleLockedDB)"
proof -
  have "map_of exampleLockedDB = applyWrites (lockedWrites refLib 5
     [(\<lparr>mapStakerPKID = replicate 33 7, mapValidatorPKID = replicate 33 9, mapLockedAtEpochNumber = 3\<rparr>, 100)])
     Map.empty"
    by (simp add: exampleLockedDB_def applyWrites_def)
  then show ?thesis
    by (simp only:) (rule wfIndex_applyWrites [OF _ wfKey_lockedWrites], simp_all add: wfIndex_def)
qed

lemma example_word: "BigEndianUint64 (replicate 25 9 @ bs) = 0x0909090909090909"
proof -
  have eight: "take 8 (replicate 25 (9 :: u8) @ bs) = [9, 9, 9, 9, 9, 9, 9, 9]"
    by (simp add: numeral_eq_Suc)
  show ?thesis unfolding BigEndianUint64_def eight by simp
qed

lemma exampleLockedDB_lookup:
  "GetLockedStakeBalanceSnapshot refLib memStore exampleLockedDB LockedStakeDESOBalance
      (replicate 33 7) (replicate 33 9) 3 6 = Some 0x0909090909090909"
  by (simp add: GetLockedStakeBalanceSnapshot_def lockedStakeBalanceSnapshotKey_def
        GetLockedStakeBalanceForPublicKeyAtBlockHeightWithTxn_def BalanceTypePrefix_def index_consts
        exampleLockedDB_def lockedWrites_def keyBelow_def memSeek_def sliceFrom_def example_word
        append_less_same_length)

section \<open>Properties\<close>

text \<open>C4: A balance read at a height is the balance of the last snapshot of that account, and of
  that balance type only, written at or below the height; it is 0 when there is none. The read
  never panics on a well-formed index, whatever other accounts and heights are stored.\<close>

theorem balance_snapshot_is_latest:
  assumes "index_store L B kv pending" and "wfIndex L (kv db)" and "publicKeyBalance t"
    and "length pk = 33"
  shows "GetBalanceSnapshot L B db t pk h = Some (latest (snapshotsOf L (kv db) t pk) h)"
  by (rule index_store.get_balance_latest [OF assms])

theorem balance_snapshot_is_latest_witness:
  "GetBalanceSnapshot refLib memStore exampleDB DESOBalance examplePk 9 = Some 100"
  using balance_snapshot_is_latest [OF memory_index.index_store_axioms wfIndex_exampleDB
      DESOBalance_prefix(1) example_length, of 9]
  by (simp add: snapshotsOf_exampleDB latest_single)

text \<open>C18: Writing the balances of a block and flushing the batch makes every account of the block
  read its new balance at the height of the block and above; below it, and for the accounts the
  block does not name and the other balance types, every read is what it was. Needs that no snapshot
  of the written accounts is at that height or above.\<close>

theorem written_balances_are_read:
  assumes "index_store L B kv pending" and "wfIndex L (kv db)" and "publicKeyBalance t"
    and "\<forall>k \<in> fst ` set bals. length k = 33" and "distinct (map fst bals)"
    and "\<forall>k \<in> fst ` set bals. \<forall>s \<in> snapshotsOf L (kv db) t k. fst s < h"
    and "PutBalanceSnapshotWithWB L B (NewWriteBatch B db) h t bals = Some (wb, True)"
    and "wbFlush B wb db = (db', True)" and "length pk = 33" and "publicKeyBalance t'"
  shows "wfIndex L (kv db') \<and>
    GetBalanceSnapshot L B db' t' pk h' =
      (case map_of bals pk of
         Some b \<Rightarrow> if t' = t \<and> h \<le> h' then Some b else GetBalanceSnapshot L B db t' pk h'
       | None \<Rightarrow> GetBalanceSnapshot L B db t' pk h')"
proof -
  note flushed = index_store.flushed_snapshots [OF assms(1,3,4,7,8)]
  note read = index_store.get_balance_latest [OF assms(1) _ assms(10,9)]
  have wf: "wfIndex L (kv db')" by (rule flushed(1) [OF assms(2)])
  have old: "\<forall>s \<in> snapshotsOf L (kv db) t pk. fst s < h \<or> pk \<notin> fst ` set bals"
    using assms(6) by blast
  show ?thesis
  proof (cases "t' = t")
    case True
    then show ?thesis unfolding read [OF wf] read [OF assms(2)] unfolding True flushed(2) [OF assms(9)]
      using wf index_store.latest_put [OF assms(1,5) old] by (simp split: option.split)
  next
    case False
    then show ?thesis unfolding read [OF wf] read [OF assms(2)]
      using wf flushed(3) [OF False assms(10)] by (simp split: option.split)
  qed
qed

theorem written_balances_are_read_witness:
  "let db = rev (snapshotWrites refLib PrefixBalanceSnapshots 8 [(examplePk, 40)]) @ exampleDB
   in GetBalanceSnapshot refLib memStore db DESOBalance examplePk 9 = Some 40 \<and>
      GetBalanceSnapshot refLib memStore db DESOBalance examplePk 7 =
        GetBalanceSnapshot refLib memStore exampleDB DESOBalance examplePk 7"
  using written_balances_are_read [OF memory_index.index_store_axioms wfIndex_exampleDB
      DESOBalance_prefix(1) _ _ _ put_example memStore_sel(3) example_length DESOBalance_prefix(1),
      of 40 8 9]
    written_balances_are_read [OF memory_index.index_store_axioms wfIndex_exampleDB
      DESOBalance_prefix(1) _ _ _ put_example memStore_sel(3) example_length DESOBalance_prefix(1),
      of 40 8 7]
  by (simp add: snapshotsOf_exampleDB Let_def)

lemma PutSingle_singleton:
  "PutSingleBalanceSnapshotWithWB L B wb h t pk b = PutBalanceSnapshotWithWB L B wb h t [(pk, b)]"
  by (auto simp: PutSingleBalanceSnapshotWithWB_def PutBalanceSnapshotWithWB_def bind_eq_Some_conv
      split: prod.split bool.split Option.bind_split)

text \<open>C31: The key of a snapshot holds the balance, so a second write for the same account and height
  adds a snapshot beside the first and removes none. A read at that height then returns the larger of the two
  balances, not the last one written.\<close>

theorem second_write_keeps_larger_balance:
  assumes "index_store L B kv pending" and "wfIndex L (kv db)" and "publicKeyBalance t"
    and "length pk = 33" and "latest (snapshotsOf L (kv db) t pk) h = b"
    and "(h, b) \<in> snapshotsOf L (kv db) t pk"
    and "PutSingleBalanceSnapshotWithWB L B (NewWriteBatch B db) h t pk b' = Some (wb, True)"
    and "wbFlush B wb db = (db', True)"
  shows "snapshotsOf L (kv db') t pk = insert (h, b') (snapshotsOf L (kv db) t pk) \<and>
    GetBalanceSnapshot L B db' t pk h = Some (max b b')"
proof -
  let ?S = "snapshotsOf L (kv db) t pk"
  have len: "\<forall>k \<in> fst ` set [(pk, b')]. length k = 33" using assms(4) by simp
  note flushed = index_store.flushed_snapshots [OF assms(1,3) len assms(7) [unfolded PutSingle_singleton] assms(8)]
  have S: "snapshotsOf L (kv db') t pk = insert (h, b') ?S" using flushed(2) [OF assms(4)] by simp
  show ?thesis
    unfolding index_store.get_balance_latest [OF assms(1) flushed(1) [OF assms(2)] assms(3,4)] S
    using latest_same_height [OF index_store.finite_snapshotsOf [OF assms(1,3,4)] assms(5,6)] by simp
qed

theorem second_write_keeps_larger_balance_witness:
  "\<exists>wb. PutSingleBalanceSnapshotWithWB refLib memStore (NewWriteBatch memStore exampleDB) 5 DESOBalance examplePk 40 =
       Some (wb, True) \<and>
     snapshotsOf refLib (map_of (rev wb @ exampleDB)) DESOBalance examplePk = {(5, 100), (5, 40)} \<and>
     GetBalanceSnapshot refLib memStore (rev wb @ exampleDB) DESOBalance examplePk 5 = Some 100"
proof -
  have latest: "latest (snapshotsOf refLib (map_of exampleDB) DESOBalance examplePk) 5 = 100"
    by (simp add: snapshotsOf_exampleDB latest_single)
  have put: "PutSingleBalanceSnapshotWithWB refLib memStore (NewWriteBatch memStore exampleDB) 5 DESOBalance examplePk 40 =
      Some (snapshotWrites refLib PrefixBalanceSnapshots 5 [(examplePk, 40)], True)"
    unfolding PutSingle_singleton by (rule put_example)
  show ?thesis
    using second_write_keeps_larger_balance [OF memory_index.index_store_axioms wfIndex_exampleDB
        DESOBalance_prefix(1) example_length latest _ put memStore_sel(3)] put
    by (simp add: snapshotsOf_exampleDB insert_commute)
qed

text \<open>C30: A locked-stake lookup reads bytes of a validator where the balance should be. The prefix it checks
  covers only the staker and the offset it decodes from is that of a snapshot keyed by one public key. So it
  returns bytes 8 to 15 of the PKID of the validator in the greatest key of that staker at or below the key asked
  for, even if that key is of another validator or epoch, and whatever balance it holds; and 0 if there is
  no such key.\<close>

theorem locked_stake_lookup_reads_validator_bytes:
  assumes "index_store L B kv pending" and "wfIndex L (kv db)" and "length s = 33"
    and "lockedStakeBalanceSnapshotKey L LockedStakeDESOBalance s v e h MaxUint64 = Some asked"
    and "keys = {k \<in> dom (kv db). \<exists>v' e' h' b'.
      lockedStakeBalanceSnapshotKey L LockedStakeDESOBalance s v' e' h' b' = Some k \<and> k \<le> asked}"
  shows "if keys = {} then GetLockedStakeBalanceSnapshot L B db LockedStakeDESOBalance s v e h = Some 0
    else \<exists>k \<in> keys. \<exists>v' e' h' b'. (\<forall>k' \<in> keys. k' \<le> k) \<and> length v' = 33 \<and>
      lockedStakeBalanceSnapshotKey L LockedStakeDESOBalance s v' e' h' b' = Some k \<and>
      GetLockedStakeBalanceSnapshot L B db LockedStakeDESOBalance s v e h = Some (DecodeUint64 L (take 8 (drop 8 v')))"
proof -
  let ?p = PrefixLockedStakeBalanceSnapshots
  let ?x = "v @ EncodeUint64 L e @ EncodeUint64 L h @ EncodeUint64 L MaxUint64"
  have len: "length (EncodeUint64 L h) = 8"
    using assms(1) unfolding index_store_def core_library_def uint64_codec_def by blast
  have n: "length (?p # s) = 34" using assms(3) by simp
  have asked: "asked = (?p # s) @ ?x"
    using assms(4) by (simp add: lockedStakeBalanceSnapshotKey_def BalanceTypePrefix_def index_consts)
  have eq: "GetLockedStakeBalanceSnapshot L B db LockedStakeDESOBalance s v e h =
      (case keyBelow B db ((?p # s) @ ?x) 34 of
         None \<Rightarrow> Some 0 | Some k \<Rightarrow> map_option (DecodeUint64 L) (sliceFrom 42 k))"
    using assms(3) len
    by (simp add: GetLockedStakeBalanceSnapshot_def lockedStakeBalanceSnapshotKey_def
        GetLockedStakeBalanceForPublicKeyAtBlockHeightWithTxn_def BalanceTypePrefix_def index_consts
        cong: option.case_cong)
  note found_key = index_store.locked_key_found [OF assms(1,2) _ _ assms(3)]
  have keys: "keys = {k \<in> dom (kv db). take 34 k = ?p # s \<and> k \<le> asked}"
    using index_store.take_lockedKey [OF assms(1) _ assms(3)] found_key unfolding assms(5) by blast
  show ?thesis
  proof (cases "keyBelow B db ((?p # s) @ ?x) 34")
    case None
    note none = index_store.keyBelow_spec(2) [OF assms(1) n None]
    then have "keys = {}" unfolding keys asked by blast
    then show ?thesis using eq None by simp
  next
    case (Some k)
    note found = index_store.keyBelow_spec(1) [OF assms(1) n Some]
    then have k: "k \<in> keys" "\<forall>k' \<in> keys. k' \<le> k" unfolding keys asked by blast+
    obtain v' e' h' b' where "length v' = 33"
      "lockedStakeBalanceSnapshotKey L LockedStakeDESOBalance s v' e' h' b' = Some k"
      "map_option (DecodeUint64 L) (sliceFrom 42 k) = Some (DecodeUint64 L (take 8 (drop 8 v')))"
      using found_key found by blast
    then have "\<exists>k \<in> keys. \<exists>v' e' h' b'. (\<forall>k' \<in> keys. k' \<le> k) \<and> length v' = 33 \<and>
        lockedStakeBalanceSnapshotKey L LockedStakeDESOBalance s v' e' h' b' = Some k \<and>
        GetLockedStakeBalanceSnapshot L B db LockedStakeDESOBalance s v e h = Some (DecodeUint64 L (take 8 (drop 8 v')))"
      using k unfolding eq Some option.case by blast
    moreover have "keys \<noteq> {}" using k(1) by blast
    ultimately show ?thesis by simp
  qed
qed

theorem locked_stake_lookup_reads_validator_bytes_witness:
  "GetLockedStakeBalanceSnapshot refLib memStore exampleLockedDB LockedStakeDESOBalance
      (replicate 33 7) (replicate 33 9) 3 6 = Some (DecodeUint64 refLib (take 8 (drop 8 (replicate 33 9))))"
proof -
  let ?keys = "\<lambda>asked. {k \<in> dom (map_of exampleLockedDB). \<exists>v' e' h' b'.
      lockedStakeBalanceSnapshotKey refLib LockedStakeDESOBalance (replicate 33 7) v' e' h' b' = Some k \<and> k \<le> asked}"
  obtain asked where asked: "lockedStakeBalanceSnapshotKey refLib LockedStakeDESOBalance (replicate 33 7)
      (replicate 33 9) 3 6 MaxUint64 = Some asked"
    by (simp add: lockedStakeBalanceSnapshotKey_def BalanceTypePrefix_def index_consts)
  have only: "v' = replicate 33 9"
    if "k \<in> dom (map_of exampleLockedDB)" "length v' = 33"
      "lockedStakeBalanceSnapshotKey refLib LockedStakeDESOBalance (replicate 33 7) v' e' h' b' = Some k" for k v' e' h' b'
    using that by (simp add: exampleLockedDB_def lockedWrites_def lockedStakeBalanceSnapshotKey_def
        BalanceTypePrefix_def index_consts split: if_splits)
  have nonempty: "?keys asked \<noteq> {}"
  proof -
    have "\<exists>k \<in> dom (map_of exampleLockedDB).
        lockedStakeBalanceSnapshotKey refLib LockedStakeDESOBalance (replicate 33 7) (replicate 33 9) 3 5 100 = Some k \<and> k \<le> asked"
      using asked by (auto simp: exampleLockedDB_def lockedWrites_def lockedStakeBalanceSnapshotKey_def
          BalanceTypePrefix_def index_consts append_less_same_length)
    then show ?thesis by blast
  qed
  note lookup = locked_stake_lookup_reads_validator_bytes [OF memory_index.index_store_axioms
      wfIndex_exampleLockedDB length_replicate asked refl]
  obtain k v' e' h' b' where "k \<in> ?keys asked" "length v' = 33"
    and "lockedStakeBalanceSnapshotKey refLib LockedStakeDESOBalance (replicate 33 7) v' e' h' b' = Some k"
    and read: "GetLockedStakeBalanceSnapshot refLib memStore exampleLockedDB LockedStakeDESOBalance
      (replicate 33 7) (replicate 33 9) 3 6 = Some (DecodeUint64 refLib (take 8 (drop 8 v')))"
    using lookup unfolding if_not_P [OF nonempty] by blast
  then have "v' = replicate 33 9" using only by blast
  then show ?thesis using read by (simp only:)
qed

text \<open>C17: The balances of a hypersync block are read back as they were written. After the balances of one
  type and height and the locked stakes of one height were put and flushed, \<open>GetHypersyncBlockBalances\<close>
  returns the written maps for that type and height and for the locked stakes of that height, and for every
  other type and height the maps it returned before.\<close>

theorem hypersync_balances_round_trip:
  assumes "hypersync_store L B kv pending G" and "hypersyncDecodes L G (kv db)"
    and "publicKeyBalance t" and "\<forall>k \<in> fst ` set bal. length k = 33"
    and "gobEncodeBalances G bal = Some bs"
    and "wbFlush B (PutHypersyncBlockBalancesWithWB L G B (NewWriteBatch B db) h t bal) db = (db1, ok)"
    and "\<forall>k \<in> fst ` set locked. lockedKeyLengths k" and "gobEncodeLocked G locked = Some bs'"
    and "wbFlush B (PutHypersyncBlockLockedStakeBalancesWithWB L G B (NewWriteBatch B db1) hl locked
      LockedStakeDESOBalance) db1 = (db2, ok')"
    and "GetHypersyncBlockBalances L G B db h' = (a, b, c, d)"
    and "GetHypersyncBlockBalances L G B db2 h' = (a', b', c', d')"
  shows "hypersyncDecodes L G (kv db2) \<and>
    map_of a' = (if h' = h \<and> t = DESOBalance then map_of bal else map_of a) \<and>
    map_of b' = (if h' = h \<and> t = CreatorCoinLockedBalance then map_of bal else map_of b) \<and>
    map_of c' = (if h' = h \<and> t = ValidatorStakedDESOBalance then map_of bal else map_of c) \<and>
    map_of d' = (if h' = hl then map_of locked else map_of d)"
proof -
  note kv1 = hypersync_store.kv_put_balances [OF assms(1,3,5,6)]
  note kv2 = hypersync_store.kv_put_locked [OF assms(1,8,9)]
  have dec1: "hypersyncDecodes L G (kv db1)"
    unfolding kv1 by (rule hypersync_store.hypersyncDecodes_put [OF assms(1,2,5,4,3)])
  have dec2: "hypersyncDecodes L G (kv db2)"
    unfolding kv2 by (rule hypersync_store.hypersyncDecodes_put_locked [OF assms(1) dec1 assms(8,7)])
  note put = hypersync_store.hypersyncAt_put [OF assms(1,5,4), of "kv db" h t h']
    hypersync_store.hypersyncLockedAt_put [OF assms(1,8,7), of "kv db1" hl h']
  have "t \<noteq> LockedStakeDESOBalance" using assms(3) by (auto simp: publicKeyBalance_cases index_consts)
  then have "hypersyncLockedAt L G (kv db1) h' = hypersyncLockedAt L G (kv db) h'"
    by (simp add: kv1 hypersyncLockedAt_def hypersync_store.hypersync_key_inj [OF assms(1)])
  moreover have "hypersyncAt L G (kv db2) h' t' = hypersyncAt L G (kv db1) h' t'"
    if "t' \<noteq> LockedStakeDESOBalance" for t'
    using that by (simp add: kv2 hypersyncAt_def hypersync_store.hypersync_key_inj [OF assms(1)])
  moreover have "DESOBalance \<noteq> LockedStakeDESOBalance" "CreatorCoinLockedBalance \<noteq> LockedStakeDESOBalance"
    "ValidatorStakedDESOBalance \<noteq> LockedStakeDESOBalance" by (simp_all add: index_consts)
  ultimately show ?thesis
    unfolding hypersync_store.GetHypersyncBlockBalances_refines [OF assms(1,2,10)]
      hypersync_store.GetHypersyncBlockBalances_refines [OF assms(1) dec2 assms(11)]
    using dec2 put by (simp add: kv1 [symmetric] kv2 [symmetric]) (simp add: kv1 kv2 eq_commute)
qed

theorem hypersync_balances_round_trip_witness:
  "\<exists>db1 db2 a b c d. db1 = PutHypersyncBlockBalancesWithWB refLib refGob memStore [] 5 DESOBalance [(examplePk, 100)] \<and>
     db2 = PutHypersyncBlockLockedStakeBalancesWithWB refLib refGob memStore [] 5 exampleStakes LockedStakeDESOBalance @ db1 \<and>
     GetHypersyncBlockBalances refLib refGob memStore db2 5 = (a, b, c, d) \<and>
     map_of a = [examplePk \<mapsto> 100] \<and> map_of d = map_of exampleStakes"
proof -
  let ?wb = "PutHypersyncBlockBalancesWithWB refLib refGob memStore (NewWriteBatch memStore []) 5
    DESOBalance [(examplePk, 100)]"
  let ?wl = "PutHypersyncBlockLockedStakeBalancesWithWB refLib refGob memStore (NewWriteBatch memStore ?wb) 5
    exampleStakes LockedStakeDESOBalance"
  obtain a b c d where old: "GetHypersyncBlockBalances refLib refGob memStore [] 5 = (a, b, c, d)"
    by (rule prod_cases4)
  obtain a' b' c' d' where new: "GetHypersyncBlockBalances refLib refGob memStore (?wl @ ?wb) 5 = (a', b', c', d')"
    by (rule prod_cases4)
  obtain bs where enc: "gobEncodeBalances refGob [(examplePk, 100)] = Some bs"
    by (simp add: refGob_def)
  obtain bs' where enc': "gobEncodeLocked refGob exampleStakes = Some bs'"
    by (simp add: refGob_def)
  have "rev ?wb = ?wb" by (simp add: PutHypersyncBlockBalancesWithWB_def split: option.split)
  then have flush: "wbFlush memStore ?wb [] = (?wb, True)" by simp
  have "rev ?wl = ?wl" by (simp add: PutHypersyncBlockLockedStakeBalancesWithWB_def split: option.split)
  then have flush': "wbFlush memStore ?wl ?wb = (?wl @ ?wb, True)" by simp
  have dec: "hypersyncDecodes refLib refGob (map_of [])" by (simp add: hypersyncDecodes_def)
  have len: "\<forall>k \<in> fst ` set [(examplePk, 100)]. length k = 33"
    "\<forall>k \<in> fst ` set exampleStakes. lockedKeyLengths k"
    by (simp_all add: exampleStakes_def lockedKeyLengths_def)
  show ?thesis
    using hypersync_balances_round_trip [OF memory_index.hypersync_store_axioms dec
        DESOBalance_prefix(1) len(1) enc flush len(2) enc' flush' old new] new by simp
qed

end
