(* ===== verification/Partition.thy ===== *)
theory Partition
  imports Core
begin

text \<open>
  The loop that \<open>handleSnapshotCompleted\<close> of \<open>deso/events.go\<close> runs four times: it spreads the
  entries of a snapshot over the block heights 1 to the snapshot height, writing each entry as a
  balance snapshot and each full block of entries as one map. The loop is generic in the entry
  decoder and the two writes; the locale \<open>partition\<close> states what the writes promise, over an
  abstraction of the write batch, and the lemmas give the height every entry lands on in closed form.
\<close>

text \<open>\<open>Err\<close> is an error return, with the write batch as it is then; a run-time panic is \<open>Panic\<close>.\<close>

datatype ('e, 'a) outcome = Panic | Err 'e | Done 'a

record ('wb, 'k) scopeState =
  scopeBatch :: 'wb
  currentBlockHeight :: u64
  currentCounter :: u64
  balancesMap :: "('k, u64) gomap"

definition scopeStep ::
  "('item \<Rightarrow> (unit, 'k \<times> u64) outcome) \<Rightarrow> ('wb \<Rightarrow> u64 \<Rightarrow> 'k \<Rightarrow> u64 \<Rightarrow> ('wb \<times> bool) option) \<Rightarrow>
   ('wb \<Rightarrow> u64 \<Rightarrow> ('k, u64) gomap \<Rightarrow> 'wb) \<Rightarrow> u64 \<Rightarrow> u64 \<Rightarrow> 'item \<Rightarrow>
   ('wb, 'k) scopeState \<Rightarrow> ('wb, ('wb, 'k) scopeState) outcome" where
  "scopeStep decode putSingle putMap balancesPerBlock snapshotBlockHeight item st =
     (case decode item of
        Panic \<Rightarrow> Panic
      | Err _ \<Rightarrow> Err (scopeBatch st)
      | Done (k, balance) \<Rightarrow>
          let m = goSet k balance (balancesMap st);
              height = currentBlockHeight st
          in (case putSingle (scopeBatch st) height k balance of
                None \<Rightarrow> Panic
              | Some (wb, False) \<Rightarrow> Err wb
              | Some (wb, True) \<Rightarrow>
                  let counter = currentCounter st + 1
                  in Done
                    (if counter \<ge> balancesPerBlock \<and> height < snapshotBlockHeight then
                       \<lparr>scopeBatch = putMap wb height m, currentBlockHeight = height + 1,
                        currentCounter = 0, balancesMap = []\<rparr>
                     else
                       \<lparr>scopeBatch = wb, currentBlockHeight = height, currentCounter = counter,
                        balancesMap = m\<rparr>)))"

fun scopeLoop ::
  "('item \<Rightarrow> (unit, 'k \<times> u64) outcome) \<Rightarrow> ('wb \<Rightarrow> u64 \<Rightarrow> 'k \<Rightarrow> u64 \<Rightarrow> ('wb \<times> bool) option) \<Rightarrow>
   ('wb \<Rightarrow> u64 \<Rightarrow> ('k, u64) gomap \<Rightarrow> 'wb) \<Rightarrow> u64 \<Rightarrow> u64 \<Rightarrow> 'item list \<Rightarrow>
   ('wb, 'k) scopeState \<Rightarrow> ('wb, ('wb, 'k) scopeState) outcome" where
  "scopeLoop decode putSingle putMap perBlock snapshotHeight [] st = Done st"
| "scopeLoop decode putSingle putMap perBlock snapshotHeight (item # items) st =
     (case scopeStep decode putSingle putMap perBlock snapshotHeight item st of
        Panic \<Rightarrow> Panic
      | Err wb \<Rightarrow> Err wb
      | Done st' \<Rightarrow> scopeLoop decode putSingle putMap perBlock snapshotHeight items st')"

text \<open>
  One scope up to its flush: count, choose the size of a block, loop, write the last block. The
  count is the length of the iteration, and the division is by a height that is not 0.
\<close>

definition balancesPerBlockOf :: "u64 \<Rightarrow> u64 \<Rightarrow> u64" where
  "balancesPerBlockOf totalCount snapshotBlockHeight =
     (if totalCount < snapshotBlockHeight then 1 else totalCount div snapshotBlockHeight)"

definition scopeWrites ::
  "('item \<Rightarrow> (unit, 'k \<times> u64) outcome) \<Rightarrow> ('wb \<Rightarrow> u64 \<Rightarrow> 'k \<Rightarrow> u64 \<Rightarrow> ('wb \<times> bool) option) \<Rightarrow>
   ('wb \<Rightarrow> u64 \<Rightarrow> ('k, u64) gomap \<Rightarrow> 'wb) \<Rightarrow> u64 \<Rightarrow> 'item list \<Rightarrow> 'wb \<Rightarrow> ('wb, 'wb) outcome" where
  "scopeWrites decode putSingle putMap snapshotBlockHeight items wb =
     (case scopeLoop decode putSingle putMap
             (balancesPerBlockOf (of_nat (length items)) snapshotBlockHeight) snapshotBlockHeight items
             \<lparr>scopeBatch = wb, currentBlockHeight = 1, currentCounter = 0, balancesMap = []\<rparr> of
        Panic \<Rightarrow> Panic
      | Err wb \<Rightarrow> Err wb
      | Done st \<Rightarrow>
          Done (if 0 < currentCounter st
                then putMap (scopeBatch st) (currentBlockHeight st) (balancesMap st)
                else scopeBatch st))"

section \<open>The batch of a scope\<close>

lemma scopeLoop_append:
  "scopeLoop decode putSingle putMap P H (xs @ ys) st =
     (case scopeLoop decode putSingle putMap P H xs st of
        Panic \<Rightarrow> Panic | Err wb \<Rightarrow> Err wb | Done st' \<Rightarrow> scopeLoop decode putSingle putMap P H ys st')"
  by (induction xs arbitrary: st) (auto split: outcome.splits)

text \<open>What every write keeps, the loop keeps; a loop whose entries decode and whose writes succeed does not
  stop.\<close>

lemma scopeLoop_keeps:
  assumes single: "\<And>wb h k b. Q wb \<Longrightarrow> (k, b) \<in> set kvs \<Longrightarrow> \<exists>wb'. putSingle wb h k b = Some (wb', True) \<and> Q wb'"
    and map: "\<And>wb h m. Q wb \<Longrightarrow> Q (putMap wb h m)"
  shows "map decode items = map Done kvs' \<Longrightarrow> set kvs' \<subseteq> set kvs \<Longrightarrow> Q (scopeBatch st) \<Longrightarrow>
    \<exists>st'. scopeLoop decode putSingle putMap P H items st = Done st' \<and> Q (scopeBatch st')"
proof (induction items arbitrary: st kvs')
  case (Cons item items)
  then obtain k b kvs1 where kvs': "kvs' = (k, b) # kvs1" and item: "decode item = Done (k, b)"
    by (cases kvs') auto
  obtain wb where wb: "putSingle (scopeBatch st) (currentBlockHeight st) k b = Some (wb, True)" "Q wb"
    using single [of "scopeBatch st" k b] Cons.prems(2,3) kvs' by auto
  then obtain st1 where "scopeStep decode putSingle putMap P H item st = Done st1" "Q (scopeBatch st1)"
    using item map by (auto simp: scopeStep_def Let_def)
  then show ?case using Cons kvs' by auto
qed simp

text \<open>A scope that meets an entry that does not decode ends with the batch of the entries before it.\<close>

lemma scopeWrites_stops:
  assumes "\<And>wb h k b. Q wb \<Longrightarrow> (k, b) \<in> set kvs \<Longrightarrow> \<exists>wb'. putSingle wb h k b = Some (wb', True) \<and> Q wb'"
    and "\<And>wb h m. Q wb \<Longrightarrow> Q (putMap wb h m)"
    and "map decode before = map Done kvs" and "decode item = Err ()" and "Q wb0"
  shows "\<exists>wb. scopeWrites decode putSingle putMap H (before @ item # after) wb0 = Err wb \<and> Q wb"
proof -
  let ?P = "balancesPerBlockOf (of_nat (length (before @ item # after))) H"
  obtain st where "scopeLoop decode putSingle putMap ?P H before
      \<lparr>scopeBatch = wb0, currentBlockHeight = 1, currentCounter = 0, balancesMap = []\<rparr> = Done st"
    and "Q (scopeBatch st)"
    using scopeLoop_keeps [of Q kvs putSingle putMap decode before kvs, OF assms(1,2,3)] assms(5) by force
  then show ?thesis by (simp add: scopeWrites_def scopeLoop_append scopeStep_def assms(4))
qed

lemma balancesPerBlock_pos: "0 < H \<Longrightarrow> 0 < balancesPerBlockOf n H"
  by (auto simp: balancesPerBlockOf_def word_neq_0_conv [symmetric] word_le_nat_alt
      word_less_nat_alt unat_div div_greater_zero_iff)

section \<open>The height of an entry in closed form\<close>

text \<open>
  With \<open>P\<close> entries per block and \<open>H\<close> heights, entry \<open>i\<close> (from 0) is at height
  \<open>min (i div P + 1) H\<close>: the last height takes what is left.
\<close>

definition heightOf :: "nat \<Rightarrow> nat \<Rightarrow> nat \<Rightarrow> nat" where
  "heightOf P H i = min (i div P) (H - 1) + 1"

definition blockItems :: "nat \<Rightarrow> nat \<Rightarrow> 'a list \<Rightarrow> nat \<Rightarrow> 'a list" where
  "blockItems P H xs h =
     (if h = 0 \<or> H < h then []
      else if h < H then take P (drop ((h - 1) * P) xs)
      else drop ((H - 1) * P) xs)"

lemma heightOf_bounds: "0 < H \<Longrightarrow> 1 \<le> heightOf P H i \<and> heightOf P H i \<le> H"
  by (auto simp: heightOf_def)

lemma heightOf_eq_iff:
  assumes "0 < P" and "0 < H" and "1 \<le> h" and "h \<le> H"
  shows "heightOf P H i = h \<longleftrightarrow> (h - 1) * P \<le> i \<and> (h < H \<longrightarrow> i < h * P)"
proof -
  have 1: "h - 1 \<le> i div P \<longleftrightarrow> (h - 1) * P \<le> i"
    using assms(1) by (simp add: less_eq_div_iff_mult_less_eq)
  have 2: "i div P < h \<longleftrightarrow> i < h * P"
    using assms(1) by (simp add: div_less_iff_less_mult)
  show ?thesis unfolding 1 [symmetric] 2 [symmetric] heightOf_def using assms by auto
qed

lemma set_blockItems:
  assumes "0 < P" and "0 < H"
  shows "x \<in> set (blockItems P H xs h) \<longleftrightarrow> (\<exists>i < length xs. xs ! i = x \<and> heightOf P H i = h)"
proof (cases "1 \<le> h \<and> h \<le> H")
  case False
  then have "blockItems P H xs h = []" by (auto simp: blockItems_def)
  moreover have "heightOf P H i \<noteq> h" for i using False heightOf_bounds [OF assms(2), of P i] by auto
  ultimately show ?thesis by simp
next
  case True
  have P: "(h - 1) * P + P = h * P" using True by (cases h) auto
  have "x \<in> set (blockItems P H xs h) \<longleftrightarrow>
      (\<exists>i < length xs. xs ! i = x \<and> (h - 1) * P \<le> i \<and> (h < H \<longrightarrow> i < h * P))"
  proof (cases "h < H")
    case less: True
    have "x \<in> set (take P (drop ((h - 1) * P) xs)) \<longleftrightarrow>
        (\<exists>j. (h - 1) * P + j < length xs \<and> j < P \<and> xs ! ((h - 1) * P + j) = x)"
      by (auto simp: in_set_conv_nth) (metis nth_drop nth_take less_diff_conv add.commute add_leD1 less_imp_le)+
    also have "\<dots> \<longleftrightarrow> (\<exists>i < length xs. xs ! i = x \<and> (h - 1) * P \<le> i \<and> i < h * P)"
      using P by (metis add_less_cancel_left le_add1 le_add_diff_inverse)
    finally show ?thesis using less True by (simp add: blockItems_def)
  next
    case False
    then have "h = H" using True by simp
    moreover have "x \<in> set (drop n xs) \<longleftrightarrow> (\<exists>i < length xs. xs ! i = x \<and> n \<le> i)" for n
      by (auto simp: in_set_conv_nth) (metis less_diff_conv add.commute le_add1, metis diff_less_mono le_add_diff_inverse)
    ultimately show ?thesis using True by (simp add: blockItems_def)
  qed
  then show ?thesis using heightOf_eq_iff [OF assms] True by simp
qed

section \<open>The contract of the writes\<close>

text \<open>
  \<open>snaps wb k\<close> is the set of snapshots of \<open>k\<close> once \<open>wb\<close> is applied, \<open>blocks wb h\<close> the map of
  height \<open>h\<close>. \<open>good\<close> is the keys of the right length.
\<close>

locale partition =
  fixes good :: "'k \<Rightarrow> bool"
    and putSingle :: "'wb \<Rightarrow> u64 \<Rightarrow> 'k \<Rightarrow> u64 \<Rightarrow> ('wb \<times> bool) option"
    and putMap :: "'wb \<Rightarrow> u64 \<Rightarrow> ('k, u64) gomap \<Rightarrow> 'wb"
    and snaps :: "'wb \<Rightarrow> 'k \<Rightarrow> (u64 \<times> u64) set"
    and blocks :: "'wb \<Rightarrow> u64 \<Rightarrow> 'k \<rightharpoonup> u64"
    and inv :: "'wb \<Rightarrow> bool"
  assumes single: "good k \<Longrightarrow> inv wb \<Longrightarrow> \<exists>wb'. putSingle wb h k b = Some (wb', True) \<and> inv wb' \<and>
      blocks wb' = blocks wb \<and>
      (\<forall>k'. good k' \<longrightarrow> snaps wb' k' = (if k' = k then insert (h, b) (snaps wb k) else snaps wb k'))"
    and map_inv: "\<forall>k \<in> fst ` set m. good k \<Longrightarrow> inv wb \<Longrightarrow> inv (putMap wb h m)"
    and map_blocks: "\<forall>k \<in> fst ` set m. good k \<Longrightarrow> inv wb \<Longrightarrow>
      blocks (putMap wb h m) = (blocks wb)(h := map_of m)"
    and map_snaps: "\<forall>k \<in> fst ` set m. good k \<Longrightarrow> inv wb \<Longrightarrow> good k' \<Longrightarrow>
      snaps (putMap wb h m) k' = snaps wb k'"
begin

text \<open>
  The loop invariant after \<open>n\<close> of the entries \<open>kvs\<close>, with \<open>P\<close> entries per block and \<open>H\<close> heights,
  started from the batch \<open>wb0\<close>.
\<close>

definition loop_inv :: "'wb \<Rightarrow> u64 \<Rightarrow> u64 \<Rightarrow> ('k \<times> u64) list \<Rightarrow> nat \<Rightarrow> ('wb, 'k) scopeState \<Rightarrow> bool" where
  "loop_inv wb0 P H kvs n st \<longleftrightarrow>
     (let h = heightOf (unat P) (unat H) n
      in inv (scopeBatch st) \<and> unat (currentBlockHeight st) = h \<and>
         unat (currentCounter st) + (h - 1) * unat P = n \<and>
         balancesMap st = drop ((h - 1) * unat P) (take n kvs) \<and>
         (\<forall>k. good k \<longrightarrow> snaps (scopeBatch st) k = snaps wb0 k \<union>
            {(of_nat (heightOf (unat P) (unat H) i), b) | i b. i < n \<and> kvs ! i = (k, b)}) \<and>
         (\<forall>x. blocks (scopeBatch st) x =
            (if 1 \<le> unat x \<and> unat x < h then map_of (blockItems (unat P) (unat H) kvs (unat x))
             else blocks wb0 x)))"

lemma heightOf_Suc:
  assumes "0 < P" and c: "n = c + (heightOf P H n - 1) * P"
  shows "heightOf P H (Suc n) =
    (if P \<le> Suc c \<and> heightOf P H n < H then Suc (heightOf P H n) else heightOf P H n)"
proof (cases "heightOf P H n < H")
  case True
  then have h: "heightOf P H n = n div P + 1" by (auto simp: heightOf_def)
  then have "n = c + n div P * P" using c by simp
  then have "c = n mod P" by (metis add_right_cancel mod_div_decomp add.commute)
  moreover have "Suc n div P = (if Suc (n mod P) = P then Suc (n div P) else n div P)"
    by (simp add: div_Suc mod_Suc)
  moreover have "n mod P < P" using assms(1) by simp
  ultimately show ?thesis using True h by (auto simp: heightOf_def)
next
  case False
  have "H - 1 \<le> n div P" using False by (auto simp: heightOf_def)
  moreover have "n div P \<le> Suc n div P" by (simp add: div_le_mono)
  ultimately have "min (n div P) (H - 1) = H - 1" "min (Suc n div P) (H - 1) = H - 1" by linarith+
  then show ?thesis using False by (auto simp: heightOf_def)
qed

lemma blockItems_full:
  assumes "h = heightOf P H n" and "h < H" and "n < length kvs" and "Suc n = h * P"
  shows "drop ((h - 1) * P) (take (Suc n) kvs) = blockItems P H kvs h"
proof -
  have "1 \<le> h" using assms(1) by (simp add: heightOf_def)
  then have "Suc n - (h - 1) * P = P" using assms(4) by (cases h) auto
  then show ?thesis using assms(2) \<open>1 \<le> h\<close> by (simp add: blockItems_def drop_take)
qed

lemma unat_plus_one: "unat (x :: u64) < n \<Longrightarrow> n < 2 ^ 64 \<Longrightarrow> unat (x + 1) = Suc (unat x)"
  by (simp add: unat_word_ariths)

lemma entries_Suc:
  "kvs ! n = (k, b) \<Longrightarrow>
    {(f i, b') | i b'. i < Suc n \<and> kvs ! i = (k', b')} =
      (if k' = k then insert (f n, b) {(f i, b') | i b'. i < n \<and> kvs ! i = (k', b')}
       else {(f i, b') | i b'. i < n \<and> kvs ! i = (k', b')})"
  by (auto simp: less_Suc_eq)

text \<open>The map of the current block after one more entry.\<close>

lemma next_map:
  assumes "kvs ! n = (k, b)" and "n < length kvs" and "distinct (map fst kvs)" and "j \<le> n"
  shows "goSet k b (drop j (take n kvs)) = drop j (take (Suc n) kvs)"
proof -
  have "k \<notin> fst ` set (take n kvs)"
  proof
    assume "k \<in> fst ` set (take n kvs)"
    then obtain i where "i < n" "fst (kvs ! i) = k" by (auto simp: in_set_conv_nth)
    then show False using nth_eq_iff_index_eq [OF assms(3), of i n] assms(1,2) by simp
  qed
  moreover have "set (drop j (take n kvs)) \<subseteq> set (take n kvs)" by (rule set_drop_subset)
  ultimately have "k \<notin> fst ` set (drop j (take n kvs))" by blast
  then show ?thesis using assms by (simp add: goSet_fresh take_Suc_conv_app_nth)
qed

lemma step_inv:
  assumes linv: "loop_inv wb0 P H kvs n st" and P: "0 < P" and H: "0 < H"
    and n: "n < length kvs" "length kvs < 2 ^ 64"
    and good: "\<forall>k \<in> fst ` set kvs. good k" and dist: "distinct (map fst kvs)"
    and dec: "decode item = Done (kvs ! n)"
  shows "\<exists>st'. scopeStep decode putSingle putMap P H item st = Done st' \<and>
    loop_inv wb0 P H kvs (Suc n) st'"
proof -
  let ?P = "unat P" and ?H = "unat H"
  let ?h = "heightOf ?P ?H n"
  let ?E = "\<lambda>n k. {(of_nat (heightOf ?P ?H i), b) | i b. i < n \<and> kvs ! i = (k, b)}"
  have P': "0 < ?P" and H': "0 < ?H" using P H by (simp_all add: unat_gt_0 word_neq_0_conv)
  obtain k b where kb: "kvs ! n = (k, b)" by force
  have gk: "good k" using good n(1) kb by (metis fst_conv image_eqI nth_mem)
  note I = linv [unfolded loop_inv_def Let_def]
  from I have iwb: "inv (scopeBatch st)" and h: "unat (currentBlockHeight st) = ?h"
    and cnt: "n = unat (currentCounter st) + (?h - 1) * ?P"
    and m: "balancesMap st = drop ((?h - 1) * ?P) (take n kvs)"
    and snaps0: "\<forall>k. good k \<longrightarrow> snaps (scopeBatch st) k = snaps wb0 k \<union> ?E n k"
    and blocks0: "\<forall>x. blocks (scopeBatch st) x =
      (if 1 \<le> unat x \<and> unat x < ?h then map_of (blockItems ?P ?H kvs (unat x)) else blocks wb0 x)"
    by auto
  obtain wb' where put: "putSingle (scopeBatch st) (currentBlockHeight st) k b = Some (wb', True)"
    and wb': "inv wb'" "blocks wb' = blocks (scopeBatch st)"
      "\<forall>k'. good k' \<longrightarrow> snaps wb' k' =
        (if k' = k then insert (currentBlockHeight st, b) (snaps (scopeBatch st) k)
         else snaps (scopeBatch st) k')"
    using single [OF gk iwb] by metis
  let ?m = "drop ((?h - 1) * ?P) (take (Suc n) kvs)"
  have m': "goSet k b (balancesMap st) = ?m"
    unfolding m by (rule next_map [OF kb n(1) dist]) (use cnt in linarith)
  have gm: "\<forall>k \<in> fst ` set ?m. good k"
    using good set_drop_subset [of "(?h - 1) * ?P" "take (Suc n) kvs"] set_take_subset [of "Suc n" kvs]
    by blast
  have c1: "unat (currentCounter st + 1) = Suc (unat (currentCounter st))"
    using cnt n by (intro unat_plus_one [of _ "Suc n"]) auto
  have of_h: "of_nat ?h = currentBlockHeight st" by (simp flip: h)
  have snaps': "good k' \<Longrightarrow> snaps wb' k' = snaps wb0 k' \<union> ?E (Suc n) k'" for k'
    using wb'(3) snaps0 unfolding entries_Suc [of kvs n, OF kb] of_h by auto
  have full: "currentCounter st + 1 \<ge> P \<and> currentBlockHeight st < H \<longleftrightarrow>
      ?P \<le> Suc (unat (currentCounter st)) \<and> ?h < ?H"
    using c1 h by (simp add: word_le_nat_alt word_less_nat_alt)
  have hSuc: "heightOf ?P ?H (Suc n) =
      (if ?P \<le> Suc (unat (currentCounter st)) \<and> ?h < ?H then Suc ?h else ?h)"
    by (rule heightOf_Suc [OF P' cnt])
  show ?thesis
  proof (cases "?P \<le> Suc (unat (currentCounter st)) \<and> ?h < ?H")
    case True
    let ?wb = "putMap wb' (currentBlockHeight st) ?m"
    have "1 \<le> ?h" by (simp add: heightOf_def)
    moreover have "n < ?h * ?P" using heightOf_eq_iff [OF P' H', of ?h n] True calculation by auto
    ultimately have Sn: "Suc n = ?h * ?P"
      using True cnt by (cases ?h) (auto simp: algebra_simps)
    have "blocks ?wb x = (if 1 \<le> unat x \<and> unat x < Suc ?h
        then map_of (blockItems ?P ?H kvs (unat x)) else blocks wb0 x)" for x
    proof (cases "x = currentBlockHeight st")
      case eq: True
      then show ?thesis
        using blockItems_full [OF refl _ n(1) Sn] True map_blocks [OF gm wb'(1)] h \<open>1 \<le> ?h\<close> by simp
    next
      case False
      then have "unat x \<noteq> ?h" using h by (metis word_unat_eq_iff)
      then show ?thesis
        using False map_blocks [OF gm wb'(1)] wb'(2) blocks0 by (simp add: less_Suc_eq)
    qed
    moreover have "unat (currentBlockHeight st + 1) = Suc ?h"
      using True h unsigned_less [of H] by (intro unat_plus_one [of _ "unat H", THEN trans]) auto
    moreover have "good k' \<Longrightarrow> snaps ?wb k' = snaps wb0 k' \<union> ?E (Suc n) k'" for k'
      using map_snaps [OF gm wb'(1)] snaps' by simp
    ultimately show ?thesis
      using map_inv [OF gm wb'(1)] full True hSuc Sn
      by (auto simp: scopeStep_def dec kb put m' loop_inv_def Let_def)
  next
    case False
    then have "\<not> (currentCounter st + 1 \<ge> P \<and> currentBlockHeight st < H)" using full by simp
    then show ?thesis
      using hSuc False wb'(1,2) blocks0 snaps' c1 h cnt
      by (auto simp: scopeStep_def dec kb put m' loop_inv_def Let_def)
  qed
qed

lemma loop_run:
  assumes P: "0 < P" and H: "0 < H" and len: "length kvs < 2 ^ 64"
    and good: "\<forall>k \<in> fst ` set kvs. good k" and dist: "distinct (map fst kvs)"
  shows "loop_inv wb0 P H kvs n st \<Longrightarrow> map decode items = map Done (drop n kvs) \<Longrightarrow> n \<le> length kvs \<Longrightarrow>
    \<exists>st'. scopeLoop decode putSingle putMap P H items st = Done st' \<and>
      loop_inv wb0 P H kvs (length kvs) st'"
proof (induction items arbitrary: n st)
  case Nil
  then show ?case by auto
next
  case (Cons item items)
  then have n: "n < length kvs" by (metis drop_all list.distinct(1) list.map(1) list.simps(9) not_le)
  then have dec: "decode item = Done (kvs ! n)" and rest: "map decode items = map Done (drop (Suc n) kvs)"
    using Cons.prems(2) by (simp_all flip: Cons_nth_drop_Suc)
  obtain st1 where st1: "scopeStep decode putSingle putMap P H item st = Done st1"
    "loop_inv wb0 P H kvs (Suc n) st1"
    using step_inv [where decode = decode and kvs = kvs and n = n, OF Cons.prems(1) P H n len good dist dec]
    by blast
  then show ?case using Cons.IH [OF st1(2) rest] n by simp
qed

lemma blockItems_end:
  assumes P: "0 < P" and H: "0 < H" and h: "h = heightOf P H (length kvs)"
  shows "1 \<le> x \<Longrightarrow> x < h \<Longrightarrow> blockItems P H kvs x \<noteq> []"
    and "blockItems P H kvs h = drop ((h - 1) * P) kvs"
    and "x = 0 \<or> h < x \<Longrightarrow> blockItems P H kvs x = []"
proof -
  have b: "1 \<le> h" "h \<le> H" using heightOf_bounds [OF H] h by auto
  have range: "(h - 1) * P \<le> length kvs" "h < H \<Longrightarrow> length kvs < h * P"
    using heightOf_eq_iff [OF P H b, of "length kvs"] h by auto
  have more: "y \<le> x \<Longrightarrow> y * P \<le> x * P" for x y by simp
  show "blockItems P H kvs h = drop ((h - 1) * P) kvs"
    using b range(2) by (cases h) (auto simp: blockItems_def)
  show "blockItems P H kvs x \<noteq> []" if "1 \<le> x" "x < h"
  proof -
    have "(x - 1) * P < (h - 1) * P" using that P by simp
    then have "\<not> length kvs \<le> (x - 1) * P" using range(1) by linarith
    then show ?thesis using that b P by (simp add: blockItems_def)
  qed
  show "blockItems P H kvs x = []" if "x = 0 \<or> h < x"
  proof (cases "x = 0 \<or> H < x")
    case False
    then have "h < H" "h \<le> x - 1" "H - 1 = x - 1 \<or> x < H" using that b by auto
    then have "length kvs \<le> (x - 1) * P" using range(2) more [of h "x - 1"] by linarith
    then show ?thesis using False \<open>H - 1 = x - 1 \<or> x < H\<close> by (auto simp: blockItems_def)
  qed (auto simp: blockItems_def)
qed

text \<open>What the scope leaves on the batch, in closed form.\<close>

lemma scopeWrites_closed_form:
  assumes H: "0 < H" and len: "length kvs < 2 ^ 64" and inv: "inv wb0"
    and good: "\<forall>k \<in> fst ` set kvs. good k" and dist: "distinct (map fst kvs)"
    and dec: "map decode items = map Done kvs"
    and P: "P = unat (balancesPerBlockOf (of_nat (length kvs)) H)"
  shows "\<exists>wb. scopeWrites decode putSingle putMap H items wb0 = Done wb \<and> inv wb \<and>
    (\<forall>k. good k \<longrightarrow> snaps wb k = snaps wb0 k \<union>
       {(of_nat (heightOf P (unat H) i), b) | i b. i < length kvs \<and> kvs ! i = (k, b)}) \<and>
    (\<forall>x. blocks wb x =
       (if blockItems P (unat H) kvs (unat x) = [] then blocks wb0 x
        else map_of (blockItems P (unat H) kvs (unat x))))"
proof -
  let ?p = "balancesPerBlockOf (of_nat (length kvs)) H"
  let ?h = "heightOf P (unat H) (length kvs)"
  have p: "0 < ?p" by (rule balancesPerBlock_pos [OF H])
  then have P0: "0 < P" "0 < unat H" using H by (simp_all add: P unat_gt_0 word_neq_0_conv)
  have length: "length items = length kvs" using dec map_eq_imp_length_eq by blast
  let ?st = "\<lparr>scopeBatch = wb0, currentBlockHeight = 1, currentCounter = 0, balancesMap = []\<rparr>"
  have start: "loop_inv wb0 ?p H kvs 0 ?st"
    using inv by (auto simp: loop_inv_def heightOf_def Let_def)
  obtain st where run: "scopeLoop decode putSingle putMap ?p H items ?st = Done st"
    and linv: "loop_inv wb0 ?p H kvs (length kvs) st"
    using loop_run [OF p H len good dist start] dec by auto
  note I = linv [unfolded loop_inv_def Let_def, folded P]
  from I have h: "unat (currentBlockHeight st) = ?h"
    and cnt: "unat (currentCounter st) + (?h - 1) * P = length kvs"
    and m: "balancesMap st = drop ((?h - 1) * P) kvs" and iwb: "inv (scopeBatch st)" by auto
  have gm: "\<forall>k \<in> fst ` set (balancesMap st). good k"
    using good set_drop_subset [of "(?h - 1) * P" kvs] by (auto simp: m)
  have iP: "?h = heightOf P (unat H) (length kvs)" ..
  let ?m = "balancesMap st"
  have last: "blockItems P (unat H) kvs ?h = ?m" using blockItems_end(2) [OF P0 iP] m by simp
  have empty: "0 < currentCounter st \<longleftrightarrow> ?m \<noteq> []"
  proof -
    have "unat (currentCounter st) = length ?m" using cnt unfolding m by simp
    moreover have "0 < currentCounter st \<longleftrightarrow> 0 < unat (currentCounter st)"
      by (simp add: word_less_nat_alt)
    ultimately show ?thesis by simp
  qed
  have blocks: "blocks (if 0 < currentCounter st then putMap (scopeBatch st) (currentBlockHeight st) ?m
        else scopeBatch st) x =
      (if blockItems P (unat H) kvs (unat x) = [] then blocks wb0 x
       else map_of (blockItems P (unat H) kvs (unat x)))" for x
  proof (cases "x = currentBlockHeight st")
    case True
    then have "blockItems P (unat H) kvs (unat x) = ?m" using last h by simp
    then show ?thesis using True h empty I map_blocks [OF gm iwb] by auto
  next
    case False
    then have "unat x \<noteq> ?h" using h by (metis word_unat_eq_iff)
    then show ?thesis
      using False I map_blocks [OF gm iwb] blockItems_end(1,3) [OF P0 iP, of "unat x"] by auto
  qed
  let ?wb = "if 0 < currentCounter st then putMap (scopeBatch st) (currentBlockHeight st) ?m
    else scopeBatch st"
  have snaps: "good k \<Longrightarrow> snaps ?wb k = snaps wb0 k \<union>
       {(of_nat (heightOf P (unat H) i), b) | i b. i < length kvs \<and> kvs ! i = (k, b)}" for k
    using map_snaps [OF gm iwb] I by simp
  have "scopeWrites decode putSingle putMap H items wb0 = Done ?wb"
    using run by (simp add: scopeWrites_def length)
  moreover have "inv ?wb" using iwb map_inv [OF gm iwb] by simp
  ultimately show ?thesis using snaps blocks by blast
qed

text \<open>
  Seen from one account of a fresh index: an entry is written at exactly one height, as a snapshot
  and in the block of that height; an account without an entry is written nowhere.
\<close>

lemma scopeWrites_account:
  assumes H: "0 < H" and len: "length kvs < 2 ^ 64" and inv: "inv wb0"
    and good: "\<forall>k \<in> fst ` set kvs. good k" and dist: "distinct (map fst kvs)"
    and dec: "map decode items = map Done kvs"
    and fresh: "\<forall>k. good k \<longrightarrow> snaps wb0 k = {}" "\<forall>x. blocks wb0 x = Map.empty"
  shows "\<exists>wb. scopeWrites decode putSingle putMap H items wb0 = Done wb \<and> inv wb \<and>
    (\<forall>k. good k \<longrightarrow>
       (case map_of kvs k of
          None \<Rightarrow> snaps wb k = {} \<and> (\<forall>x. blocks wb x k = None)
        | Some b \<Rightarrow> \<exists>hk. 1 \<le> hk \<and> hk \<le> H \<and> snaps wb k = {(hk, b)} \<and>
            (\<forall>x. blocks wb x k = (if x = hk then Some b else None))))"
proof -
  define P where "P = unat (balancesPerBlockOf (of_nat (length kvs)) H)"
  obtain wb where run: "scopeWrites decode putSingle putMap H items wb0 = Done wb" "inv wb"
    and snaps: "\<And>k. good k \<Longrightarrow> snaps wb k =
       {(of_nat (heightOf P (unat H) i), b) | i b. i < length kvs \<and> kvs ! i = (k, b)}"
    and blocks: "\<And>x. blocks wb x = map_of (blockItems P (unat H) kvs (unat x))"
    using scopeWrites_closed_form [OF H len inv good dist dec P_def] fresh by auto
  have P0: "0 < P" "0 < unat H" using balancesPerBlock_pos [OF H] H
    by (simp_all add: P_def unat_gt_0 word_neq_0_conv)
  have "case map_of kvs k of
          None \<Rightarrow> snaps wb k = {} \<and> (\<forall>x. blocks wb x k = None)
        | Some b \<Rightarrow> \<exists>hk. 1 \<le> hk \<and> hk \<le> H \<and> snaps wb k = {(hk, b)} \<and>
            (\<forall>x. blocks wb x k = (if x = hk then Some b else None))" if k: "good k" for k
  proof (cases "map_of kvs k")
    case None
    then have none: "kvs ! i \<noteq> (k, b)" if "i < length kvs" for i b
      using that nth_mem [of i kvs] by (force simp: map_of_eq_None_iff)
    have "blocks wb x k = None" for x
      using none set_blockItems [OF P0, of _ kvs "unat x"]
      by (auto simp: blocks map_of_eq_None_iff image_iff)
    then show ?thesis using None none snaps [OF k] by auto
  next
    case (Some b)
    then obtain i where i: "i < length kvs" "kvs ! i = (k, b)"
      by (metis map_of_SomeD in_set_conv_nth)
    have uniq: "j = i" if "j < length kvs" "kvs ! j = (k, b')" for j b'
      using nth_eq_iff_index_eq [OF dist, of j i] that i by simp
    let ?n = "heightOf P (unat H) i" and ?hk = "of_nat (heightOf P (unat H) i) :: u64"
    have n: "1 \<le> ?n" "?n \<le> unat H" using heightOf_bounds [OF P0(2)] by auto
    moreover have "unat H < 2 ^ 64" using unat_u64_bound [of H] by simp
    ultimately have "?n < 2 ^ 64" by linarith
    then have hk: "unat ?hk = ?n" by (simp add: unat_of_nat take_bit_nat_eq_self)
    have only: "j < length kvs \<and> kvs ! j = (k, b') \<longleftrightarrow> j = i \<and> b' = b" for j b'
      using i uniq by (metis prod.inject)
    have "snaps wb k = {(?hk, b)}" unfolding snaps [OF k] only by simp
    moreover have "blocks wb x k = (if x = ?hk then Some b else None)" for x
    proof -
      have dist': "distinct (map fst (blockItems P (unat H) kvs (unat x)))"
        using dist by (auto simp: blockItems_def drop_map [symmetric] take_map [symmetric]
            intro!: distinct_take distinct_drop)
      have "(k, b') \<in> set (blockItems P (unat H) kvs (unat x)) \<longleftrightarrow> b' = b \<and> x = ?hk" for b'
        unfolding set_blockItems [OF P0] conj_assoc [symmetric] only using hk
        by (auto simp: word_unat_eq_iff)
      then show ?thesis unfolding blocks using map_of_eq_Some_iff [OF dist', of k]
        by (cases "x = ?hk") (auto simp: map_of_eq_None_iff image_iff)
    qed
    ultimately show ?thesis using Some n hk by (auto simp: word_le_nat_alt intro!: exI [of _ ?hk])
  qed
  then show ?thesis using run by blast
qed

end

end
