(* ===== verification/Hypersync.thy ===== *)
theory Hypersync
  imports Index Partition
begin

text \<open>
  \<open>handleSnapshotCompleted\<close> of \<open>deso/events.go\<close>: after a hypersync, four scopes iterate over the
  chain database and fill the index, one balance type each. A scope that meets an error returns
  before its flush and cancels its batch, of which the store may hold some writes by then; the error is
  only logged.
\<close>

section \<open>The chain database\<close>

text \<open>
  What the iterators over the four prefixes of the chain database yield, in order: a key, its
  value (\<open>None\<close> where \<open>ValueCopy\<close> fails), or both. Every key starts with its one-byte prefix.
  \<open>FixedWidthDecodeUint256\<close> returns the number and what is left of the reader.
\<close>

record chainDB =
  iterBalances :: "(bytes \<times> bytes option) list"
  iterCreatorCoins :: "bytes list"
  iterValidators :: "bytes list"
  iterLockedStakes :: "bytes option list"
  DBGetPublicKeyForPKIDWithTxn :: "pkid \<Rightarrow> bytes option"

record chainCodec =
  PublicKeyToPKID :: "bytes \<Rightarrow> pkid"
  Uint256EncodedLength :: nat \<comment> \<open>\<open>len(lib.FixedWidthEncodeUint256(lib.MaxUint256))\<close>\<close>
  FixedWidthDecodeUint256 :: "bytes \<Rightarrow> (u256 \<times> bytes) option"
  DecodeLockedStakeEntry :: "bytes \<Rightarrow> LockedStakeEntry option"

definition PubKeyBytesLenCompressed :: nat where "PubKeyBytesLenCompressed = 33"

section \<open>The entries of the four scopes\<close>

definition decodeBalanceItem :: "corelib \<Rightarrow> bytes \<times> bytes option \<Rightarrow> (unit, pubkey \<times> u64) outcome" where
  "decodeBalanceItem L item =
     (case snd item of
        None \<Rightarrow> Err ()
      | Some val \<Rightarrow>
          (case sliceFrom 1 (fst item) of
             None \<Rightarrow> Panic
           | Some key \<Rightarrow> Done (NewPublicKey L key, DecodeUint64 L val)))"

definition decodeCreatorCoinItem ::
  "corelib \<Rightarrow> chainCodec \<Rightarrow> chainDB \<Rightarrow> bytes \<Rightarrow> (unit, pubkey \<times> u64) outcome" where
  "decodeCreatorCoinItem L X C rawKey =
     (case sliceFrom 1 rawKey of
        None \<Rightarrow> Panic
      | Some k \<Rightarrow>
          if length k \<noteq> 8 + PubKeyBytesLenCompressed then Err ()
          else
            let lockedDeSoNanos = DecodeUint64 L (take 8 k);
                profilePKID = PublicKeyToPKID X (copyArray PubKeyBytesLenCompressed (drop 8 k))
            in (case DBGetPublicKeyForPKIDWithTxn C profilePKID of
                  None \<Rightarrow> Err ()
                | Some pkBytes \<Rightarrow> Done (NewPublicKey L pkBytes, lockedDeSoNanos)))"

definition decodeValidatorItem ::
  "corelib \<Rightarrow> chainCodec \<Rightarrow> bytes \<Rightarrow> (unit, pubkey \<times> u64) outcome" where
  "decodeValidatorItem L X rawKey =
     (case sliceFrom 2 rawKey of
        None \<Rightarrow> Panic
      | Some k \<Rightarrow>
          if length k \<noteq> Uint256EncodedLength X + PubKeyBytesLenCompressed then Err ()
          else
            (case FixedWidthDecodeUint256 X k of
               None \<Rightarrow> Err ()
             | Some (totalStakeAmountNanos, rest) \<Rightarrow>
                 if \<not> IsUint64 totalStakeAmountNanos then Err ()
                 else if rest = [] then Err ()
                 else Done (NewPublicKey L (copyArray PubKeyBytesLenCompressed rest),
                            Uint64 totalStakeAmountNanos)))"

definition decodeLockedStakeItem ::
  "chainCodec \<Rightarrow> bytes option \<Rightarrow> (unit, LockedStakeBalanceMapKey \<times> u64) outcome" where
  "decodeLockedStakeItem X item =
     (case item of
        None \<Rightarrow> Err ()
      | Some rawValue \<Rightarrow>
          (case DecodeLockedStakeEntry X rawValue of
             None \<Rightarrow> Err ()
           | Some e \<Rightarrow>
               if \<not> IsUint64 (LockedAmountNanos e) then Err ()
               else Done (\<lparr>mapStakerPKID = lockedStakerPKID e, mapValidatorPKID = lockedValidatorPKID e,
                           mapLockedAtEpochNumber = lockedAtEpochNumber e\<rparr>,
                          Uint64 (LockedAmountNanos e))))"

section \<open>The scopes\<close>

text \<open>An error of a scope, or of its flush, is logged; the next scope runs on what was stored. The
  deferred \<open>wb.Cancel\<close> of a scope runs when the handler returns; it commits nothing, so what a batch that
  met an error leaves in the database is there before the next scope. After a flush it does nothing.\<close>

definition flushScope :: "('db, 'wb) badger \<Rightarrow> 'db \<Rightarrow> ('wb, 'wb) outcome \<Rightarrow> 'db option" where
  "flushScope B db r =
     (case r of Panic \<Rightarrow> None | Err wb \<Rightarrow> Some (wbCancel B wb db) | Done wb \<Rightarrow> Some (fst (wbFlush B wb db)))"

definition publicKeyScope ::
  "corelib \<Rightarrow> gobCodec \<Rightarrow> ('db, 'wb) badger \<Rightarrow> BalanceType \<Rightarrow> ('item \<Rightarrow> (unit, pubkey \<times> u64) outcome) \<Rightarrow>
     u64 \<Rightarrow> 'item list \<Rightarrow> 'db \<Rightarrow> 'db option" where
  "publicKeyScope L G B balanceType decode snapshotBlockHeight items db =
     flushScope B db
       (scopeWrites decode
          (\<lambda>wb height pubKey balance.
             PutSingleBalanceSnapshotWithWB L B wb height balanceType pubKey balance)
          (\<lambda>wb height m. PutHypersyncBlockBalancesWithWB L G B wb height balanceType m)
          snapshotBlockHeight items (NewWriteBatch B db))"

definition lockedStakeScope ::
  "corelib \<Rightarrow> gobCodec \<Rightarrow> ('db, 'wb) badger \<Rightarrow> chainCodec \<Rightarrow> u64 \<Rightarrow> bytes option list \<Rightarrow> 'db \<Rightarrow> 'db option" where
  "lockedStakeScope L G B X snapshotBlockHeight items db =
     flushScope B db
       (scopeWrites (decodeLockedStakeItem X)
          (\<lambda>wb height k balance.
             PutSingleLockedStakeBalanceSnapshotWithWB L B wb height LockedStakeDESOBalance
               (mapStakerPKID k) (mapValidatorPKID k) (mapLockedAtEpochNumber k) balance)
          (\<lambda>wb height m.
             PutHypersyncBlockLockedStakeBalancesWithWB L G B wb height m LockedStakeDESOBalance)
          snapshotBlockHeight items (NewWriteBatch B db))"

text \<open>The four scopes of the handler, in the order of the code.\<close>

definition balanceScope ::
  "corelib \<Rightarrow> gobCodec \<Rightarrow> ('db, 'wb) badger \<Rightarrow> chainDB \<Rightarrow> u64 \<Rightarrow> 'db \<Rightarrow> 'db option" where
  "balanceScope L G B C h db = publicKeyScope L G B DESOBalance (decodeBalanceItem L) h (iterBalances C) db"

definition creatorCoinScope ::
  "corelib \<Rightarrow> gobCodec \<Rightarrow> ('db, 'wb) badger \<Rightarrow> chainCodec \<Rightarrow> chainDB \<Rightarrow> u64 \<Rightarrow> 'db \<Rightarrow> 'db option" where
  "creatorCoinScope L G B X C h db =
     publicKeyScope L G B CreatorCoinLockedBalance (decodeCreatorCoinItem L X C) h (iterCreatorCoins C) db"

definition validatorScope ::
  "corelib \<Rightarrow> gobCodec \<Rightarrow> ('db, 'wb) badger \<Rightarrow> chainCodec \<Rightarrow> chainDB \<Rightarrow> u64 \<Rightarrow> 'db \<Rightarrow> 'db option" where
  "validatorScope L G B X C h db =
     publicKeyScope L G B ValidatorStakedDESOBalance (decodeValidatorItem L X) h (iterValidators C) db"

lemmas publicKeyScopes = balanceScope_def creatorCoinScope_def validatorScope_def

text \<open>
  \<open>FirstSnapshotBlockHeight\<close> is \<open>None\<close> where the blockchain has no snapshot.
\<close>

definition handleSnapshotCompleted ::
  "corelib \<Rightarrow> gobCodec \<Rightarrow> ('db, 'wb) badger \<Rightarrow> chainCodec \<Rightarrow> chainDB \<Rightarrow> u64 option \<Rightarrow> 'db \<Rightarrow> 'db option" where
  "handleSnapshotCompleted L G B X C FirstSnapshotBlockHeight db =
     (case FirstSnapshotBlockHeight of
        None \<Rightarrow> Some db
      | Some h \<Rightarrow>
          if h = 0 then Some db
          else
            do { db \<leftarrow> balanceScope L G B C h db;
                 db \<leftarrow> creatorCoinScope L G B X C h db;
                 db \<leftarrow> validatorScope L G B X C h db;
                 lockedStakeScope L G B X h (iterLockedStakes C) db })"

section \<open>The writes keep the contract of the partition\<close>

text \<open>The history of a locked stake entry.\<close>

definition lockedSnapshotsOf ::
  "corelib \<Rightarrow> (bytes \<rightharpoonup> bytes) \<Rightarrow> LockedStakeBalanceMapKey \<Rightarrow> (u64 \<times> u64) set" where
  "lockedSnapshotsOf L m k =
     {(h, b). PrefixLockedStakeBalanceSnapshots # mapStakerPKID k @ mapValidatorPKID k
        @ EncodeUint64 L (mapLockedAtEpochNumber k) @ EncodeUint64 L h @ EncodeUint64 L b \<in> dom m}"

text \<open>Encoding a map of integers to a buffer does not fail.\<close>

locale hypersync_setting = hypersync_store L B kv pending G
  for L :: corelib and B :: "('db, 'wb) badger" and kv :: "'db \<Rightarrow> bytes \<rightharpoonup> bytes"
    and pending :: "'wb \<Rightarrow> (bytes \<times> bytes) list" and G :: gobCodec +
  assumes encode_balances_ok: "gobEncodeBalances G m \<noteq> None"
    and encode_locked_ok: "gobEncodeLocked G m' \<noteq> None"
begin

text \<open>The database a batch would leave, and what a scope of one type does not touch.\<close>

definition view :: "'db \<Rightarrow> 'wb \<Rightarrow> bytes \<rightharpoonup> bytes" where
  "view db wb = applyWrites (pending wb) (kv db)"

definition sameButType :: "BalanceType \<Rightarrow> (bytes \<rightharpoonup> bytes) \<Rightarrow> (bytes \<rightharpoonup> bytes) \<Rightarrow> bool" where
  "sameButType t m m' \<longleftrightarrow>
     (\<forall>t'. t' \<noteq> t \<longrightarrow> publicKeyBalance t' \<longrightarrow>
        (\<forall>pk. snapshotsOf L m' t' pk = snapshotsOf L m t' pk) \<and>
        (\<forall>h. hypersyncAt L G m' h t' = hypersyncAt L G m h t')) \<and>
     (t \<noteq> LockedStakeDESOBalance \<longrightarrow>
        (\<forall>k. lockedSnapshotsOf L m' k = lockedSnapshotsOf L m k) \<and>
        (\<forall>h. hypersyncLockedAt L G m' h = hypersyncLockedAt L G m h))"

lemma view_new [simp]: "view db (NewWriteBatch B db') = kv db"
  by (simp add: view_def)

lemma view_set [simp]: "view db (fst (wbSet B wb k v)) = (view db wb)(k \<mapsto> v)"
  by (simp add: view_def)

lemma view_flush: "kv (fst (wbFlush B wb db)) = view db wb"
  by (simp add: view_def)

lemma sameButType_refl: "sameButType t m m"
  by (simp add: sameButType_def)

lemma snapshotsOf_upd:
  assumes "BalanceTypePrefix t = Some p" and "length pk = 33" and "length pk' = 33"
  shows "snapshotsOf L (m(p # pk @ EncodeUint64 L h @ EncodeUint64 L b \<mapsto> v)) t pk' =
    (if pk' = pk then insert (h, b) (snapshotsOf L m t pk) else snapshotsOf L m t pk')"
  using assms(2,3) by (auto simp: snapshotsOf_def balanceSnapshotKey_def assms(1))

lemma snapshotsOf_upd_other:
  assumes "BalanceTypePrefix t = Some p" and "k \<noteq> []" and "hd k \<noteq> p"
  shows "snapshotsOf L (m(k \<mapsto> v)) t pk = snapshotsOf L m t pk"
  using assms by (auto simp: snapshotsOf_def balanceSnapshotKey_def)

lemma lockedSnapshotsOf_upd_other:
  assumes "k \<noteq> []" and "hd k \<noteq> PrefixLockedStakeBalanceSnapshots"
  shows "lockedSnapshotsOf L (m(k \<mapsto> v)) k' = lockedSnapshotsOf L m k'"
  using assms by (auto simp: lockedSnapshotsOf_def)

lemma hypersync_upd_other:
  assumes "k \<noteq> []" and "hd k \<noteq> PrefixHypersyncBlockHeightToBalances"
  shows "hypersyncAt L G (m(k \<mapsto> v)) h t = hypersyncAt L G m h t"
    and "hypersyncLockedAt L G (m(k \<mapsto> v)) h = hypersyncLockedAt L G m h"
    and "hypersyncDecodes L G (m(k \<mapsto> v)) = hypersyncDecodes L G m"
proof -
  have "hypersyncHeightToBlockKey L h t \<noteq> k" for h t
    using assms(2) by (auto simp: hypersyncHeightToBlockKey_def)
  then show "hypersyncAt L G (m(k \<mapsto> v)) h t = hypersyncAt L G m h t"
    "hypersyncLockedAt L G (m(k \<mapsto> v)) h = hypersyncLockedAt L G m h"
    "hypersyncDecodes L G (m(k \<mapsto> v)) = hypersyncDecodes L G m"
    by (simp_all add: hypersyncAt_def hypersyncLockedAt_def hypersyncDecodes_def)
qed

lemma wfIndex_upd: "wfIndex L m \<Longrightarrow> wfKey L k \<Longrightarrow> wfIndex L (m(k \<mapsto> v))"
  by (auto simp: wfIndex_def)

end

locale public_scope = hypersync_setting L B kv pending G
  for L :: corelib and B :: "('db, 'wb) badger" and kv :: "'db \<Rightarrow> bytes \<rightharpoonup> bytes"
    and pending :: "'wb \<Rightarrow> (bytes \<times> bytes) list" and G :: gobCodec +
  fixes t :: BalanceType and db0 :: 'db
  assumes publicKey: "publicKeyBalance t"
begin

lemma not_locked: "t \<noteq> LockedStakeDESOBalance"
  using publicKey by (auto simp: publicKeyBalance_cases index_consts)

definition scopeInv :: "'wb \<Rightarrow> bool" where
  "scopeInv wb \<longleftrightarrow> wfIndex L (view db0 wb) \<and> hypersyncDecodes L G (view db0 wb) \<and>
     sameButType t (kv db0) (view db0 wb)"

lemma put_single:
  assumes k: "length k = 33" and inv: "scopeInv wb"
  shows "\<exists>wb'. PutSingleBalanceSnapshotWithWB L B wb h t k b = Some (wb', True) \<and> scopeInv wb' \<and>
    (\<lambda>x. hypersyncAt L G (view db0 wb') x t) = (\<lambda>x. hypersyncAt L G (view db0 wb) x t) \<and>
    (\<forall>k'. length k' = 33 \<longrightarrow> snapshotsOf L (view db0 wb') t k' =
      (if k' = k then insert (h, b) (snapshotsOf L (view db0 wb) t k)
       else snapshotsOf L (view db0 wb) t k'))"
proof -
  obtain p where p: "p \<in> snapshotPrefixes" "BalanceTypePrefix t = Some p"
    using BalanceTypePrefix_publicKey [OF publicKey] by blast
  let ?key = "p # k @ EncodeUint64 L h @ EncodeUint64 L b"
  let ?wb = "fst (wbSet B wb ?key [])"
  have "wbSet B wb ?key [] = (?wb, True)" using set_ok [of wb ?key "[]"] by (simp add: prod_eq_iff)
  then have put: "PutSingleBalanceSnapshotWithWB L B wb h t k b = Some (?wb, True)"
    using publicKey p(2) by (simp add: PutSingleBalanceSnapshotWithWB_def balanceSnapshotKey_def)
  have hd: "hd ?key \<noteq> PrefixHypersyncBlockHeightToBalances" "hd ?key \<noteq> PrefixLockedStakeBalanceSnapshots"
    using p(1) by (auto simp: snapshotPrefixes_def index_consts)
  note other = hypersync_upd_other [OF _ hd(1), of "view db0 wb" "[]"]
    lockedSnapshotsOf_upd_other [OF _ hd(2), of "view db0 wb" "[]"]
  have "snapshotsOf L ((view db0 wb)(?key \<mapsto> [])) t' pk = snapshotsOf L (view db0 wb) t' pk"
    if "t' \<noteq> t" "publicKeyBalance t'" for t' pk
  proof -
    obtain p' where p': "BalanceTypePrefix t' = Some p'"
      using BalanceTypePrefix_publicKey [OF \<open>publicKeyBalance t'\<close>] by blast
    moreover have "p' \<noteq> p" using BalanceTypePrefix_inj [OF p'] p(2) \<open>t' \<noteq> t\<close> by metis
    ultimately show ?thesis by (intro snapshotsOf_upd_other) auto
  qed
  moreover have "wfKey L ?key"
    using wfKey_snapshotWrites [OF p(1), of "[(k, b)]"] k by (simp add: snapshotWrites_def)
  ultimately have "scopeInv ?wb"
    using inv other by (simp add: scopeInv_def sameButType_def wfIndex_upd)
  then show ?thesis
    using put other snapshotsOf_upd [OF p(2) k] by (intro exI [of _ ?wb]) simp
qed

lemma put_map:
  assumes m: "\<forall>k \<in> fst ` set m. length k = 33" and inv: "scopeInv wb"
    and wb': "wb' = PutHypersyncBlockBalancesWithWB L G B wb h t m"
  shows "scopeInv wb'"
    and "(\<lambda>x. hypersyncAt L G (view db0 wb') x t) =
      (\<lambda>x. hypersyncAt L G (view db0 wb) x t)(h := map_of m)"
    and "snapshotsOf L (view db0 wb') t k = snapshotsOf L (view db0 wb) t k"
proof -
  obtain bs where bs: "gobEncodeBalances G m = Some bs" using encode_balances_ok [of m] by auto
  let ?key = "hypersyncHeightToBlockKey L h t"
  have view: "view db0 wb' = (view db0 wb)(?key \<mapsto> bs)"
    using publicKey bs by (simp add: wb' PutHypersyncBlockBalancesWithWB_def)
  have key: "?key \<noteq> []" "hd ?key = PrefixHypersyncBlockHeightToBalances"
    by (simp_all add: hypersyncHeightToBlockKey_def)
  have snaps: "snapshotsOf L ((view db0 wb)(?key \<mapsto> bs)) t' pk = snapshotsOf L (view db0 wb) t' pk"
    if t': "publicKeyBalance t'" for t' pk
  proof -
    obtain p' where "p' \<in> snapshotPrefixes" "BalanceTypePrefix t' = Some p'"
      using BalanceTypePrefix_publicKey [OF t'] by blast
    then show ?thesis using key
      by (intro snapshotsOf_upd_other) (auto simp: snapshotPrefixes_def index_consts)
  qed
  have locked: "lockedSnapshotsOf L ((view db0 wb)(?key \<mapsto> bs)) k = lockedSnapshotsOf L (view db0 wb) k" for k
    using key by (intro lockedSnapshotsOf_upd_other) (auto simp: index_consts)
  have lockedAt: "hypersyncLockedAt L G ((view db0 wb)(?key \<mapsto> bs)) x = hypersyncLockedAt L G (view db0 wb) x" for x
    using not_locked by (simp add: hypersyncLockedAt_def)
  show "snapshotsOf L (view db0 wb') t k = snapshotsOf L (view db0 wb) t k"
    unfolding view by (rule snaps [OF publicKey])
  show "(\<lambda>x. hypersyncAt L G (view db0 wb') x t) =
      (\<lambda>x. hypersyncAt L G (view db0 wb) x t)(h := map_of m)"
    unfolding view using hypersyncAt_put [OF bs m] by auto
  have at: "hypersyncAt L G ((view db0 wb)(?key \<mapsto> bs)) x t' = hypersyncAt L G (view db0 wb) x t'"
    if "t' \<noteq> t" for x t'
    unfolding hypersyncAt_put [OF bs m] using that by simp
  show "scopeInv wb'"
    using inv hypersyncDecodes_put [OF _ bs m publicKey] snaps locked lockedAt at
    unfolding scopeInv_def view sameButType_def by (simp add: wfIndex_upd)
qed

end

sublocale public_scope \<subseteq> scope: partition "\<lambda>k. length k = 33"
  "\<lambda>wb height pubKey balance. PutSingleBalanceSnapshotWithWB L B wb height t pubKey balance"
  "\<lambda>wb height m. PutHypersyncBlockBalancesWithWB L G B wb height t m"
  "\<lambda>wb k. snapshotsOf L (view db0 wb) t k" "\<lambda>wb x. hypersyncAt L G (view db0 wb) x t" scopeInv
proof (unfold_locales, goal_cases)
  case (1 k wb h b)
  then show ?case by (rule put_single)
next
  case (2 m wb h)
  show ?case by (rule put_map(1) [OF 2 refl])
next
  case (3 m wb h)
  show ?case by (rule put_map(2) [OF 3 refl])
next
  case (4 m wb k' h)
  show ?case by (rule put_map(3) [OF 4(1,2) refl])
qed

locale locked_scope = hypersync_setting L B kv pending G
  for L :: corelib and B :: "('db, 'wb) badger" and kv :: "'db \<Rightarrow> bytes \<rightharpoonup> bytes"
    and pending :: "'wb \<Rightarrow> (bytes \<times> bytes) list" and G :: gobCodec +
  fixes db0 :: 'db
begin

definition lockedInv :: "'wb \<Rightarrow> bool" where
  "lockedInv wb \<longleftrightarrow> wfIndex L (view db0 wb) \<and> hypersyncDecodes L G (view db0 wb) \<and>
     sameButType LockedStakeDESOBalance (kv db0) (view db0 wb)"

lemma publicKey_other:
  "publicKeyBalance t' \<Longrightarrow> hd k = PrefixLockedStakeBalanceSnapshots \<or>
     hd k = PrefixHypersyncBlockHeightToBalances \<Longrightarrow> k \<noteq> [] \<Longrightarrow>
   snapshotsOf L (m(k \<mapsto> v)) t' pk = snapshotsOf L m t' pk"
proof -
  assume "publicKeyBalance t'" and "hd k = PrefixLockedStakeBalanceSnapshots \<or>
     hd k = PrefixHypersyncBlockHeightToBalances" and "k \<noteq> []"
  moreover obtain p' where "p' \<in> snapshotPrefixes" "BalanceTypePrefix t' = Some p'"
    using BalanceTypePrefix_publicKey [OF calculation(1)] by blast
  ultimately show ?thesis
    by (intro snapshotsOf_upd_other) (auto simp: snapshotPrefixes_def index_consts)
qed

lemma put_single:
  assumes k: "lockedKeyLengths k" and inv: "lockedInv wb"
  shows "\<exists>wb'. PutSingleLockedStakeBalanceSnapshotWithWB L B wb h LockedStakeDESOBalance
      (mapStakerPKID k) (mapValidatorPKID k) (mapLockedAtEpochNumber k) b = Some (wb', True) \<and>
    lockedInv wb' \<and> (\<lambda>x. hypersyncLockedAt L G (view db0 wb') x) =
      (\<lambda>x. hypersyncLockedAt L G (view db0 wb) x) \<and>
    (\<forall>k'. lockedKeyLengths k' \<longrightarrow> lockedSnapshotsOf L (view db0 wb') k' =
      (if k' = k then insert (h, b) (lockedSnapshotsOf L (view db0 wb) k)
       else lockedSnapshotsOf L (view db0 wb) k'))"
proof -
  let ?key = "PrefixLockedStakeBalanceSnapshots # mapStakerPKID k @ mapValidatorPKID k
        @ EncodeUint64 L (mapLockedAtEpochNumber k) @ EncodeUint64 L h @ EncodeUint64 L b"
  let ?wb = "fst (wbSet B wb ?key [])"
  have "wbSet B wb ?key [] = (?wb, True)" using set_ok [of wb ?key "[]"] by (simp add: prod_eq_iff)
  then have put: "PutSingleLockedStakeBalanceSnapshotWithWB L B wb h LockedStakeDESOBalance
      (mapStakerPKID k) (mapValidatorPKID k) (mapLockedAtEpochNumber k) b = Some (?wb, True)"
    by (simp add: PutSingleLockedStakeBalanceSnapshotWithWB_def lockedStakeBalanceSnapshotKey_def
        BalanceTypePrefix_def index_consts)
  have hd: "hd ?key \<noteq> PrefixHypersyncBlockHeightToBalances" by (simp add: index_consts)
  note other = hypersync_upd_other [OF _ hd, of "view db0 wb" "[]"]
  have "wfKey L ?key"
    using wfKey_lockedWrites [of "[(k, b)]"] k by (simp add: lockedWrites_def lockedKeyLengths_def)
  then have "lockedInv ?wb"
    using inv other publicKey_other by (simp add: lockedInv_def sameButType_def wfIndex_upd)
  moreover have "lockedSnapshotsOf L ((view db0 wb)(?key \<mapsto> [])) k' =
      (if k' = k then insert (h, b) (lockedSnapshotsOf L (view db0 wb) k)
       else lockedSnapshotsOf L (view db0 wb) k')" if "lockedKeyLengths k'" for k'
    using k that by (cases k, cases k') (auto simp: lockedSnapshotsOf_def lockedKeyLengths_def)
  ultimately show ?thesis using put other by (intro exI [of _ ?wb]) simp
qed

lemma put_map:
  assumes m: "\<forall>k \<in> fst ` set m. lockedKeyLengths k" and inv: "lockedInv wb"
    and wb': "wb' = PutHypersyncBlockLockedStakeBalancesWithWB L G B wb h m LockedStakeDESOBalance"
  shows "lockedInv wb'"
    and "(\<lambda>x. hypersyncLockedAt L G (view db0 wb') x) =
      (\<lambda>x. hypersyncLockedAt L G (view db0 wb) x)(h := map_of m)"
    and "lockedSnapshotsOf L (view db0 wb') k = lockedSnapshotsOf L (view db0 wb) k"
proof -
  obtain bs where bs: "gobEncodeLocked G m = Some bs" using encode_locked_ok [of m] by auto
  let ?key = "hypersyncHeightToBlockKey L h LockedStakeDESOBalance"
  have view: "view db0 wb' = (view db0 wb)(?key \<mapsto> bs)"
    using bs by (simp add: wb' PutHypersyncBlockLockedStakeBalancesWithWB_def)
  have key: "?key \<noteq> []" "hd ?key = PrefixHypersyncBlockHeightToBalances"
    by (simp_all add: hypersyncHeightToBlockKey_def)
  have at: "hypersyncAt L G ((view db0 wb)(?key \<mapsto> bs)) x t' = hypersyncAt L G (view db0 wb) x t'"
    if "t' \<noteq> LockedStakeDESOBalance" for x t'
    using that by (simp add: hypersyncAt_def)
  show "lockedSnapshotsOf L (view db0 wb') k = lockedSnapshotsOf L (view db0 wb) k"
    unfolding view using key by (intro lockedSnapshotsOf_upd_other) (auto simp: index_consts)
  show "(\<lambda>x. hypersyncLockedAt L G (view db0 wb') x) =
      (\<lambda>x. hypersyncLockedAt L G (view db0 wb) x)(h := map_of m)"
    unfolding view using hypersyncLockedAt_put [OF bs m] by auto
  show "lockedInv wb'"
    using inv hypersyncDecodes_put_locked [OF _ bs m] publicKey_other key at
    unfolding lockedInv_def view sameButType_def by (simp add: wfIndex_upd)
qed

end

sublocale locked_scope \<subseteq> scope: partition lockedKeyLengths
  "\<lambda>wb height k balance. PutSingleLockedStakeBalanceSnapshotWithWB L B wb height LockedStakeDESOBalance
     (mapStakerPKID k) (mapValidatorPKID k) (mapLockedAtEpochNumber k) balance"
  "\<lambda>wb height m. PutHypersyncBlockLockedStakeBalancesWithWB L G B wb height m LockedStakeDESOBalance"
  "\<lambda>wb k. lockedSnapshotsOf L (view db0 wb) k" "\<lambda>wb x. hypersyncLockedAt L G (view db0 wb) x" lockedInv
proof (unfold_locales, goal_cases)
  case (1 k wb h b)
  then show ?case by (rule put_single)
next
  case (2 m wb h)
  show ?case by (rule put_map(1) [OF 2 refl])
next
  case (3 m wb h)
  show ?case by (rule put_map(2) [OF 3 refl])
next
  case (4 m wb k' h)
  show ?case by (rule put_map(3) [OF 4(1,2) refl])
qed

section \<open>The specification of the spread\<close>

text \<open>
  What a scope promises for the entries \<open>kvs\<close> and the snapshot height \<open>H\<close>: each entry is stored at
  exactly one height between 1 and \<open>H\<close>, both as a snapshot and in the block of that height.
\<close>

definition spread ::
  "u64 \<Rightarrow> ('k \<Rightarrow> bool) \<Rightarrow> ('k, u64) gomap \<Rightarrow> ('k \<Rightarrow> (u64 \<times> u64) set) \<Rightarrow> (u64 \<Rightarrow> 'k \<rightharpoonup> u64) \<Rightarrow> bool" where
  "spread H good kvs snaps blocks \<longleftrightarrow>
     (\<forall>k. good k \<longrightarrow>
        (case map_of kvs k of
           None \<Rightarrow> snaps k = {} \<and> (\<forall>x. blocks x k = None)
         | Some b \<Rightarrow> \<exists>hk. 1 \<le> hk \<and> hk \<le> H \<and> snaps k = {(hk, b)} \<and>
             (\<forall>x. blocks x k = (if x = hk then Some b else None))))"

text \<open>The sum of what the blocks 1 to \<open>h\<close> credit to \<open>k\<close>.\<close>

definition creditedUpTo :: "(u64 \<Rightarrow> 'k \<rightharpoonup> u64) \<Rightarrow> 'k \<Rightarrow> u64 \<Rightarrow> nat" where
  "creditedUpTo blocks k h =
     (\<Sum>x \<in> {1..unat h}. case blocks (of_nat x) k of None \<Rightarrow> 0 | Some b \<Rightarrow> unat b)"

lemma spread_latest:
  assumes "spread H good kvs snaps blocks" and "good k"
  shows "unat (latest (snaps k) h) = creditedUpTo blocks k h"
    and "H \<le> h \<Longrightarrow> latest (snaps k) h = (case map_of kvs k of None \<Rightarrow> 0 | Some b \<Rightarrow> b)"
proof -
  have "unat (latest (snaps k) h) = creditedUpTo blocks k h \<and>
    (H \<le> h \<longrightarrow> latest (snaps k) h = (case map_of kvs k of None \<Rightarrow> 0 | Some b \<Rightarrow> b))"
  proof (cases "map_of kvs k")
    case None
    then have "snaps k = {}" "\<forall>x. blocks x k = None" using assms by (auto simp: spread_def)
    then show ?thesis using None by (simp add: creditedUpTo_def latest_def)
  next
    case (Some b)
    then obtain hk where hk: "1 \<le> hk" "hk \<le> H" "snaps k = {(hk, b)}"
      "\<And>x. blocks x k = (if x = hk then Some b else None)"
      using assms by (fastforce simp: spread_def)
    have eq: "of_nat x = hk \<longleftrightarrow> x = unat hk" if "x \<in> {1..unat h}" for x
    proof -
      have "x < 2 ^ 64" using that unat_u64_bound [of h] by auto
      then show ?thesis by (auto simp: unat_of_nat take_bit_nat_eq_self)
    qed
    have "(case blocks (of_nat x) k of None \<Rightarrow> 0 | Some b \<Rightarrow> unat b) =
        (if x = unat hk then unat b else 0)" if "x \<in> {1..unat h}" for x
      using eq [OF that] by (simp add: hk(4))
    then have "creditedUpTo blocks k h = (\<Sum>x \<in> {1..unat h}. if x = unat hk then unat b else 0)"
      unfolding creditedUpTo_def by (rule sum.cong [OF refl])
    also have "\<dots> = (if hk \<le> h then unat b else 0)"
      using hk(1) by (simp add: word_le_nat_alt)
    finally show ?thesis using Some hk by (auto simp: latest_single)
  qed
  then show "unat (latest (snaps k) h) = creditedUpTo blocks k h"
    "H \<le> h \<Longrightarrow> latest (snaps k) h = (case map_of kvs k of None \<Rightarrow> 0 | Some b \<Rightarrow> b)" by auto
qed

text \<open>The entries the four iterations decode to.\<close>

definition snapshotEntries ::
  "corelib \<Rightarrow> chainCodec \<Rightarrow> chainDB \<Rightarrow> (BalanceType \<Rightarrow> (pubkey, u64) gomap) \<Rightarrow>
     (LockedStakeBalanceMapKey, u64) gomap \<Rightarrow> bool" where
  "snapshotEntries L X C entries locked \<longleftrightarrow>
     map (decodeBalanceItem L) (iterBalances C) = map Done (entries DESOBalance) \<and>
     map (decodeCreatorCoinItem L X C) (iterCreatorCoins C) = map Done (entries CreatorCoinLockedBalance) \<and>
     map (decodeValidatorItem L X) (iterValidators C) = map Done (entries ValidatorStakedDESOBalance) \<and>
     map (decodeLockedStakeItem X) (iterLockedStakes C) = map Done locked \<and>
     (\<forall>t. length (entries t) < 2 ^ 64 \<and> distinct (map fst (entries t)) \<and>
        (\<forall>k \<in> fst ` set (entries t). length k = 33)) \<and>
     length locked < 2 ^ 64 \<and> distinct (map fst locked) \<and>
     (\<forall>k \<in> fst ` set locked. lockedKeyLengths k)"

context public_scope
begin

lemma scope_result:
  assumes "0 < H" and "length kvs < 2 ^ 64" and "distinct (map fst kvs)"
    and "\<forall>k \<in> fst ` set kvs. length k = 33" and "map decode items = map Done kvs"
    and "wfIndex L (kv db0)" and "hypersyncDecodes L G (kv db0)"
    and "\<forall>k. snapshotsOf L (kv db0) t k = {}" and "\<forall>x. hypersyncAt L G (kv db0) x t = Map.empty"
  shows "\<exists>db'. publicKeyScope L G B t decode H items db0 = Some db' \<and>
    wfIndex L (kv db') \<and> hypersyncDecodes L G (kv db') \<and> sameButType t (kv db0) (kv db') \<and>
    spread H (\<lambda>k. length k = 33) kvs (snapshotsOf L (kv db') t) (\<lambda>x. hypersyncAt L G (kv db') x t)"
proof -
  have "scopeInv (NewWriteBatch B db0)"
    using assms(6,7) by (simp add: scopeInv_def sameButType_refl)
  from scope.scopeWrites_account [OF assms(1,2) this assms(4,3,5)] assms(8,9) obtain wb where
    run: "publicKeyScope L G B t decode H items db0 = Some (fst (wbFlush B wb db0))" and inv: "scopeInv wb"
    and "spread H (\<lambda>k. length k = 33) kvs (snapshotsOf L (view db0 wb) t)
      (\<lambda>x. hypersyncAt L G (view db0 wb) x t)"
    by (auto simp: publicKeyScope_def flushScope_def spread_def)
  then show ?thesis unfolding scopeInv_def view_flush [of wb db0, symmetric] by blast
qed

end

context locked_scope
begin

lemma scope_result:
  assumes "0 < H" and "length kvs < 2 ^ 64" and "distinct (map fst kvs)"
    and "\<forall>k \<in> fst ` set kvs. lockedKeyLengths k"
    and "map (decodeLockedStakeItem X) items = map Done kvs"
    and "wfIndex L (kv db0)" and "hypersyncDecodes L G (kv db0)"
    and "\<forall>k. lockedSnapshotsOf L (kv db0) k = {}" and "\<forall>x. hypersyncLockedAt L G (kv db0) x = Map.empty"
  shows "\<exists>db'. lockedStakeScope L G B X H items db0 = Some db' \<and>
    wfIndex L (kv db') \<and> hypersyncDecodes L G (kv db') \<and>
    sameButType LockedStakeDESOBalance (kv db0) (kv db') \<and>
    spread H lockedKeyLengths kvs (lockedSnapshotsOf L (kv db')) (\<lambda>x. hypersyncLockedAt L G (kv db') x)"
proof -
  have "lockedInv (NewWriteBatch B db0)"
    using assms(6,7) by (simp add: lockedInv_def sameButType_refl)
  from scope.scopeWrites_account [OF assms(1,2) this assms(4,3,5)] assms(8,9) obtain wb where
    run: "lockedStakeScope L G B X H items db0 = Some (fst (wbFlush B wb db0))" and inv: "lockedInv wb"
    and "spread H lockedKeyLengths kvs (lockedSnapshotsOf L (view db0 wb))
      (\<lambda>x. hypersyncLockedAt L G (view db0 wb) x)"
    by (auto simp: lockedStakeScope_def flushScope_def spread_def)
  then show ?thesis unfolding lockedInv_def view_flush [of wb db0, symmetric] by blast
qed

end

section \<open>The four scopes together\<close>

context hypersync_setting
begin

lemma sameButType_frame:
  assumes "sameButType t m m'"
  shows "t' \<noteq> t \<Longrightarrow> publicKeyBalance t' \<Longrightarrow> snapshotsOf L m' t' = snapshotsOf L m t'"
    and "t' \<noteq> t \<Longrightarrow> publicKeyBalance t' \<Longrightarrow> hypersyncAt L G m' x t' = hypersyncAt L G m x t'"
    and "t \<noteq> LockedStakeDESOBalance \<Longrightarrow> lockedSnapshotsOf L m' = lockedSnapshotsOf L m"
    and "t \<noteq> LockedStakeDESOBalance \<Longrightarrow> hypersyncLockedAt L G m' x = hypersyncLockedAt L G m x"
  using assms by (auto simp: sameButType_def)

lemma empty_index:
  assumes "m = Map.empty"
  shows "wfIndex L m" "hypersyncDecodes L G m" "snapshotsOf L m t k = {}"
    "hypersyncAt L G m x t = Map.empty" "lockedSnapshotsOf L m k' = {}"
    "hypersyncLockedAt L G m x = Map.empty"
  using assms by (simp_all add: wfIndex_def hypersyncDecodes_def snapshotsOf_def hypersyncAt_def
      lockedSnapshotsOf_def hypersyncLockedAt_def)

lemma handleSnapshotCompleted_result:
  assumes H: "0 < H" and entries: "snapshotEntries L X C entries locked" and fresh: "kv db = Map.empty"
  shows "\<exists>db'. handleSnapshotCompleted L G B X C (Some H) db = Some db' \<and>
    wfIndex L (kv db') \<and> hypersyncDecodes L G (kv db') \<and>
    (\<forall>t. publicKeyBalance t \<longrightarrow> spread H (\<lambda>k. length k = 33) (entries t)
       (snapshotsOf L (kv db') t) (\<lambda>x. hypersyncAt L G (kv db') x t)) \<and>
    spread H lockedKeyLengths locked (lockedSnapshotsOf L (kv db')) (\<lambda>x. hypersyncLockedAt L G (kv db') x)"
proof -
  note E = entries [unfolded snapshotEntries_def]
  have types: "publicKeyBalance DESOBalance" "publicKeyBalance CreatorCoinLockedBalance"
    "publicKeyBalance ValidatorStakedDESOBalance"
    "DESOBalance \<noteq> CreatorCoinLockedBalance" "DESOBalance \<noteq> ValidatorStakedDESOBalance"
    "CreatorCoinLockedBalance \<noteq> ValidatorStakedDESOBalance" "DESOBalance \<noteq> LockedStakeDESOBalance"
    "CreatorCoinLockedBalance \<noteq> LockedStakeDESOBalance"
    "ValidatorStakedDESOBalance \<noteq> LockedStakeDESOBalance"
    by (simp_all add: publicKeyBalance_cases index_consts)
  note scope = public_scope.scope_result [OF public_scope.intro [OF hypersync_setting_axioms
        public_scope_axioms.intro] H]
  note lscope = locked_scope.scope_result [OF locked_scope.intro [OF hypersync_setting_axioms] H]
  obtain db1 where r1: "publicKeyScope L G B DESOBalance (decodeBalanceItem L) H (iterBalances C) db = Some db1"
    and i1: "wfIndex L (kv db1)" "hypersyncDecodes L G (kv db1)" "sameButType DESOBalance (kv db) (kv db1)"
    and s1: "spread H (\<lambda>k. length k = 33) (entries DESOBalance) (snapshotsOf L (kv db1) DESOBalance)
      (\<lambda>x. hypersyncAt L G (kv db1) x DESOBalance)"
    using scope [OF types(1), of "entries DESOBalance" "decodeBalanceItem L" "iterBalances C" db] E
      empty_index [OF fresh] by auto
  note f1 = sameButType_frame [OF i1(3)]
  obtain db2 where r2: "publicKeyScope L G B CreatorCoinLockedBalance (decodeCreatorCoinItem L X C) H
      (iterCreatorCoins C) db1 = Some db2"
    and i2: "wfIndex L (kv db2)" "hypersyncDecodes L G (kv db2)"
      "sameButType CreatorCoinLockedBalance (kv db1) (kv db2)"
    and s2: "spread H (\<lambda>k. length k = 33) (entries CreatorCoinLockedBalance)
      (snapshotsOf L (kv db2) CreatorCoinLockedBalance) (\<lambda>x. hypersyncAt L G (kv db2) x CreatorCoinLockedBalance)"
    using scope [OF types(2), of "entries CreatorCoinLockedBalance" "decodeCreatorCoinItem L X C"
        "iterCreatorCoins C" db1] E i1(1,2) empty_index [OF fresh] f1 types by auto
  note f2 = sameButType_frame [OF i2(3)]
  obtain db3 where r3: "publicKeyScope L G B ValidatorStakedDESOBalance (decodeValidatorItem L X) H
      (iterValidators C) db2 = Some db3"
    and i3: "wfIndex L (kv db3)" "hypersyncDecodes L G (kv db3)"
      "sameButType ValidatorStakedDESOBalance (kv db2) (kv db3)"
    and s3: "spread H (\<lambda>k. length k = 33) (entries ValidatorStakedDESOBalance)
      (snapshotsOf L (kv db3) ValidatorStakedDESOBalance) (\<lambda>x. hypersyncAt L G (kv db3) x ValidatorStakedDESOBalance)"
    using scope [OF types(3), of "entries ValidatorStakedDESOBalance" "decodeValidatorItem L X"
        "iterValidators C" db2] E i2(1,2) empty_index [OF fresh] f1 f2 types by auto
  note f3 = sameButType_frame [OF i3(3)]
  obtain db4 where r4: "lockedStakeScope L G B X H (iterLockedStakes C) db3 = Some db4"
    and i4: "wfIndex L (kv db4)" "hypersyncDecodes L G (kv db4)"
      "sameButType LockedStakeDESOBalance (kv db3) (kv db4)"
    and s4: "spread H lockedKeyLengths locked (lockedSnapshotsOf L (kv db4))
      (\<lambda>x. hypersyncLockedAt L G (kv db4) x)"
    using lscope [of locked X "iterLockedStakes C" db3] E i3(1,2) empty_index [OF fresh] f1 f2 f3 types by auto
  note f4 = sameButType_frame [OF i4(3)]
  have run: "handleSnapshotCompleted L G B X C (Some H) db = Some db4"
    using H r1 r2 r3 r4 by (auto simp: handleSnapshotCompleted_def publicKeyScopes)
  have "spread H (\<lambda>k. length k = 33) (entries t) (snapshotsOf L (kv db4) t) (\<lambda>x. hypersyncAt L G (kv db4) x t)"
    if "publicKeyBalance t" for t
    using that s1 s2 s3 f2 f3 f4 types unfolding publicKeyBalance_cases [of t] by (elim disjE) simp_all
  then show ?thesis using run i4(1,2) s4 by blast
qed

end

interpretation memory_hypersync: hypersync_setting refLib memStore map_of "\<lambda>wb. wb" refGob
  by unfold_locales (simp_all add: refGob_def)

interpretation memory_balance_scope: public_scope refLib memStore map_of "\<lambda>wb. wb" refGob DESOBalance db
  for db
  by unfold_locales (rule DESOBalance_prefix(1))

interpretation memory_locked_scope: locked_scope refLib memStore map_of "\<lambda>wb. wb" refGob db
  for db ..

section \<open>Errors of a scope\<close>

context hypersync_setting
begin

text \<open>The keys that a scope writes for the entries \<open>kvs\<close>.\<close>

definition scopeKeys :: "BalanceType \<Rightarrow> (pubkey \<times> u64) list \<Rightarrow> bytes set" where
  "scopeKeys t kvs =
     {k. \<exists>pk b h. (pk, b) \<in> set kvs \<and> balanceSnapshotKey L t pk h b = Some k} \<union>
     {hypersyncHeightToBlockKey L h t | h. True}"

lemma scope_stops:
  assumes "publicKeyBalance t" and "map decode before = map Done kvs" and "decode item = Err ()"
  shows "\<exists>wb. publicKeyScope L G B t decode H (before @ item # after) db = Some (wbCancel B wb db) \<and>
    fst ` set (pending wb) \<subseteq> scopeKeys t kvs"
proof -
  let ?Q = "\<lambda>wb. fst ` set (pending wb) \<subseteq> scopeKeys t kvs"
  have single: "\<exists>wb'. PutSingleBalanceSnapshotWithWB L B wb h t k b = Some (wb', True) \<and> ?Q wb'"
    if "?Q wb" "(k, b) \<in> set kvs" for wb h k b
  proof -
    obtain p where p: "BalanceTypePrefix t = Some p" using BalanceTypePrefix_publicKey [OF assms(1)] by blast
    let ?key = "p # k @ EncodeUint64 L h @ EncodeUint64 L b"
    have "balanceSnapshotKey L t k h b = Some ?key" by (simp add: balanceSnapshotKey_def p)
    then have "?key \<in> scopeKeys t kvs" using that(2) by (auto simp: scopeKeys_def)
    moreover have "wbSet B wb ?key [] = (fst (wbSet B wb ?key []), True)"
      using set_ok [of wb ?key "[]"] by (simp add: prod_eq_iff)
    ultimately show ?thesis using that(1) assms(1) p
      by (intro exI [of _ "fst (wbSet B wb ?key [])"])
        (simp add: PutSingleBalanceSnapshotWithWB_def balanceSnapshotKey_def)
  qed
  have map: "?Q (PutHypersyncBlockBalancesWithWB L G B wb h t m)" if "?Q wb" for wb h m
    using that by (auto simp: PutHypersyncBlockBalancesWithWB_def scopeKeys_def split: option.split)
  obtain wb where "scopeWrites decode (\<lambda>wb height. PutSingleBalanceSnapshotWithWB L B wb height t)
      (\<lambda>wb height. PutHypersyncBlockBalancesWithWB L G B wb height t) H (before @ item # after)
      (NewWriteBatch B db) = Err wb" and "?Q wb"
    using scopeWrites_stops [of ?Q kvs "\<lambda>wb height. PutSingleBalanceSnapshotWithWB L B wb height t"
        "\<lambda>wb height. PutHypersyncBlockBalancesWithWB L G B wb height t", OF single map assms(2,3)] by force
  then show ?thesis by (auto simp: publicKeyScope_def flushScope_def)
qed

text \<open>What such writes can add to the snapshots of an account.\<close>

lemma snapshots_of_scopeKeys:
  assumes "fst ` set ws \<subseteq> scopeKeys t kvs" and "publicKeyBalance t" and "publicKeyBalance t'"
    and "\<forall>k \<in> fst ` set kvs. length k = 33" and "length pk = 33"
  shows "snapshotsOf L m t' pk \<subseteq> snapshotsOf L (applyWrites ws m) t' pk"
    and "(h, b) \<in> snapshotsOf L (applyWrites ws m) t' pk \<Longrightarrow> (h, b) \<notin> snapshotsOf L m t' pk \<Longrightarrow>
      t' = t \<and> (pk, b) \<in> set kvs"
proof -
  obtain p p' where p: "BalanceTypePrefix t = Some p" "BalanceTypePrefix t' = Some p'" "p' \<in> snapshotPrefixes"
    using BalanceTypePrefix_publicKey [OF assms(2)] BalanceTypePrefix_publicKey [OF assms(3)] by blast
  show "snapshotsOf L m t' pk \<subseteq> snapshotsOf L (applyWrites ws m) t' pk"
    by (auto simp: snapshotsOf_def dom_applyWrites)
  assume "(h, b) \<in> snapshotsOf L (applyWrites ws m) t' pk" "(h, b) \<notin> snapshotsOf L m t' pk"
  then have "p' # pk @ EncodeUint64 L h @ EncodeUint64 L b \<in> scopeKeys t kvs"
    using assms(1) by (auto simp: snapshotsOf_def dom_applyWrites balanceSnapshotKey_def p)
  moreover have "p' \<noteq> PrefixHypersyncBlockHeightToBalances"
    using p(3) by (auto simp: snapshotPrefixes_def index_consts)
  ultimately obtain k b' h' where k: "(k, b') \<in> set kvs" "p' = p"
    "pk @ EncodeUint64 L h @ EncodeUint64 L b = k @ EncodeUint64 L h' @ EncodeUint64 L b'"
    by (auto simp: scopeKeys_def balanceSnapshotKey_def hypersyncHeightToBlockKey_def p)
  moreover have "length k = 33" using assms(4) k(1) by force
  ultimately have "k = pk" "b' = b" using assms(5) by auto
  then show "t' = t \<and> (pk, b) \<in> set kvs" using k(1,2) BalanceTypePrefix_inj p by metis
qed

end

lemma decoded_creators:
  assumes "core_library L" and "map (decodeCreatorCoinItem L X C) items = map Done kvs"
  shows "\<forall>k \<in> fst ` set kvs. length k = 33"
proof -
  have "length k = 33" if "decodeCreatorCoinItem L X C item = Done (k, b)" for item k b
    using that core_library.length_NewPublicKey [OF assms(1)]
    by (auto simp: decodeCreatorCoinItem_def Let_def split: option.splits if_splits)
  moreover have "\<exists>item. decodeCreatorCoinItem L X C item = Done kv" if "kv \<in> set kvs" for kv
    using arg_cong [OF assms(2), of set] that by (auto simp: image_iff) (metis imageI image_iff)
  ultimately show ?thesis by fastforce
qed

section \<open>A small chain for the witnesses\<close>

definition refCodec :: chainCodec where
  "refCodec =
     \<lparr>PublicKeyToPKID = copyArray 33, Uint256EncodedLength = 32,
      FixedWidthDecodeUint256 = (\<lambda>bs.
        if length bs < 32 then None else Some (of_nat (bigEndianVal (take 32 bs)), drop 32 bs)),
      DecodeLockedStakeEntry = (\<lambda>bs.
        if length bs < 82 then None
        else Some \<lparr>lockedStakerPKID = take 33 bs, lockedValidatorPKID = take 33 (drop 33 bs),
                   LockedAmountNanos = of_nat (bigEndianVal (take 8 (drop 66 bs))),
                   lockedAtEpochNumber = BigEndianUint64 (drop 74 bs), lockedIsDeleted = False\<rparr>)\<rparr>"

definition exampleChain :: chainDB where
  "exampleChain =
     \<lparr>iterBalances = [(10 # examplePk, Some (PutUint64 100)), (10 # replicate 33 8, Some (PutUint64 40)),
        (10 # replicate 33 9, Some (PutUint64 7))],
      iterCreatorCoins = [11 # PutUint64 55 @ examplePk],
      iterValidators = [],
      iterLockedStakes = [Some (replicate 33 7 @ replicate 33 9 @ PutUint64 12 @ PutUint64 3)],
      DBGetPublicKeyForPKIDWithTxn = (\<lambda>pkid. Some pkid)\<rparr>"

definition exampleEntries :: "BalanceType \<Rightarrow> (pubkey, u64) gomap" where
  "exampleEntries t =
     (if t = DESOBalance then [(examplePk, 100), (replicate 33 8, 40), (replicate 33 9, 7)]
      else if t = CreatorCoinLockedBalance then [(examplePk, 55)] else [])"

definition exampleLocked :: "(LockedStakeBalanceMapKey, u64) gomap" where
  "exampleLocked =
     [(\<lparr>mapStakerPKID = replicate 33 7, mapValidatorPKID = replicate 33 9, mapLockedAtEpochNumber = 3\<rparr>, 12)]"

lemma example_keys:
  "examplePk \<noteq> replicate 33 8" "examplePk \<noteq> replicate 33 9" "replicate 33 (8 :: u8) \<noteq> replicate 33 9"
  by (simp_all add: examplePk_def replicate_eq_replicate)

lemma exampleChain_entries: "snapshotEntries refLib refCodec exampleChain exampleEntries exampleLocked"
proof -
  have "map (decodeBalanceItem refLib) (iterBalances exampleChain) = map Done (exampleEntries DESOBalance)"
    by (simp add: exampleChain_def exampleEntries_def decodeBalanceItem_def sliceFrom_def)
  moreover have "map (decodeCreatorCoinItem refLib refCodec exampleChain) (iterCreatorCoins exampleChain) =
      map Done (exampleEntries CreatorCoinLockedBalance)"
    by (simp add: exampleChain_def exampleEntries_def decodeCreatorCoinItem_def sliceFrom_def
        refCodec_def PubKeyBytesLenCompressed_def index_consts)
  moreover have "map (decodeValidatorItem refLib refCodec) (iterValidators exampleChain) =
      map Done (exampleEntries ValidatorStakedDESOBalance)"
    by (simp add: exampleChain_def exampleEntries_def index_consts)
  moreover have "map (decodeLockedStakeItem refCodec) (iterLockedStakes exampleChain) =
      map Done exampleLocked"
    by (simp add: exampleChain_def exampleLocked_def decodeLockedStakeItem_def refCodec_def
        IsUint64_def Uint64_def)
  moreover have "length (exampleEntries t) < 2 ^ 64 \<and> distinct (map fst (exampleEntries t)) \<and>
      (\<forall>k \<in> fst ` set (exampleEntries t). length k = 33)" for t
    using example_keys by (auto simp: exampleEntries_def)
  ultimately show ?thesis
    by (simp add: snapshotEntries_def exampleLocked_def lockedKeyLengths_def)
qed

section \<open>Properties\<close>

text \<open>After the snapshot handler ran on an empty index, the balance of an account at any height is
  the sum of what the synthetic blocks 1 to that height credit to it, for each of the three balance
  types kept by public key, and from the snapshot height on it is the balance of the account in the
  chain snapshot. The handler does not panic.\<close>

theorem hypersync_blocks_add_up:
  assumes "hypersync_setting L B kv pending G" and "0 < H" and "snapshotEntries L X C entries locked"
    and "kv db = Map.empty" and "publicKeyBalance t" and "length pk = 33"
  shows "\<exists>db' b. handleSnapshotCompleted L G B X C (Some H) db = Some db' \<and>
    GetBalanceSnapshot L B db' t pk h = Some b \<and>
    unat b = creditedUpTo (\<lambda>x. hypersyncAt L G (kv db') x t) pk h \<and>
    (h < H \<or> b = (case map_of (entries t) pk of None \<Rightarrow> 0 | Some bal \<Rightarrow> bal))"
proof -
  obtain db' where run: "handleSnapshotCompleted L G B X C (Some H) db = Some db'"
    and wf: "wfIndex L (kv db')"
    and spread: "spread H (\<lambda>k. length k = 33) (entries t)
       (snapshotsOf L (kv db') t) (\<lambda>x. hypersyncAt L G (kv db') x t)"
    using hypersync_setting.handleSnapshotCompleted_result [OF assms(1-4)] assms(5) by blast
  have "index_store L B kv pending"
    using assms(1) by (simp add: hypersync_setting_def hypersync_store_def)
  from index_store.get_balance_latest [OF this wf assms(5,6)] spread_latest [OF spread assms(6)]
  show ?thesis using run by (metis not_le)
qed

theorem hypersync_blocks_add_up_witness:
  "\<exists>db'. handleSnapshotCompleted refLib refGob memStore refCodec exampleChain (Some 2) [] = Some db' \<and>
     GetBalanceSnapshot refLib memStore db' DESOBalance examplePk 2 = Some 100"
  using hypersync_blocks_add_up [OF memory_hypersync.hypersync_setting_axioms _ exampleChain_entries,
      of 2 "[]" DESOBalance examplePk 2]
  by (auto simp: DESOBalance_prefix exampleEntries_def)

text \<open>C21: The snapshot handler stores every locked stake entry of the chain in exactly one synthetic
  block, at a height between 1 and the snapshot height, with the amount of the chain, and its only
  snapshot is at the height of that block; a locked stake the chain does not have is in no block.\<close>

theorem hypersync_locked_stakes_once:
  assumes "hypersync_setting L B kv pending G" and "0 < H" and "snapshotEntries L X C entries locked"
    and "kv db = Map.empty" and "lockedKeyLengths k"
  shows "\<exists>db'. handleSnapshotCompleted L G B X C (Some H) db = Some db' \<and>
    (case map_of locked k of
       None \<Rightarrow> lockedSnapshotsOf L (kv db') k = {} \<and> (\<forall>x. hypersyncLockedAt L G (kv db') x k = None)
     | Some b \<Rightarrow> \<exists>hk. 1 \<le> hk \<and> hk \<le> H \<and> lockedSnapshotsOf L (kv db') k = {(hk, b)} \<and>
         (\<forall>x. hypersyncLockedAt L G (kv db') x k = (if x = hk then Some b else None)))"
  using hypersync_setting.handleSnapshotCompleted_result [OF assms(1-4)] assms(5)
  unfolding spread_def by blast

theorem hypersync_locked_stakes_once_witness:
  "\<exists>db' hk. handleSnapshotCompleted refLib refGob memStore refCodec exampleChain (Some 2) [] = Some db' \<and>
     1 \<le> hk \<and> hk \<le> 2 \<and> lockedSnapshotsOf refLib (map_of db') (fst (hd exampleLocked)) = {(hk, 12)}"
  using hypersync_locked_stakes_once [OF memory_hypersync.hypersync_setting_axioms _ exampleChain_entries,
      of 2 "[]" "fst (hd exampleLocked)"]
  by (fastforce simp: exampleLocked_def lockedKeyLengths_def)

text \<open>C34: One creator coin key whose PKID has no public key ends the creator coin scope before its flush, and
  the handler goes on with the validators and the locked stakes. No creator whose entry is not among the
  entries before that key gets a snapshot; of those before it, only what the store committed before the
  flush is kept, with the balance of the entry, and nothing where it commits at the flush only.
  The snapshots of the other balance types stay as they were.\<close>

theorem missing_creator_key_discards_scope:
  assumes "hypersync_setting L B kv pending G" and "H \<noteq> 0"
    and "iterCreatorCoins C = before @ rawKey # after"
    and "map (decodeCreatorCoinItem L X C) before = map Done kvs"
    and "length rawKey = 1 + 8 + PubKeyBytesLenCompressed"
    and "DBGetPublicKeyForPKIDWithTxn C (PublicKeyToPKID X (drop 9 rawKey)) = None"
    and "balanceScope L G B C H db = Some db1"
  shows "\<exists>db2. handleSnapshotCompleted L G B X C (Some H) db =
      do { db \<leftarrow> validatorScope L G B X C H db2; lockedStakeScope L G B X H (iterLockedStakes C) db } \<and>
    (\<forall>t pk h b. publicKeyBalance t \<longrightarrow> length pk = 33 \<longrightarrow> (h, b) \<in> snapshotsOf L (kv db2) t pk \<longrightarrow>
       (h, b) \<in> snapshotsOf L (kv db1) t pk \<or> t = CreatorCoinLockedBalance \<and> (pk, b) \<in> set kvs) \<and>
    (\<forall>t pk. snapshotsOf L (kv db1) t pk \<subseteq> snapshotsOf L (kv db2) t pk) \<and>
    ((\<forall>wb. kv (wbCancel B wb db1) = kv db1) \<longrightarrow> kv db2 = kv db1)"
proof -
  let ?t = CreatorCoinLockedBalance
  have t: "publicKeyBalance ?t" by (simp add: publicKeyBalance_def)
  have store: "badger_store B kv pending"
    using assms(1) by (simp add: hypersync_setting_def hypersync_store_def index_store_def)
  have "decodeCreatorCoinItem L X C rawKey = Err ()"
    using assms(5,6) by (simp add: decodeCreatorCoinItem_def sliceFrom_def PubKeyBytesLenCompressed_def Let_def)
  from hypersync_setting.scope_stops [OF assms(1) t assms(4) this, of H after db1]
  obtain wb where stopped: "creatorCoinScope L G B X C H db1 = Some (wbCancel B wb db1)"
    and keys: "fst ` set (pending wb) \<subseteq> hypersync_setting.scopeKeys L ?t kvs"
    unfolding creatorCoinScope_def assms(3) by blast
  obtain ws where ws: "set ws \<subseteq> set (pending wb)" "kv (wbCancel B wb db1) = applyWrites ws (kv db1)"
    using badger_store.kv_cancel [OF store, of wb db1] by blast
  have keys: "fst ` set ws \<subseteq> hypersync_setting.scopeKeys L ?t kvs" using keys ws(1) by blast
  have len: "\<forall>k \<in> fst ` set kvs. length k = 33"
    using decoded_creators [OF _ assms(4)] assms(1)
    by (auto simp: hypersync_setting_def hypersync_store_def index_store_def)
  have "handleSnapshotCompleted L G B X C (Some H) db =
      do { db \<leftarrow> validatorScope L G B X C H (wbCancel B wb db1); lockedStakeScope L G B X H (iterLockedStakes C) db }"
    using assms(2,7) stopped by (simp add: handleSnapshotCompleted_def)
  moreover note hypersync_setting.snapshots_of_scopeKeys [OF assms(1) keys t _ len]
  moreover have "snapshotsOf L (kv db1) t' pk \<subseteq> snapshotsOf L (kv (wbCancel B wb db1)) t' pk" for t' pk
    unfolding ws(2) by (auto simp: snapshotsOf_def dom_applyWrites)
  ultimately show ?thesis
    by (intro exI [of _ "wbCancel B wb db1"]) (simp add: ws(2), blast)
qed

definition missingChain :: chainDB where
  "missingChain =
     \<lparr>iterBalances = [], iterCreatorCoins = [11 # PutUint64 3 @ replicate 33 8, 11 # PutUint64 55 @ examplePk],
      iterValidators = [], iterLockedStakes = [],
      DBGetPublicKeyForPKIDWithTxn = (\<lambda>pkid. if pkid = examplePk then None else Some pkid)\<rparr>"

theorem missing_creator_key_discards_scope_witness:
  "handleSnapshotCompleted refLib refGob memStore refCodec missingChain (Some 2) [] = Some []"
proof -
  let ?before = "[11 # PutUint64 3 @ replicate 33 8]" and ?key = "11 # PutUint64 55 @ examplePk"
  have decoded: "map (decodeCreatorCoinItem refLib refCodec missingChain) ?before = map Done [(replicate 33 8, 3)]"
    using example_keys by (simp add: decodeCreatorCoinItem_def sliceFrom_def missingChain_def refCodec_def
        PubKeyBytesLenCompressed_def)
  have chain: "iterCreatorCoins missingChain = ?before @ ?key # []"
    "length ?key = 1 + 8 + PubKeyBytesLenCompressed"
    "DBGetPublicKeyForPKIDWithTxn missingChain (PublicKeyToPKID refCodec (drop 9 ?key)) = None"
    by (simp_all add: missingChain_def PubKeyBytesLenCompressed_def refCodec_def)
  have scopes: "balanceScope refLib refGob memStore missingChain 2 [] = Some []"
    "validatorScope refLib refGob memStore refCodec missingChain 2 [] = Some []"
    "lockedStakeScope refLib refGob memStore refCodec 2 (iterLockedStakes missingChain) [] = Some []"
    by (simp_all add: publicKeyScopes publicKeyScope_def lockedStakeScope_def scopeWrites_def missingChain_def
        flushScope_def memStore_def)
  obtain db2 where run: "handleSnapshotCompleted refLib refGob memStore refCodec missingChain (Some 2) [] =
      do { db \<leftarrow> validatorScope refLib refGob memStore refCodec missingChain 2 db2;
           lockedStakeScope refLib refGob memStore refCodec 2 (iterLockedStakes missingChain) db }"
    and same: "map_of db2 = map_of []"
    using missing_creator_key_discards_scope [OF memory_hypersync.hypersync_setting_axioms _ chain(1) decoded
        chain(2,3) scopes(1)] by auto
  from same have "db2 = []" by (metis dom_empty dom_map_of_conv_image_fst image_is_empty map_of.simps(1) set_empty)
  then show ?thesis using run scopes by simp
qed


end
