(* ===== verification/SeedBlocks.thy ===== *)
theory SeedBlocks
  imports BlockOps Hypersync
begin

text \<open>
  \<open>getBlockTransactionsWithHypersync\<close> of \<open>deso/block.go\<close>: the transactions of a synthetic block,
  one per balance the index holds for the height. Their hashes are iterated from the block hash,
  in the order in which Go visits the maps; the result is sorted by hash.
\<close>

section \<open>The transactions\<close>

definition stringBytes :: "string \<Rightarrow> bytes" where
  "stringBytes s = map of_char s"

definition seedTransaction :: "corelib \<Rightarrow> blockhash \<Rightarrow> AccountIdentifier \<Rightarrow> u64 \<Rightarrow> Transaction" where
  "seedTransaction L nextHash account balance =
     \<lparr>txHash = BlockHashString L nextHash,
      txOperations = [mkOp 0 OutputOpType account (FormatUint balance)],
      txMetadata = None\<rparr>"

text \<open>One \<open>range\<close> loop; the hash it ends with is where the next loop starts.\<close>

fun seedTransactions ::
  "corelib \<Rightarrow> ('k \<Rightarrow> AccountIdentifier) \<Rightarrow> bytes \<Rightarrow> ('k, u64) gomap \<Rightarrow> Transaction list \<times> bytes" where
  "seedTransactions L account currentHash [] = ([], currentHash)"
| "seedTransactions L account currentHash ((k, balance) # m) =
     (if balance = 0 then seedTransactions L account currentHash m
      else
        let nextHash = Sha256DoubleHash L currentHash;
            (transactions, lastHash) = seedTransactions L account nextHash m
        in (seedTransaction L nextHash (account k) balance # transactions, lastHash))"

text \<open>
  The sort is by decreasing hash. \<open>sort.Slice\<close> is not stable; the order of transactions with
  equal hashes is the one choice the model makes.
\<close>

definition sortByHash :: "Transaction list \<Rightarrow> Transaction list" where
  "sortByHash ts = rev (sort_key txHash ts)"

definition getBlockTransactionsWithHypersync ::
  "corelib \<Rightarrow> gobCodec \<Rightarrow> ('db, 'wb) badger \<Rightarrow> 'db \<Rightarrow> u64 \<Rightarrow> blockhash \<Rightarrow> Transaction list" where
  "getBlockTransactionsWithHypersync L G B db blockHeight blockHash =
     (if blockHeight = 0 then []
      else
        let (balances, lockedBalances, stakedDESOBalances, lockedStakeDESOBalances) =
              GetHypersyncBlockBalances L G B db blockHeight;
            currentHash = stringBytes (rev (BlockHashString L blockHash));
            (ts1, currentHash) =
              seedTransactions L (\<lambda>pk. plainAccount (Base58CheckEncode L pk)) currentHash balances;
            (ts2, currentHash) =
              seedTransactions L (\<lambda>pk. subAccount (Base58CheckEncode L pk) CreatorCoin) currentHash
                lockedBalances;
            (ts3, currentHash) =
              seedTransactions L (\<lambda>pkid. getValidatorEntrySubAccountIdentifierForValidator L (NewPKID L pkid))
                currentHash stakedDESOBalances;
            (ts4, currentHash) =
              seedTransactions L (\<lambda>k. getLockedStakeEntryIdentifierForValidator L (mapStakerPKID k)
                  (mapValidatorPKID k) (mapLockedAtEpochNumber k))
                currentHash lockedStakeDESOBalances
        in sortByHash (ts1 @ ts2 @ ts3 @ ts4))"

section \<open>What a block credits\<close>

text \<open>The entries of a map that get a transaction, and the sum a list of transactions credits to an account.\<close>

definition seeded :: "('k, u64) gomap \<Rightarrow> ('k \<times> u64) list" where
  "seeded m = filter (\<lambda>(k, b). b \<noteq> 0) m"

definition creditOf :: "Operation \<Rightarrow> nat" where
  "creditOf op = unat (fst (ParseUint (Value (opAmount op))))"

definition creditsTo :: "AccountIdentifier \<Rightarrow> Transaction list \<Rightarrow> nat" where
  "creditsTo a ts =
     (\<Sum>t \<leftarrow> ts. \<Sum>op \<leftarrow> txOperations t. if opAccount op = a then creditOf op else 0)"

text \<open>The hashes: \<open>n\<close> iterates of the double hash from \<open>seed\<close>.\<close>

fun iteratedHashes :: "corelib \<Rightarrow> bytes \<Rightarrow> nat \<Rightarrow> blockhash list" where
  "iteratedHashes L seed 0 = []"
| "iteratedHashes L seed (Suc n) = Sha256DoubleHash L seed # iteratedHashes L (Sha256DoubleHash L seed) n"

definition lastIterate :: "corelib \<Rightarrow> bytes \<Rightarrow> nat \<Rightarrow> bytes" where
  "lastIterate L seed n = ((\<lambda>h. Sha256DoubleHash L h) ^^ n) seed"

lemma iteratedHashes_add:
  "iteratedHashes L seed (m + n) = iteratedHashes L seed m @ iteratedHashes L (lastIterate L seed m) n"
  by (induction m arbitrary: seed) (simp_all add: lastIterate_def funpow_swap1)

lemma lastIterate_add: "lastIterate L (lastIterate L seed m) n = lastIterate L seed (m + n)"
  by (simp add: lastIterate_def funpow_add flip: add.commute [of n m])

lemma seeded_Cons: "seeded ((k, b) # m) = (if b = 0 then seeded m else (k, b) # seeded m)"
  by (simp add: seeded_def)

lemma seedTransactions_Cons:
  "seedTransactions L account seed ((k, b) # m) =
     (if b = 0 then seedTransactions L account seed m
      else (seedTransaction L (Sha256DoubleHash L seed) (account k) b
              # fst (seedTransactions L account (Sha256DoubleHash L seed) m),
            snd (seedTransactions L account (Sha256DoubleHash L seed) m)))"
  by (simp add: Let_def split: prod.split)

declare seedTransactions.simps(2) [simp del]

lemma seedTransactions_hashes:
  "map txHash (fst (seedTransactions L account seed m)) =
     map (BlockHashString L) (iteratedHashes L seed (length (seeded m)))"
  "snd (seedTransactions L account seed m) = lastIterate L seed (length (seeded m))"
  by (induction m arbitrary: seed)
    (auto simp: seedTransactions_Cons seedTransaction_def lastIterate_def funpow_swap1 seeded_def)

lemma seedTransactions_operations:
  "map txOperations (fst (seedTransactions L account seed m)) =
     map (\<lambda>(k, b). [mkOp 0 OutputOpType (account k) (FormatUint b)]) (seeded m)"
  by (induction m arbitrary: seed)
    (auto simp: seedTransactions_Cons seedTransaction_def seeded_def)

lemma mset_sortByHash [simp]: "mset (sortByHash ts) = mset ts"
  by (simp add: sortByHash_def)

lemma txHash_sortByHash: "map txHash (sortByHash ts) = rev (sort (map txHash ts))"
proof -
  have "map txHash (sort_key txHash ts) = sort (map txHash ts)"
    by (rule properties_for_sort [symmetric]) simp_all
  then show ?thesis by (simp add: sortByHash_def flip: rev_map)
qed

lemma creditsTo_simps [simp]:
  "creditsTo a [] = 0"
  "creditsTo a (xs @ ys) = creditsTo a xs + creditsTo a ys"
  by (simp_all add: creditsTo_def)

lemma creditsTo_sortByHash [simp]: "creditsTo a (sortByHash ts) = creditsTo a ts"
proof -
  let ?f = "\<lambda>t. \<Sum>op \<leftarrow> txOperations t. if opAccount op = a then creditOf op else 0"
  have "sum_list (map ?f (sortByHash ts)) = sum_mset (image_mset ?f (mset (sortByHash ts)))"
    by (simp only: mset_map [symmetric] sum_mset_sum_list)
  also have "\<dots> = sum_list (map ?f ts)"
    by (simp only: mset_sortByHash mset_map [symmetric] sum_mset_sum_list)
  finally show ?thesis by (simp add: creditsTo_def)
qed

lemma creditsTo_seed:
  "creditsTo a (fst (seedTransactions L account seed m)) =
     (\<Sum>(k, b) \<leftarrow> m. if account k = a then unat b else 0)"
  by (induction m arbitrary: seed)
    (auto simp: creditsTo_def seedTransactions_Cons seedTransaction_def creditOf_def)

lemma sum_of_map:
  assumes "distinct (map fst m)" and "\<forall>k' \<in> fst ` set m. account k' = a \<longleftrightarrow> k' = k"
  shows "(\<Sum>(k', b) \<leftarrow> m. if account k' = a then unat b else 0) =
    (case map_of m k of None \<Rightarrow> 0 | Some b \<Rightarrow> unat (b :: u64))"
  using assms
proof (induction m)
  case (Cons x m)
  have none: "(\<Sum>(k', b) \<leftarrow> m. if account k' = a then unat b else 0) = 0" if "k \<notin> fst ` set m"
    using that Cons.prems(2) by (induction m) auto
  show ?case using Cons none by (cases x) (auto simp: map_of_eq_None_iff [symmetric])
qed simp

lemma sum_of_other:
  "(\<And>k'. account k' \<noteq> a) \<Longrightarrow> (\<Sum>(k', b) \<leftarrow> m. if account k' = a then unat (b :: u64) else 0) = 0"
  by (induction m) auto

text \<open>The block with the seed of each loop written out.\<close>

lemma getBlockTransactionsWithHypersync_eq:
  assumes "GetHypersyncBlockBalances L G B db h = (a, b, c, d)" and "h \<noteq> 0"
    and seed: "seed = stringBytes (rev (BlockHashString L hash))"
    and n: "n = length (seeded a)" and n': "n' = length (seeded a) + length (seeded b)"
    and n'': "n'' = length (seeded a) + length (seeded b) + length (seeded c)"
  shows "getBlockTransactionsWithHypersync L G B db h hash = sortByHash
    (fst (seedTransactions L (\<lambda>pk. plainAccount (Base58CheckEncode L pk)) seed a) @
     fst (seedTransactions L (\<lambda>pk. subAccount (Base58CheckEncode L pk) CreatorCoin) (lastIterate L seed n) b) @
     fst (seedTransactions L (\<lambda>pkid. getValidatorEntrySubAccountIdentifierForValidator L (NewPKID L pkid))
       (lastIterate L seed n') c) @
     fst (seedTransactions L (\<lambda>k. getLockedStakeEntryIdentifierForValidator L (mapStakerPKID k)
       (mapValidatorPKID k) (mapLockedAtEpochNumber k)) (lastIterate L seed n'') d))"
  using assms(1,2)
  by (simp add: getBlockTransactionsWithHypersync_def Let_def case_prod_beta seedTransactions_hashes(2)
      lastIterate_add add.assoc seed n n' n'')

text \<open>The account of a balance type, and what one block credits to it.\<close>

definition accountFor :: "corelib \<Rightarrow> BalanceType \<Rightarrow> pubkey \<Rightarrow> AccountIdentifier" where
  "accountFor L t pk =
     (if t = DESOBalance then plainAccount (Base58CheckEncode L pk)
      else if t = CreatorCoinLockedBalance then subAccount (Base58CheckEncode L pk) CreatorCoin
      else getValidatorEntrySubAccountIdentifierForValidator L pk)"

lemma account_kinds:
  "plainAccount a \<noteq> subAccount b s" "subAccount a s = subAccount b s' \<longleftrightarrow> a = b \<and> s = s'"
  "plainAccount a = plainAccount b \<longleftrightarrow> a = b"
  "CreatorCoin \<noteq> ValidatorEntryPrefix" "CreatorCoin \<noteq> LockedStakeEntryPrefix @ s"
  "ValidatorEntryPrefix \<noteq> LockedStakeEntryPrefix @ s"
  by (simp_all add: plainAccount_def subAccount_def CreatorCoin_def ValidatorEntryPrefix_def
      LockedStakeEntryPrefix_def)

context hypersync_store
begin

lemma block_credits:
  assumes dec: "hypersyncDecodes L G (kv db)" and t: "publicKeyBalance t" and pk: "length pk = 33"
    and h: "h \<noteq> 0"
  shows "creditsTo (accountFor L t pk) (getBlockTransactionsWithHypersync L G B db h hash) =
    (case hypersyncAt L G (kv db) h t pk of None \<Rightarrow> 0 | Some b \<Rightarrow> unat b)"
proof -
  obtain a b c d where get: "GetHypersyncBlockBalances L G B db h = (a, b, c, d)"
    by (rule prod_cases4)
  note maps = GetHypersyncBlockBalances_refines [OF dec get]
  note keys = GetHypersyncBlockBalances_keys [OF get]
  let ?sum = "\<lambda>account m. \<Sum>(k, b :: u64) \<leftarrow> m. if account k = accountFor L t pk then unat b else 0"
  let ?plain = "\<lambda>pk. plainAccount (Base58CheckEncode L pk)"
  let ?coin = "\<lambda>pk. subAccount (Base58CheckEncode L pk) CreatorCoin"
  let ?validator = "\<lambda>pkid. getValidatorEntrySubAccountIdentifierForValidator L (NewPKID L pkid)"
  let ?locked = "\<lambda>k. getLockedStakeEntryIdentifierForValidator L (mapStakerPKID k)
     (mapValidatorPKID k) (mapLockedAtEpochNumber k)"
  have sum: "creditsTo (accountFor L t pk) (getBlockTransactionsWithHypersync L G B db h hash) =
      ?sum ?plain a + ?sum ?coin b + ?sum ?validator c + ?sum ?locked d"
    unfolding getBlockTransactionsWithHypersync_eq [OF get h refl refl refl refl] by (simp add: creditsTo_seed)
  note kinds = accountFor_def getValidatorEntrySubAccountIdentifierForValidator_def
    getLockedStakeEntryIdentifierForValidator_def account_kinds addresses.encode_inj index_consts
  have locked: "?sum ?locked d = 0" by (rule sum_of_other) (auto simp: kinds dest: sym)
  have validator_id: "\<forall>k \<in> fst ` set c. NewPKID L k = k" using keys(5) by (simp add: NewPKID_eq)
  from t [unfolded publicKeyBalance_cases] show ?thesis
  proof (elim disjE)
    assume t: "t = DESOBalance"
    have "?sum ?coin b = 0" "?sum ?validator c = 0"
      by (rule sum_of_other, simp add: t kinds account_kinds(1) [symmetric])+
    moreover have "?sum ?plain a = (case map_of a pk of None \<Rightarrow> 0 | Some b \<Rightarrow> unat b)"
      by (rule sum_of_map [OF keys(1)]) (simp add: t kinds)
    ultimately show ?thesis using sum locked maps(1) t by simp
  next
    assume t: "t = CreatorCoinLockedBalance"
    have "?sum ?plain a = 0" "?sum ?validator c = 0"
      by (rule sum_of_other, simp add: t kinds account_kinds(4) [symmetric])+
    moreover have "?sum ?coin b = (case map_of b pk of None \<Rightarrow> 0 | Some b \<Rightarrow> unat b)"
      by (rule sum_of_map [OF keys(2)]) (simp add: t kinds)
    ultimately show ?thesis using sum locked maps(2) t by simp
  next
    assume t: "t = ValidatorStakedDESOBalance"
    have "?sum ?plain a = 0" "?sum ?coin b = 0"
      by (rule sum_of_other, simp add: t kinds)+
    moreover have "?sum ?validator c = (case map_of c pk of None \<Rightarrow> 0 | Some b \<Rightarrow> unat b)"
      by (rule sum_of_map [OF keys(3)]) (use validator_id in \<open>simp add: t kinds\<close>)
    ultimately show ?thesis using sum locked maps(3) t by simp
  qed
qed

end

lemma mset_seedTransactions:
  "image_mset txOperations (mset (fst (seedTransactions L account seed m))) =
     {# [mkOp 0 OutputOpType (account k) (FormatUint v)]. (k, v) \<in># mset (seeded m) #}"
  by (simp only: mset_map [symmetric] seedTransactions_operations)

text \<open>All synthetic blocks up to a height.\<close>

context hypersync_store
begin

lemma credits_up_to:
  assumes "hypersyncDecodes L G (kv db)" and "publicKeyBalance t" and "length pk = 33"
  shows "(\<Sum>x \<in> {1..unat h}. creditsTo (accountFor L t pk)
       (getBlockTransactionsWithHypersync L G B db (of_nat x) (hash x))) =
    creditedUpTo (\<lambda>x. hypersyncAt L G (kv db) x t) pk h"
  unfolding creditedUpTo_def
proof (rule sum.cong [OF refl])
  fix x assume x: "x \<in> {1..unat h}"
  then have "x < 2 ^ 64" using unat_u64_bound [of h] by auto
  then have "unat (of_nat x :: u64) = x" by (simp add: unat_of_nat take_bit_nat_eq_self)
  then have "(of_nat x :: u64) \<noteq> 0" using x by auto
  from block_credits [OF assms this]
  show "creditsTo (accountFor L t pk) (getBlockTransactionsWithHypersync L G B db (of_nat x) (hash x)) =
      (case hypersyncAt L G (kv db) (of_nat x) t pk of None \<Rightarrow> 0 | Some b \<Rightarrow> unat b)" .
qed

end

text \<open>After the snapshot handler ran on an empty index they add up to its balances.\<close>

lemma synthetic_credits:
  assumes "hypersync_setting L B kv pending G" and "0 < H" and "snapshotEntries L X C entries locked"
    and "kv db = Map.empty" and "handleSnapshotCompleted L G B X C (Some H) db = Some db'"
    and "publicKeyBalance t" and "length pk = 33"
  shows "wfIndex L (kv db') \<and>
    (\<Sum>x \<in> {1..unat h}. creditsTo (accountFor L t pk)
       (getBlockTransactionsWithHypersync L G B db' (of_nat x) (hash x))) =
     unat (latest (snapshotsOf L (kv db') t pk) h)"
proof -
  have wf: "wfIndex L (kv db')" "hypersyncDecodes L G (kv db')"
    and spread: "spread H (\<lambda>k. length k = 33) (entries t)
       (snapshotsOf L (kv db') t) (\<lambda>x. hypersyncAt L G (kv db') x t)"
    using hypersync_setting.handleSnapshotCompleted_result [OF assms(1-4)] assms(5,6) by auto
  have "hypersync_store L B kv pending G" using assms(1) by (simp add: hypersync_setting_def)
  from hypersync_store.credits_up_to [OF this wf(2) assms(6,7)] wf(1) spread_latest(1) [OF spread assms(7)]
  show ?thesis by simp
qed

text \<open>Two iterates of the reference hash that differ.\<close>

lemma example_hashes:
  "BlockHashString refLib (Sha256DoubleHash refLib (stringBytes (rev (BlockHashString refLib [1])))) \<noteq>
   BlockHashString refLib (Sha256DoubleHash refLib (Sha256DoubleHash refLib
     (stringBytes (rev (BlockHashString refLib [1])))))"
proof
  let ?h = "copyArray 32 [48, 49]"
  have seed: "rev (stringBytes (rev (hexEncode [1]))) = [48, 49]"
    by (simp add: stringBytes_def hexEncode_def hexDigit_def)
  assume "BlockHashString refLib (Sha256DoubleHash refLib (stringBytes (rev (BlockHashString refLib [1])))) =
   BlockHashString refLib (Sha256DoubleHash refLib (Sha256DoubleHash refLib
     (stringBytes (rev (BlockHashString refLib [1])))))"
  then have "hexEncode ?h = hexEncode (copyArray 32 (rev ?h))" by (simp add: refLib_def seed)
  then have "hd ?h = hd (copyArray 32 (rev ?h))" by (metis hexEncode_inj)
  then show False by (simp add: copyArray_def)
qed

section \<open>Properties\<close>

text \<open>C19: The transactions of a synthetic block are one single-output transaction for every balance
  of the height that is not 0, to the account of its kind with that balance as its value, and
  nothing else, whatever the order of the maps.\<close>

theorem synthetic_block_contents:
  assumes "GetHypersyncBlockBalances L G B db h = (a, b, c, d)" and "h \<noteq> 0"
  shows "mset (map txOperations (getBlockTransactionsWithHypersync L G B db h hash)) =
    {# [mkOp 0 OutputOpType (plainAccount (Base58CheckEncode L pk)) (FormatUint v)].
         (pk, v) \<in># mset (seeded a) #} +
    {# [mkOp 0 OutputOpType (subAccount (Base58CheckEncode L pk) CreatorCoin) (FormatUint v)].
         (pk, v) \<in># mset (seeded b) #} +
    {# [mkOp 0 OutputOpType (getValidatorEntrySubAccountIdentifierForValidator L (NewPKID L pk)) (FormatUint v)].
         (pk, v) \<in># mset (seeded c) #} +
    {# [mkOp 0 OutputOpType (getLockedStakeEntryIdentifierForValidator L (mapStakerPKID k)
           (mapValidatorPKID k) (mapLockedAtEpochNumber k)) (FormatUint v)].
         (k, v) \<in># mset (seeded d) #}"
  unfolding getBlockTransactionsWithHypersync_eq [OF assms refl refl refl refl]
  by (simp add: mset_seedTransactions)

text \<open>What the reference encoder wrote for a map of distinct keys is decoded to the same list.\<close>

lemma clearjunk_distinct: "distinct (map fst m) \<Longrightarrow> AList.clearjunk m = m"
  by (induction m) (auto simp: AList.delete_idem)

lemma refGob_decodes_balances:
  assumes "distinct (map fst m)" and "\<forall>k \<in> fst ` set m. length k = 33"
    and "gobEncodeBalances refGob m = Some bs"
  shows "gobDecodeBalances refGob bs = (m, True)"
proof -
  have "chunks 41 bs = map (\<lambda>(k, v). k @ PutUint64 v) m"
    using assms(2,3) by (auto simp: refGob_def intro!: chunks_concat)
  moreover have "map (\<lambda>c. (copyArray 33 c, BigEndianUint64 (drop 33 c))) (map (\<lambda>(k, v). k @ PutUint64 v) m) = m"
    using assms(2) by (auto simp: copyArray_def intro!: map_idI)
  ultimately show ?thesis using assms(1) by (simp add: refGob_def clearjunk_distinct)
qed

lemma refGob_decodes_locked:
  assumes "distinct (map fst m)" and "\<forall>k \<in> fst ` set m. lockedKeyLengths k"
    and "gobEncodeLocked refGob m = Some bs"
  shows "gobDecodeLocked refGob bs = (m, True)"
proof -
  let ?f = "\<lambda>(k, v). mapStakerPKID k @ mapValidatorPKID k @ PutUint64 (mapLockedAtEpochNumber k) @ PutUint64 v"
  have "chunks 82 bs = map ?f m"
    using assms(2,3) by (auto simp: refGob_def lockedKeyLengths_def intro!: chunks_concat)
  moreover have "map (\<lambda>c. (\<lparr>mapStakerPKID = take 33 c, mapValidatorPKID = take 33 (drop 33 c),
      mapLockedAtEpochNumber = BigEndianUint64 (drop 66 c)\<rparr>, BigEndianUint64 (drop 74 c))) (map ?f m) = m"
    using assms(2) by (auto simp: lockedKeyLengths_def intro!: map_idI)
  ultimately show ?thesis using assms(1) by (simp add: refGob_def clearjunk_distinct)
qed

definition exampleSynthetic :: memDB where
  "exampleSynthetic = PutHypersyncBlockLockedStakeBalancesWithWB refLib refGob memStore
     (PutHypersyncBlockBalancesWithWB refLib refGob memStore [] 1 DESOBalance
        [(examplePk, 5), (replicate 33 8, 0), (replicate 33 9, 6)]) 1 exampleStakes LockedStakeDESOBalance"

lemma exampleSynthetic_balances:
  "GetHypersyncBlockBalances refLib refGob memStore exampleSynthetic 1 =
     ([(examplePk, 5), (replicate 33 8, 0), (replicate 33 9, 6)], [], [], exampleStakes)"
proof -
  let ?m = "[(examplePk, 5 :: u64), (replicate 33 8, 0), (replicate 33 9, 6)]"
  obtain bs where m: "gobEncodeBalances refGob ?m = Some bs"
    by (simp add: refGob_def)
  have dec: "gobDecodeBalances refGob bs = (?m, True)"
    by (rule refGob_decodes_balances [OF _ _ m]) (simp_all add: examplePk_def replicate_eq_replicate)
  obtain bs' where m': "gobEncodeLocked refGob exampleStakes = Some bs'"
    by (simp add: refGob_def)
  have dec': "gobDecodeLocked refGob bs' = (exampleStakes, True)"
    by (rule refGob_decodes_locked [OF _ _ m']) (simp_all add: exampleStakes_def lockedKeyLengths_def)
  have db: "exampleSynthetic = [(hypersyncHeightToBlockKey refLib 1 DESOBalance, bs),
      (hypersyncHeightToBlockKey refLib 1 LockedStakeDESOBalance, bs')]"
    by (simp add: exampleSynthetic_def PutHypersyncBlockBalancesWithWB_def m m'
        PutHypersyncBlockLockedStakeBalancesWithWB_def publicKeyBalance_def)
  show ?thesis
    unfolding db by (simp add: GetHypersyncBlockBalances_def readGob_def readNext_def
        hypersyncHeightToBlockKey_def index_consts dec dec')
qed

theorem synthetic_block_contents_witness:
  "mset (map txOperations (getBlockTransactionsWithHypersync refLib refGob memStore exampleSynthetic 1 [1])) =
    {# [mkOp 0 OutputOpType (plainAccount (hexEncode examplePk)) (FormatUint 5)],
       [mkOp 0 OutputOpType (plainAccount (hexEncode (replicate 33 9))) (FormatUint 6)],
       [mkOp 0 OutputOpType (getLockedStakeEntryIdentifierForValidator refLib (replicate 33 7) (replicate 33 9) 3)
          (FormatUint 100)] #}"
  using synthetic_block_contents [OF exampleSynthetic_balances, of "[1]"]
  by (simp add: seeded_def exampleStakes_def)

text \<open>The hashes of a synthetic block are the iterated double hashes of the reversed block hash in
  decreasing order, as many as there are balances that are not 0; they do not depend on the order in
  which the maps are visited, nor on the accounts and the balances.\<close>

theorem synthetic_hashes:
  assumes "GetHypersyncBlockBalances L G B db h = (a, b, c, d)" and "h \<noteq> 0"
  shows "map txHash (getBlockTransactionsWithHypersync L G B db h hash) =
    rev (sort (map (BlockHashString L)
      (iteratedHashes L (stringBytes (rev (BlockHashString L hash)))
        (length (seeded a) + length (seeded b) + length (seeded c) + length (seeded d)))))"
  unfolding getBlockTransactionsWithHypersync_eq [OF assms refl refl refl refl] txHash_sortByHash
  by (simp add: seedTransactions_hashes(1) iteratedHashes_add)

theorem synthetic_hashes_witness:
  "map txHash (getBlockTransactionsWithHypersync refLib refGob memStore [] 1 []) = []"
proof -
  have "GetHypersyncBlockBalances refLib refGob memStore [] 1 = ([], [], [], [])"
    by (simp add: GetHypersyncBlockBalances_def readGob_def readNext_def)
  from synthetic_hashes [OF this, of "[]"] show ?thesis by (simp add: seeded_def)
qed

text \<open>The pairing of hashes with accounts does depend on the order in which Go visits a map: two
  reads of the same balances in the two orders give different transactions for the same block, so a
  transaction hash does not identify a transaction. The comment of the code calls the hashes
  deterministic.\<close>

theorem map_order_changes_transactions:
  assumes "address_codec (Base58CheckEncode L) (Base58CheckDecode L)"
    and "GetHypersyncBlockBalances L G B db h = ([(k, v), (k', v')], [], [], [])"
    and "GetHypersyncBlockBalances L G' B db h = ([(k', v'), (k, v)], [], [], [])"
    and "h \<noteq> 0" and "v \<noteq> 0" and "v' \<noteq> 0" and "k \<noteq> k'"
    and "seed = stringBytes (rev (BlockHashString L hash))"
    and "BlockHashString L (Sha256DoubleHash L seed) \<noteq>
      BlockHashString L (Sha256DoubleHash L (Sha256DoubleHash L seed))"
  shows "set (getBlockTransactionsWithHypersync L G B db h hash) \<noteq>
    set (getBlockTransactionsWithHypersync L G' B db h hash)"
proof -
  have "plainAccount (Base58CheckEncode L k) \<noteq> plainAccount (Base58CheckEncode L k')"
    using address_codec.encode_inj [OF assms(1)] assms(7) by (simp add: account_kinds)
  moreover have "set (sortByHash ts) = set ts" for ts
    by (metis mset_sortByHash set_mset_mset)
  ultimately show ?thesis
    unfolding getBlockTransactionsWithHypersync_eq [OF assms(2,4) refl refl refl refl]
      getBlockTransactionsWithHypersync_eq [OF assms(3,4) refl refl refl refl]
    using assms(5,6,8,9)
    by (auto simp: seedTransactions_Cons seedTransaction_def mkOp_def doubleton_eq_iff)
qed

theorem map_order_changes_transactions_witness:
  defines "db \<equiv> [(hypersyncHeightToBlockKey refLib 1 DESOBalance, [])]"
    and "G \<equiv> refGob\<lparr>gobDecodeBalances := \<lambda>bs. ([(examplePk, 5), (replicate 33 8, 6)], True)\<rparr>"
    and "G' \<equiv> refGob\<lparr>gobDecodeBalances := \<lambda>bs. ([(replicate 33 8, 6), (examplePk, 5)], True)\<rparr>"
  shows "set (getBlockTransactionsWithHypersync refLib G memStore db 1 [1]) \<noteq>
    set (getBlockTransactionsWithHypersync refLib G' memStore db 1 [1])"
proof (rule map_order_changes_transactions [OF reference.addresses.address_codec_axioms])
  show "GetHypersyncBlockBalances refLib G memStore db 1 = ([(examplePk, 5), (replicate 33 8, 6)], [], [], [])"
    "GetHypersyncBlockBalances refLib G' memStore db 1 = ([(replicate 33 8, 6), (examplePk, 5)], [], [], [])"
    by (simp_all add: GetHypersyncBlockBalances_def readGob_def readNext_def G_def G'_def db_def index_consts
        hypersyncHeightToBlockKey_def)
qed (rule example_hashes refl | simp add: example_keys)+

text \<open>C2: The synthetic blocks account for every balance of the snapshot: after the snapshot handler
  ran on an empty index, what the transactions of the blocks 1 to \<open>h\<close> credit to the account of a
  public key, summed up, is the balance the index reports for it at height \<open>h\<close>, for the balance,
  the creator coin account and the validator account alike, and for any block hashes.\<close>

theorem synthetic_blocks_reconcile:
  assumes "hypersync_setting L B kv pending G" and "0 < H" and "snapshotEntries L X C entries locked"
    and "kv db = Map.empty" and "publicKeyBalance t" and "length pk = 33"
  shows "\<exists>db' b. handleSnapshotCompleted L G B X C (Some H) db = Some db' \<and>
    GetBalanceSnapshot L B db' t pk h = Some b \<and>
    (\<Sum>x \<in> {1..unat h}. creditsTo (accountFor L t pk)
       (getBlockTransactionsWithHypersync L G B db' (of_nat x) (hash x))) = unat b"
proof -
  obtain db' where run: "handleSnapshotCompleted L G B X C (Some H) db = Some db'"
    using hypersync_setting.handleSnapshotCompleted_result [OF assms(1-4)] by blast
  have "index_store L B kv pending"
    using assms(1) by (simp add: hypersync_setting_def hypersync_store_def)
  then show ?thesis
    using run synthetic_credits [OF assms(1-4) run assms(5,6), of hash h]
      index_store.get_balance_latest [of L B kv pending db' t pk h] assms(5,6)
    by (intro exI [of _ db'] exI [of _ "latest (snapshotsOf L (kv db') t pk) h"]) simp
qed

theorem synthetic_blocks_reconcile_witness:
  "\<exists>db' b. handleSnapshotCompleted refLib refGob memStore refCodec exampleChain (Some 2) [] = Some db' \<and>
     GetBalanceSnapshot refLib memStore db' DESOBalance examplePk 2 = Some b \<and>
     (\<Sum>x \<in> {1..2}. creditsTo (plainAccount (hexEncode examplePk))
        (getBlockTransactionsWithHypersync refLib refGob memStore db' (of_nat x) [])) = unat b"
  using synthetic_blocks_reconcile [OF memory_hypersync.hypersync_setting_axioms _ exampleChain_entries,
      of 2 "[]" DESOBalance examplePk 2 "\<lambda>x. []"]
  by (simp add: DESOBalance_prefix accountFor_def)

end
