(* ===== verification/BlockCommit.thy ===== *)
theory BlockCommit
  imports Index
begin

text \<open>
  \<open>handleBlockCommitted\<close> of \<open>deso/events.go\<close>: a committed block writes the balances its UTXO view
  touched to the index, for every balance type, at the height of the block.
\<close>

section \<open>The UTXO view\<close>

record ProfileEntry =
  profilePublicKey :: pubkey
  CreatorCoinEntry :: CoinEntry
  profileIsDeleted :: bool

text \<open>
  The maps of \<open>lib.UtxoView\<close> the handler ranges over: of the PKID entries it uses the keys, of the
  profile, validator and locked stake entries the values, each in the order of the loop.
\<close>

record UtxoView =
  PublicKeyToDeSoBalanceNanos :: "(pubkey, u64) gomap"
  PublicKeyToPKIDEntry :: "pubkey list"
  GetProfileEntryForPublicKey :: "pubkey \<Rightarrow> ProfileEntry option"
  ProfilePKIDToProfileEntry :: "ProfileEntry list"
  ValidatorPKIDToValidatorEntry :: "ValidatorEntry list"
  LockedStakeMapKeyToLockedStakeEntry :: "LockedStakeEntry list"

record BlockEvent =
  eventHeight :: u64
  eventUtxoView :: "UtxoView option"

section \<open>The balances of a block\<close>

definition profileBalance :: "ProfileEntry \<Rightarrow> u64" where
  "profileBalance profile =
     (if profileIsDeleted profile then 0 else DeSoLockedNanos (CreatorCoinEntry profile))"

definition pkidLockedBalance :: "UtxoView \<Rightarrow> pubkey \<Rightarrow> u64" where
  "pkidLockedBalance view pubKey =
     (case GetProfileEntryForPublicKey view pubKey of
        None \<Rightarrow> 0
      | Some profileFound \<Rightarrow> profileBalance profileFound)"

definition lockedBalances :: "corelib \<Rightarrow> UtxoView \<Rightarrow> (pubkey, u64) gomap" where
  "lockedBalances L view =
     foldl (\<lambda>m profile. goSet (NewPublicKey L (profilePublicKey profile)) (profileBalance profile) m)
       (foldl (\<lambda>m pubKey. goSet (NewPublicKey L pubKey) (pkidLockedBalance view pubKey) m)
          [] (PublicKeyToPKIDEntry view))
       (ProfilePKIDToProfileEntry view)"

text \<open>An amount that does not fit 64 bits is logged and skipped.\<close>

definition validatorEntryBalances :: "corelib \<Rightarrow> UtxoView \<Rightarrow> (pubkey, u64) gomap" where
  "validatorEntryBalances L view =
     foldl (\<lambda>m validator.
         if \<not> validatorIsDeleted validator \<and> \<not> IsUint64 (TotalStakeAmountNanos validator) then m
         else goSet (NewPublicKey L (ValidatorPKID validator))
                (if validatorIsDeleted validator then 0 else Uint64 (TotalStakeAmountNanos validator)) m)
       [] (ValidatorPKIDToValidatorEntry view)"

definition lockedStakeEntryBalances :: "UtxoView \<Rightarrow> (LockedStakeBalanceMapKey, u64) gomap" where
  "lockedStakeEntryBalances view =
     foldl (\<lambda>m e.
         if \<not> lockedIsDeleted e \<and> \<not> IsUint64 (LockedAmountNanos e) then m
         else goSet \<lparr>mapStakerPKID = lockedStakerPKID e, mapValidatorPKID = lockedValidatorPKID e,
                     mapLockedAtEpochNumber = lockedAtEpochNumber e\<rparr>
                (if lockedIsDeleted e then 0 else Uint64 (LockedAmountNanos e)) m)
       [] (LockedStakeMapKeyToLockedStakeEntry view)"

section \<open>The handler\<close>

text \<open>
  \<open>server\<close> is \<open>None\<close> where \<open>node.Server\<close> is nil, and holds \<open>FirstSnapshotBlockHeight\<close> where the
  blockchain has a snapshot; \<open>hyperSync\<close> says whether the sync type is one of the two hypersync types.
\<close>

definition beforeSnapshot :: "u64 option option \<Rightarrow> bool \<Rightarrow> u64 \<Rightarrow> bool" where
  "beforeSnapshot server hyperSync height =
     (case server of
        None \<Rightarrow> False
      | Some snapshot \<Rightarrow>
          (case snapshot of
             None \<Rightarrow> False
           | Some firstSnapshotHeight \<Rightarrow>
               hyperSync \<and> firstSnapshotHeight \<noteq> 0 \<and> height \<le> firstSnapshotHeight))"

text \<open>The errors of the four puts and of the flush are logged.\<close>

definition handleBlockCommitted ::
  "corelib \<Rightarrow> ('db, 'wb) badger \<Rightarrow> u64 option option \<Rightarrow> bool \<Rightarrow> BlockEvent \<Rightarrow> 'db \<Rightarrow> 'db option" where
  "handleBlockCommitted L B server hyperSync event db =
     (if beforeSnapshot server hyperSync (eventHeight event) then Some db
      else
        (case eventUtxoView event of
           None \<Rightarrow> Some db
         | Some view \<Rightarrow>
             let height = eventHeight event
             in do { (wb, _) \<leftarrow> PutBalanceSnapshotWithWB L B (NewWriteBatch B db) height DESOBalance
                       (PublicKeyToDeSoBalanceNanos view);
                     (wb, _) \<leftarrow> PutBalanceSnapshotWithWB L B wb height CreatorCoinLockedBalance
                       (lockedBalances L view);
                     (wb, _) \<leftarrow> PutBalanceSnapshotWithWB L B wb height ValidatorStakedDESOBalance
                       (validatorEntryBalances L view);
                     (wb, _) \<leftarrow> PutLockedStakeBalanceSnapshotWithWB L B wb height LockedStakeDESOBalance
                       (lockedStakeEntryBalances view);
                     Some (fst (wbFlush B wb db)) }))"

section \<open>The specification\<close>

text \<open>The balances an event reports, by type; and what an account has after a run of events.\<close>

definition eventBalances :: "corelib \<Rightarrow> UtxoView \<Rightarrow> BalanceType \<Rightarrow> (pubkey, u64) gomap" where
  "eventBalances L view t =
     (if t = DESOBalance then PublicKeyToDeSoBalanceNanos view
      else if t = CreatorCoinLockedBalance then lockedBalances L view
      else validatorEntryBalances L view)"

fun replay :: "corelib \<Rightarrow> (u64 \<times> UtxoView) list \<Rightarrow> BalanceType \<Rightarrow> pubkey \<Rightarrow> u64 \<Rightarrow> u64 \<Rightarrow> u64" where
  "replay L [] t pk h bal = bal"
| "replay L ((height, view) # events) t pk h bal =
     replay L events t pk h
       (if height \<le> h then (case map_of (eventBalances L view t) pk of None \<Rightarrow> bal | Some b \<Rightarrow> b)
        else bal)"

fun commitAll :: "corelib \<Rightarrow> ('db, 'wb) badger \<Rightarrow> u64 option option \<Rightarrow> bool \<Rightarrow> (u64 \<times> UtxoView) list \<Rightarrow> 'db \<Rightarrow> 'db option" where
  "commitAll L B server hyperSync [] db = Some db"
| "commitAll L B server hyperSync ((height, view) # events) db =
     do { db \<leftarrow> handleBlockCommitted L B server hyperSync \<lparr>eventHeight = height, eventUtxoView = Some view\<rparr> db;
          commitAll L B server hyperSync events db }"

text \<open>A view whose maps have the types of the Go maps.\<close>

definition wfView :: "UtxoView \<Rightarrow> bool" where
  "wfView view \<longleftrightarrow>
     distinct (map fst (PublicKeyToDeSoBalanceNanos view)) \<and>
     (\<forall>k \<in> fst ` set (PublicKeyToDeSoBalanceNanos view). length k = 33) \<and>
     (\<forall>e \<in> set (LockedStakeMapKeyToLockedStakeEntry view).
        length (lockedStakerPKID e) = 33 \<and> length (lockedValidatorPKID e) = 33)"

section \<open>The maps of a block\<close>

lemma foldl_invariant: "P m \<Longrightarrow> (\<And>m x. P m \<Longrightarrow> x \<in> set xs \<Longrightarrow> P (step m x)) \<Longrightarrow> P (foldl step m xs)"
  by (induction xs arbitrary: m) auto



definition goodMap :: "('k \<Rightarrow> bool) \<Rightarrow> ('k, u64) gomap \<Rightarrow> bool" where
  "goodMap good m \<longleftrightarrow> distinct (map fst m) \<and> (\<forall>k \<in> fst ` set m. good k)"

lemma goodMap_Nil [simp]: "goodMap good []"
  by (simp add: goodMap_def)

lemma goodMap_goSet [simp]: "goodMap good m \<Longrightarrow> good k \<Longrightarrow> goodMap good (goSet k v m)"
  by (auto simp: goodMap_def distinct_goSet dom_update)

text \<open>The synthetic blocks that two states of the index hold are the same.\<close>

definition sameBlocks :: "corelib \<Rightarrow> (bytes \<rightharpoonup> bytes) \<Rightarrow> (bytes \<rightharpoonup> bytes) \<Rightarrow> bool" where
  "sameBlocks L m m' \<longleftrightarrow>
     (\<forall>x t. m' (hypersyncHeightToBlockKey L x t) = m (hypersyncHeightToBlockKey L x t))"

lemma sameBlocks_refl [simp]: "sameBlocks L m m"
  by (simp add: sameBlocks_def)

lemma sameBlocks_trans: "sameBlocks L m m' \<Longrightarrow> sameBlocks L m' m'' \<Longrightarrow> sameBlocks L m m''"
  by (simp add: sameBlocks_def)

locale reliable_index = index_store L B kv pending + reliable_store B kv pending
  for L :: corelib and B :: "('db, 'wb) badger" and kv :: "'db \<Rightarrow> bytes \<rightharpoonup> bytes"
    and pending :: "'wb \<Rightarrow> (bytes \<times> bytes) list"
begin

lemma goodMap_lockedBalances: "goodMap (\<lambda>k. length k = 33) (lockedBalances L view)"
  unfolding lockedBalances_def
  by (rule foldl_invariant [where P = "goodMap (\<lambda>k. length k = 33)"],
      rule foldl_invariant [where P = "goodMap (\<lambda>k. length k = 33)"]) simp_all

lemma goodMap_validatorEntryBalances: "goodMap (\<lambda>k. length k = 33) (validatorEntryBalances L view)"
  unfolding validatorEntryBalances_def
  by (rule foldl_invariant [where P = "goodMap (\<lambda>k. length k = 33)"]) simp_all

lemma goodMap_eventBalances:
  "wfView view \<Longrightarrow> goodMap (\<lambda>k. length k = 33) (eventBalances L view t)"
  using goodMap_lockedBalances goodMap_validatorEntryBalances
  by (simp add: eventBalances_def wfView_def goodMap_def)

lemma lockedStakeEntryBalances_keys:
  "wfView view \<Longrightarrow> \<forall>k \<in> fst ` set (lockedStakeEntryBalances view). lockedKeyLengths k"
proof -
  assume "wfView view"
  then have "goodMap lockedKeyLengths (lockedStakeEntryBalances view)"
    unfolding lockedStakeEntryBalances_def
    by (intro foldl_invariant [where P = "goodMap lockedKeyLengths"])
      (simp_all add: wfView_def lockedKeyLengths_def)
  then show ?thesis by (simp add: goodMap_def)
qed

text \<open>No put fails on a reliable store.\<close>

lemma set_pair: "\<exists>wb'. wbSet B wb k v = (wb', True)"
  using set_ok [of wb k v] by (metis prod.collapse)

lemma put_reliable:
  assumes "publicKeyBalance t"
  shows "\<exists>wb'. PutBalanceSnapshotWithWB L B wb h t bals = Some (wb', True)"
proof -
  obtain p where p: "BalanceTypePrefix t = Some p" using BalanceTypePrefix_publicKey [OF assms] by blast
  have "\<exists>wb'. putBalances L B wb h t bals = Some (wb', True)"
  proof (induction bals arbitrary: wb)
    case (Cons x bals)
    obtain k b where x: "x = (k, b)" by force
    obtain wb1 where "wbSet B wb (p # k @ EncodeUint64 L h @ EncodeUint64 L b) [] = (wb1, True)"
      using set_pair by blast
    then show ?case using Cons.IH [of wb1] by (simp add: x balanceSnapshotKey_def p)
  qed simp
  then show ?thesis using assms by (simp add: PutBalanceSnapshotWithWB_def)
qed

lemma put_locked_reliable:
  "\<exists>wb'. PutLockedStakeBalanceSnapshotWithWB L B wb h LockedStakeDESOBalance bals = Some (wb', True)"
proof -
  have "\<exists>wb'. putLockedStakeBalances L B wb h LockedStakeDESOBalance bals = Some (wb', True)"
  proof (induction bals arbitrary: wb)
    case (Cons x bals)
    obtain k b where x: "x = (k, b)" by force
    obtain wb1 where "wbSet B wb (5 # mapStakerPKID k @ mapValidatorPKID k
        @ EncodeUint64 L (mapLockedAtEpochNumber k) @ EncodeUint64 L h @ EncodeUint64 L b) [] = (wb1, True)"
      using set_pair by blast
    then show ?case using Cons.IH [of wb1]
      by (simp add: x lockedStakeBalanceSnapshotKey_def BalanceTypePrefix_def index_consts)
  qed simp
  then show ?thesis by (simp add: PutLockedStakeBalanceSnapshotWithWB_def)
qed

end

interpretation memory_reliable: reliable_index refLib memStore map_of "\<lambda>wb. wb" ..

context reliable_index
begin

lemma commit_result:
  assumes wf: "wfView view" "wfIndex L (kv db)" and skip: "\<not> beforeSnapshot server hyperSync h"
  shows "\<exists>db'. handleBlockCommitted L B server hyperSync \<lparr>eventHeight = h, eventUtxoView = Some view\<rparr> db =
      Some db' \<and> wfIndex L (kv db') \<and>
    (\<forall>t pk. publicKeyBalance t \<longrightarrow> length pk = 33 \<longrightarrow>
       snapshotsOf L (kv db') t pk = snapshotsOf L (kv db) t pk \<union>
         {(h, b) | b. (pk, b) \<in> set (eventBalances L view t)}) \<and>
    sameBlocks L (kv db) (kv db')"
proof -
  let ?P1 = PrefixBalanceSnapshots and ?P2 = PrefixLockedBalanceSnapshots
    and ?P3 = PrefixValidatorStakedBalanceSnapshots
  have p: "BalanceTypePrefix DESOBalance = Some ?P1" "BalanceTypePrefix CreatorCoinLockedBalance = Some ?P2"
    "BalanceTypePrefix ValidatorStakedDESOBalance = Some ?P3"
    by (simp_all add: BalanceTypePrefix_def index_consts)
  have t: "publicKeyBalance DESOBalance" "publicKeyBalance CreatorCoinLockedBalance"
    "publicKeyBalance ValidatorStakedDESOBalance" by (simp_all add: publicKeyBalance_cases)
  let ?b1 = "eventBalances L view DESOBalance" and ?b2 = "eventBalances L view CreatorCoinLockedBalance"
    and ?b3 = "eventBalances L view ValidatorStakedDESOBalance"
  have eb: "?b1 = PublicKeyToDeSoBalanceNanos view" "?b2 = lockedBalances L view"
    "?b3 = validatorEntryBalances L view" by (simp_all add: eventBalances_def index_consts)
  obtain wb1 where 1: "PutBalanceSnapshotWithWB L B (NewWriteBatch B db) h DESOBalance ?b1 = Some (wb1, True)"
    using put_reliable [OF t(1)] by blast
  obtain wb2 where 2: "PutBalanceSnapshotWithWB L B wb1 h CreatorCoinLockedBalance ?b2 = Some (wb2, True)"
    using put_reliable [OF t(2)] by blast
  obtain wb3 where 3: "PutBalanceSnapshotWithWB L B wb2 h ValidatorStakedDESOBalance ?b3 = Some (wb3, True)"
    using put_reliable [OF t(3)] by blast
  obtain wb4 where 4: "PutLockedStakeBalanceSnapshotWithWB L B wb3 h LockedStakeDESOBalance
      (lockedStakeEntryBalances view) = Some (wb4, True)"
    using put_locked_reliable by blast
  let ?w1 = "snapshotWrites L ?P1 h ?b1" and ?w2 = "snapshotWrites L ?P2 h ?b2"
    and ?w3 = "snapshotWrites L ?P3 h ?b3" and ?w4 = "lockedWrites L h (lockedStakeEntryBalances view)"
  have pending: "pending wb4 = ?w1 @ ?w2 @ ?w3 @ ?w4"
    using 1 2 3 4 t putBalances_pending [OF p(1)] putBalances_pending [OF p(2)]
      putBalances_pending [OF p(3)] putLockedStakeBalances_pending
    by (simp add: PutBalanceSnapshotWithWB_def PutLockedStakeBalanceSnapshotWithWB_def)
  let ?db = "fst (wbFlush B wb4 db)"
  have kv': "kv ?db = applyWrites ?w4 (applyWrites ?w3 (applyWrites ?w2 (applyWrites ?w1 (kv db))))"
    by (simp add: pending applyWrites_append)
  have run: "handleBlockCommitted L B server hyperSync \<lparr>eventHeight = h, eventUtxoView = Some view\<rparr> db = Some ?db"
    using skip 1 2 3 4 by (simp add: handleBlockCommitted_def eb)
  have good: "\<forall>k \<in> fst ` set (eventBalances L view t). length k = 33" for t
    using goodMap_eventBalances [OF wf(1), of t] by (simp add: goodMap_def)
  have snapshots: "?P1 \<in> snapshotPrefixes" "?P2 \<in> snapshotPrefixes" "?P3 \<in> snapshotPrefixes"
    by (simp_all add: snapshotPrefixes_def)
  have "wfIndex L (kv ?db)"
    unfolding kv' using lockedStakeEntryBalances_keys [OF wf(1)]
    by (intro wfIndex_applyWrites wfKey_snapshotWrites wfKey_lockedWrites snapshots good wf(2))
      (simp add: lockedKeyLengths_def)
  moreover have "snapshotsOf L (kv ?db) t pk = snapshotsOf L (kv db) t pk \<union>
      {(h, b) | b. (pk, b) \<in> set (eventBalances L view t)}"
    if t: "publicKeyBalance t" and pk: "length pk = 33" for t pk
  proof -
    note own = snapshotsOf_snapshotWrites [OF _ good pk]
    have hd: "\<forall>k \<in> fst ` set (snapshotWrites L q h bals). hd k = q" for q bals
      by (auto simp: snapshotWrites_def)
    have hd4: "\<forall>k \<in> fst ` set ?w4. hd k = PrefixLockedStakeBalanceSnapshots"
      by (auto simp: lockedWrites_def)
    note other = snapshotsOf_other
    have ne: "?P1 \<noteq> ?P2" "?P2 \<noteq> ?P1" "?P1 \<noteq> ?P3" "?P3 \<noteq> ?P1" "?P2 \<noteq> ?P3" "?P3 \<noteq> ?P2"
      "PrefixLockedStakeBalanceSnapshots \<noteq> ?P1" "PrefixLockedStakeBalanceSnapshots \<noteq> ?P2"
      "PrefixLockedStakeBalanceSnapshots \<noteq> ?P3" by (simp_all add: index_consts)
    from t [unfolded publicKeyBalance_cases] show ?thesis
    proof (elim disjE)
      assume "t = DESOBalance"
      then show ?thesis unfolding kv'
        using hd4 hd by (simp add: own [OF p(1)] other [OF p(1)] ne)
    next
      assume "t = CreatorCoinLockedBalance"
      then show ?thesis unfolding kv'
        using hd4 hd by (simp add: own [OF p(2)] other [OF p(2)] ne)
    next
      assume "t = ValidatorStakedDESOBalance"
      then show ?thesis unfolding kv'
        using hd4 hd by (simp add: own [OF p(3)] other [OF p(3)] ne)
    qed
  qed
  moreover have "sameBlocks L (kv db) (kv ?db)"
  proof -
    have key: "hypersyncHeightToBlockKey L x t \<notin> fst ` set (snapshotWrites L q h bals)"
      if "q \<noteq> PrefixHypersyncBlockHeightToBalances" for q bals x t
      using that by (auto simp: snapshotWrites_def hypersyncHeightToBlockKey_def)
    have key4: "hypersyncHeightToBlockKey L x t \<notin> fst ` set ?w4" for x t
      by (auto simp: lockedWrites_def hypersyncHeightToBlockKey_def index_consts)
    have "?P1 \<noteq> PrefixHypersyncBlockHeightToBalances" "?P2 \<noteq> PrefixHypersyncBlockHeightToBalances"
      "?P3 \<noteq> PrefixHypersyncBlockHeightToBalances" by (simp_all add: index_consts)
    then show ?thesis
      unfolding sameBlocks_def kv' by (simp only: applyWrites_other key key4 not_False_eq_True simp_thms)
  qed
  ultimately show ?thesis using run by blast
qed

end

context reliable_index
begin

lemma commits_replay:
  assumes t: "publicKeyBalance t" and pk: "length pk = 33"
  shows "wfIndex L (kv db) \<Longrightarrow> sorted_wrt (<) (map fst events) \<Longrightarrow>
    \<forall>(n, view) \<in> set events. wfView view \<and> \<not> beforeSnapshot server hyperSync n \<and>
      (\<forall>s \<in> snapshotsOf L (kv db) t pk. fst s < n) \<Longrightarrow>
    \<exists>db'. commitAll L B server hyperSync events db = Some db' \<and> wfIndex L (kv db') \<and>
      latest (snapshotsOf L (kv db') t pk) h =
        replay L events t pk h (latest (snapshotsOf L (kv db) t pk) h) \<and>
      sameBlocks L (kv db) (kv db')"
proof (induction events arbitrary: db)
  case (Cons event events)
  obtain n view where event: "event = (n, view)" by force
  from Cons.prems have view: "wfView view" and skip: "\<not> beforeSnapshot server hyperSync n"
    and old: "\<forall>s \<in> snapshotsOf L (kv db) t pk. fst s < n" by (auto simp: event)
  obtain db1 where run: "handleBlockCommitted L B server hyperSync
      \<lparr>eventHeight = n, eventUtxoView = Some view\<rparr> db = Some db1"
    and wf1: "wfIndex L (kv db1)"
    and snaps1: "snapshotsOf L (kv db1) t pk = snapshotsOf L (kv db) t pk \<union>
      {(n, b) | b. (pk, b) \<in> set (eventBalances L view t)}"
    and same: "sameBlocks L (kv db) (kv db1)"
    using commit_result [OF view Cons.prems(1) skip] t pk by blast
  have "distinct (map fst (eventBalances L view t))"
    using goodMap_eventBalances [OF view] by (simp add: goodMap_def)
  from latest_put [OF this] old have step: "latest (snapshotsOf L (kv db1) t pk) h =
      (if n \<le> h then (case map_of (eventBalances L view t) pk of
         None \<Rightarrow> latest (snapshotsOf L (kv db) t pk) h | Some b \<Rightarrow> b)
       else latest (snapshotsOf L (kv db) t pk) h)"
    by (simp add: snaps1 split: option.split)
  have "\<forall>(n', view) \<in> set events. wfView view \<and> \<not> beforeSnapshot server hyperSync n' \<and>
      (\<forall>s \<in> snapshotsOf L (kv db1) t pk. fst s < n')"
    using Cons.prems(2,3) by (fastforce simp: event snaps1)
  from Cons.IH [OF wf1 _ this] Cons.prems(2) show ?case
    using sameBlocks_trans [OF same] by (force simp: event run step)
qed simp

end


section \<open>Properties\<close>

text \<open>C6: After the blocks of a chain were committed in order of height, the index answers a balance
  query at any height with the balance the last block at or below that height reported for the
  account, and with the balance it answered before where no block names the account; for the DESO,
  creator coin and validator balances alike. No commit panics.\<close>

theorem committed_blocks_replay:
  assumes "reliable_index L B kv pending" and "wfIndex L (kv db)" and "publicKeyBalance t"
    and "length pk = 33" and "sorted_wrt (<) (map fst events)"
    and "\<forall>(n, view) \<in> set events. wfView view \<and> \<not> beforeSnapshot server hyperSync n \<and>
      (\<forall>s \<in> snapshotsOf L (kv db) t pk. fst s < n)"
    and "GetBalanceSnapshot L B db t pk h = Some bal"
  shows "\<exists>db'. commitAll L B server hyperSync events db = Some db' \<and>
    GetBalanceSnapshot L B db' t pk h = Some (replay L events t pk h bal)"
proof -
  have index: "index_store L B kv pending" using assms(1) by (simp add: reliable_index_def)
  note read = index_store.get_balance_latest [OF index _ assms(3,4)]
  have "bal = latest (snapshotsOf L (kv db) t pk) h" using read [OF assms(2)] assms(7) by simp
  then show ?thesis
    using reliable_index.commits_replay [OF assms(1,3,4,2,5,6)] read by metis
qed

text \<open>A view that only reports DESO balances, for the witnesses.\<close>

definition exampleView :: "u64 \<Rightarrow> UtxoView" where
  "exampleView b =
     \<lparr>PublicKeyToDeSoBalanceNanos = [(examplePk, b)], PublicKeyToPKIDEntry = [],
      GetProfileEntryForPublicKey = (\<lambda>_. None), ProfilePKIDToProfileEntry = [],
      ValidatorPKIDToValidatorEntry = [], LockedStakeMapKeyToLockedStakeEntry = []\<rparr>"

lemma wfView_exampleView [simp]: "wfView (exampleView b)"
  by (simp add: exampleView_def wfView_def)

theorem committed_blocks_replay_witness:
  "\<exists>db'. commitAll refLib memStore None False [(6, exampleView 30), (8, exampleView 20)] exampleDB = Some db' \<and>
     GetBalanceSnapshot refLib memStore db' DESOBalance examplePk 7 = Some 30"
proof -
  have "GetBalanceSnapshot refLib memStore exampleDB DESOBalance examplePk 7 = Some 100"
    unfolding memory_index.get_balance_latest [OF wfIndex_exampleDB DESOBalance_prefix(1) example_length]
    by (simp add: snapshotsOf_exampleDB latest_single)
  from committed_blocks_replay [OF memory_reliable.reliable_index_axioms wfIndex_exampleDB
      DESOBalance_prefix(1) example_length _ _ this,
      of "[(6, exampleView 30), (8, exampleView 20)]" None False]
  show ?thesis
    by (simp add: snapshotsOf_exampleDB beforeSnapshot_def eventBalances_def exampleView_def wfView_def)
qed



end
