(* ===== verification/SyncedNode.thy ===== *)
theory SyncedNode
  imports SeedBlocks BlockCommit
begin

text \<open>
  The index of a node through its whole sync: the snapshot handler fills it, then the block handler
  follows the chain. Blocks up to the snapshot height are ignored, and what the others write leaves
  the synthetic blocks and the balances at their heights alone.
\<close>

section \<open>Blocks up to the snapshot are ignored\<close>

definition afterSnapshot :: "u64 \<Rightarrow> (u64 \<times> UtxoView) list \<Rightarrow> (u64 \<times> UtxoView) list" where
  "afterSnapshot H events = filter (\<lambda>e. H < fst e) events"

lemma commitAll_afterSnapshot:
  "H \<noteq> 0 \<Longrightarrow> commitAll L B (Some (Some H)) True events db =
     commitAll L B (Some (Some H)) True (afterSnapshot H events) db"
proof (induction events arbitrary: db)
  case (Cons e events)
  obtain n view where e: "e = (n, view)" by force
  show ?case
  proof (cases "H < n")
    case True
    have "bind r (commitAll L B (Some (Some H)) True events) =
        bind r (commitAll L B (Some (Some H)) True (afterSnapshot H events))" for r
      by (cases r) (simp_all add: Cons.IH [OF Cons.prems])
    with True show ?thesis by (simp add: e afterSnapshot_def)
  next
    case False
    with Cons.prems have "handleBlockCommitted L B (Some (Some H)) True
        \<lparr>eventHeight = n, eventUtxoView = Some view\<rparr> db = Some db"
      by (simp add: handleBlockCommitted_def beforeSnapshot_def not_less)
    with False Cons show ?thesis by (simp add: e afterSnapshot_def)
  qed
qed (simp add: afterSnapshot_def)

lemma replay_below: "\<forall>e \<in> set events. h < fst e \<Longrightarrow> replay L events t pk h bal = bal"
  by (induction L events t pk h bal rule: replay.induct) auto

lemma sameBlocks_hypersyncAt: "sameBlocks L m m' \<Longrightarrow> hypersyncAt L G m' = hypersyncAt L G m"
  by (intro ext) (simp add: sameBlocks_def hypersyncAt_def)

lemma sameBlocks_decodes: "sameBlocks L m m' \<Longrightarrow> hypersyncDecodes L G m \<Longrightarrow> hypersyncDecodes L G m'"
  by (simp add: sameBlocks_def hypersyncDecodes_def)

section \<open>Snapshot, then blocks\<close>

context hypersync_setting
begin

lemma synced_index:
  assumes H: "0 < H" and entries: "snapshotEntries L X C entries locked" and fresh: "kv db = Map.empty"
    and sorted: "sorted_wrt (<) (map fst events)" and views: "\<forall>(n, view) \<in> set events. wfView view"
  shows "\<exists>db1 db2. handleSnapshotCompleted L G B X C (Some H) db = Some db1 \<and>
    commitAll L B (Some (Some H)) True events db1 = Some db2 \<and>
    wfIndex L (kv db2) \<and> hypersyncDecodes L G (kv db2) \<and> sameBlocks L (kv db1) (kv db2) \<and>
    (\<forall>t pk h. publicKeyBalance t \<longrightarrow> length pk = 33 \<longrightarrow>
       latest (snapshotsOf L (kv db2) t pk) h =
         replay L (afterSnapshot H events) t pk h (latest (snapshotsOf L (kv db1) t pk) h))"
proof -
  obtain db1 where run: "handleSnapshotCompleted L G B X C (Some H) db = Some db1"
    and wf: "wfIndex L (kv db1)" "hypersyncDecodes L G (kv db1)"
    and spread: "\<And>t. publicKeyBalance t \<Longrightarrow> spread H (\<lambda>k. length k = 33) (entries t)
       (snapshotsOf L (kv db1) t) (\<lambda>x. hypersyncAt L G (kv db1) x t)"
    using handleSnapshotCompleted_result [OF H entries fresh] by blast
  have index: "reliable_index L B kv pending" ..
  let ?later = "afterSnapshot H events"
  have later: "sorted_wrt (<) (map fst ?later)"
    using sorted by (simp add: afterSnapshot_def sorted_wrt_map sorted_wrt_filter)
  have old: "\<forall>s \<in> snapshotsOf L (kv db1) t pk. fst s \<le> H" if "publicKeyBalance t" "length pk = 33" for t pk
    using spread [OF that(1)] that(2) by (force simp: spread_def split: option.splits)
  have "\<exists>db2. commitAll L B (Some (Some H)) True ?later db1 = Some db2 \<and> wfIndex L (kv db2) \<and>
      latest (snapshotsOf L (kv db2) t pk) h =
        replay L ?later t pk h (latest (snapshotsOf L (kv db1) t pk) h) \<and> sameBlocks L (kv db1) (kv db2)"
    if t: "publicKeyBalance t" "length pk = 33" for t pk h
  proof (rule reliable_index.commits_replay [OF index t wf(1) later])
    show "\<forall>(n, view) \<in> set ?later. wfView view \<and> \<not> beforeSnapshot (Some (Some H)) True n \<and>
        (\<forall>s \<in> snapshotsOf L (kv db1) t pk. fst s < n)"
      using views old [OF t] by (fastforce simp: afterSnapshot_def beforeSnapshot_def)
  qed
  note commits = this
  obtain db2 where db2: "commitAll L B (Some (Some H)) True ?later db1 = Some db2"
    and "wfIndex L (kv db2)" "sameBlocks L (kv db1) (kv db2)"
    using commits [of DESOBalance "replicate 33 0"] by (auto simp: publicKeyBalance_cases)
  moreover have "latest (snapshotsOf L (kv db2) t pk) h =
      replay L ?later t pk h (latest (snapshotsOf L (kv db1) t pk) h)"
    if "publicKeyBalance t" "length pk = 33" for t pk h
    using commits [OF that, of h] db2 by simp
  moreover have "commitAll L B (Some (Some H)) True events db1 = Some db2"
    using db2 commitAll_afterSnapshot [of H L B events db1] H by simp
  ultimately show ?thesis
    using run sameBlocks_decodes [OF _ wf(2)] by blast
qed

text \<open>The synthetic blocks of the index, whatever was committed since, add up to its balances.\<close>

lemma synced_credits:
  assumes H: "0 < H" and entries: "snapshotEntries L X C entries locked" and fresh: "kv db = Map.empty"
    and run: "handleSnapshotCompleted L G B X C (Some H) db = Some db1"
    and commits: "commitAll L B (Some (Some H)) True events db1 = Some db2"
    and sorted: "sorted_wrt (<) (map fst events)" and views: "\<forall>(n, view) \<in> set events. wfView view"
    and t: "publicKeyBalance t" "length pk = 33" and h: "h \<le> H"
  shows "wfIndex L (kv db2) \<and>
    (\<Sum>x \<in> {1..unat h}. creditsTo (accountFor L t pk)
       (getBlockTransactionsWithHypersync L G B db2 (of_nat x) (hash x))) =
     unat (latest (snapshotsOf L (kv db2) t pk) h)"
proof -
  have db2: "wfIndex L (kv db2)" "hypersyncDecodes L G (kv db2)" "sameBlocks L (kv db1) (kv db2)"
    and latest: "latest (snapshotsOf L (kv db2) t pk) h =
      replay L (afterSnapshot H events) t pk h (latest (snapshotsOf L (kv db1) t pk) h)"
    using synced_index [OF H entries fresh sorted views] run commits t by auto
  have "replay L (afterSnapshot H events) t pk h bal = bal" for bal
    using h by (intro replay_below) (auto simp: afterSnapshot_def)
  with latest have same: "latest (snapshotsOf L (kv db2) t pk) h = latest (snapshotsOf L (kv db1) t pk) h"
    by simp
  have "spread H (\<lambda>k. length k = 33) (entries t) (snapshotsOf L (kv db1) t) (\<lambda>x. hypersyncAt L G (kv db1) x t)"
    using handleSnapshotCompleted_result [OF H entries fresh] run t(1) by auto
  from spread_latest(1) [OF this t(2)] same sameBlocks_hypersyncAt [OF db2(3)]
  have "unat (latest (snapshotsOf L (kv db2) t pk) h) = creditedUpTo (\<lambda>x. hypersyncAt L G (kv db2) x t) pk h"
    by simp
  then show ?thesis using credits_up_to [OF db2(2) t] db2(1) by simp
qed

end


section \<open>Property\<close>

text \<open>C7: The balances of a node through its whole sync. After the snapshot handler ran on an empty index
  and the block handler saw blocks in order of height, a balance query at any height answers: the sum of
  what the synthetic blocks up to that height credit to the account, which from the snapshot height on is
  its balance in the chain snapshot, overridden by the last block above the snapshot and at or below the
  height that names the account. Blocks up to the snapshot height change nothing, and no handler panics.\<close>

theorem synced_index_balances:
  assumes "hypersync_setting L B kv pending G" and "0 < H" and "snapshotEntries L X C entries locked"
    and "kv db = Map.empty" and "sorted_wrt (<) (map fst events)" and "\<forall>(n, view) \<in> set events. wfView view"
    and "publicKeyBalance t" and "length pk = 33"
  shows "\<exists>db1 db2 b. handleSnapshotCompleted L G B X C (Some H) db = Some db1 \<and>
    commitAll L B (Some (Some H)) True events db1 = Some db2 \<and>
    GetBalanceSnapshot L B db2 t pk h = Some (replay L (afterSnapshot H events) t pk h b) \<and>
    unat b = creditedUpTo (\<lambda>x. hypersyncAt L G (kv db2) x t) pk h \<and>
    (H \<le> h \<longrightarrow> b = (case map_of (entries t) pk of None \<Rightarrow> 0 | Some bal \<Rightarrow> bal))"
proof -
  obtain db1 db2 where run: "handleSnapshotCompleted L G B X C (Some H) db = Some db1"
    and commits: "commitAll L B (Some (Some H)) True events db1 = Some db2"
    and wf: "wfIndex L (kv db2)" and same: "sameBlocks L (kv db1) (kv db2)"
    and latest: "latest (snapshotsOf L (kv db2) t pk) h =
      replay L (afterSnapshot H events) t pk h (latest (snapshotsOf L (kv db1) t pk) h)"
    using hypersync_setting.synced_index [OF assms(1-6)] assms(7,8) by blast
  have "index_store L B kv pending"
    using assms(1) by (simp add: hypersync_setting_def hypersync_store_def)
  note read = index_store.get_balance_latest [OF this wf assms(7,8), of h]
  have "spread H (\<lambda>k. length k = 33) (entries t) (snapshotsOf L (kv db1) t) (\<lambda>x. hypersyncAt L G (kv db1) x t)"
    using hypersync_setting.handleSnapshotCompleted_result [OF assms(1-4)] run assms(7) by auto
  note spread_latest [OF this assms(8), of h]
  then show ?thesis
    using run commits read latest sameBlocks_hypersyncAt [OF same] by auto
qed

theorem synced_index_balances_witness:
  "\<exists>db1 db2. handleSnapshotCompleted refLib refGob memStore refCodec exampleChain (Some 2) [] = Some db1 \<and>
     commitAll refLib memStore (Some (Some 2)) True [(2, exampleView 1), (3, exampleView 30)] db1 = Some db2 \<and>
     GetBalanceSnapshot refLib memStore db2 DESOBalance examplePk 2 = Some 100 \<and>
     GetBalanceSnapshot refLib memStore db2 DESOBalance examplePk 4 = Some 30"
proof -
  note balances = synced_index_balances [OF memory_hypersync.hypersync_setting_axioms _ exampleChain_entries _ _ _
      DESOBalance_prefix(1) example_length, of 2 "[]" "[(2, exampleView 1), (3, exampleView 30)]"]
  from balances [of 2] balances [of 4] show ?thesis
    by (auto simp: afterSnapshot_def exampleEntries_def eventBalances_def exampleView_def wfView_def)
qed

end
