(* ===== verification/Blocks.thy ===== *)
theory Blocks
  imports SeedBlocks "HOL-Library.Signed_Division"
begin

text \<open>
  \<open>GetBlock\<close>, \<open>GetBlockAtHeight\<close> and \<open>CurrentBlock\<close> of \<open>deso/block.go\<close>: from a request for a
  block to the Rosetta block, either converted from the block of the chain or, up to the snapshot
  height of a hypersynced node, synthetic. The blockchain of the core library is a record of the
  lookups the code makes.
\<close>

section \<open>The blockchain and the node\<close>

record BlockNode =
  nodeHash :: blockhash
  nodeHeight :: u32
  headerHeight :: u64
  headerTstampNanoSecs :: i64
  headerPrevBlockHash :: blockhash
  headerHash :: "blockhash option" \<comment> \<open>\<open>Header.Hash()\<close>; \<open>None\<close> is an error\<close>
  IsCommitted :: bool

text \<open>
  A lookup returns \<open>None\<close> for nil, or for \<open>exists = false\<close>. \<open>GetBlockFromBestChainByHeight\<close> can
  also report an error, the outer \<open>None\<close>.
\<close>

record blockchain =
  GetBlockNodeWithHash :: "blockhash \<Rightarrow> BlockNode option"
  chainGetBlock :: "blockhash \<Rightarrow> MsgDeSoBlock option"
  GetCommittedTip :: "BlockNode option"
  GetBlockFromBestChainByHeight :: "u64 \<Rightarrow> BlockNode option option"
  FirstSnapshotBlockHeight :: "u64 option"

record ('db, 'wb) node =
  nodeLib :: corelib
  nodeGob :: gobCodec
  nodeStore :: "('db, 'wb) badger"
  nodeParams :: DeSoParams
  nodeBlockchain :: blockchain
  nodeUtxoOperations :: "blockhash \<Rightarrow> UtxoOperation list list option"
  nodeIndex :: 'db
  nodeHyperSync :: bool \<comment> \<open>the sync type is one of the two hypersync types\<close>

record BlockIdentifier =
  identIndex :: i64
  identHash :: string

record Block =
  blockIdentifier :: BlockIdentifier
  ParentBlockIdentifier :: BlockIdentifier
  Timestamp :: i64
  blockTransactions :: "Transaction list"

section \<open>The operations\<close>

text \<open>\<open>int64(t) / 1e6\<close>: signed division that truncates toward zero.\<close>

definition milliseconds :: "i64 \<Rightarrow> i64" where
  "milliseconds t = word_of_int (sint t sdiv 1000000)"

text \<open>A parent that is missing, or whose header does not hash, is a nil pointer that is used.\<close>

definition parentIdentifier ::
  "('db, 'wb) node \<Rightarrow> BlockNode \<Rightarrow> BlockIdentifier \<Rightarrow> BlockIdentifier option" where
  "parentIdentifier N blockNode ident =
     (if headerHeight blockNode = 0 then Some ident
      else
        do { parent \<leftarrow> GetBlockNodeWithHash (nodeBlockchain N) (headerPrevBlockHash blockNode);
             parentHash \<leftarrow> headerHash parent;
             Some \<lparr>identIndex = headerHeight parent,
                   identHash = BlockHashString (nodeLib N) parentHash\<rparr> })"

definition isSyntheticHeight :: "('db, 'wb) node \<Rightarrow> u64 \<Rightarrow> bool" where
  "isSyntheticHeight N height \<longleftrightarrow>
     nodeHyperSync N \<and>
     (case FirstSnapshotBlockHeight (nodeBlockchain N) of
        None \<Rightarrow> False
      | Some first \<Rightarrow> first \<noteq> 0 \<and> height \<le> first)"

definition GetBlock :: "('db, 'wb) node \<Rightarrow> string \<Rightarrow> (Error + Block) option" where
  "GetBlock N hash =
     (case hexDecode hash of
        None \<Rightarrow> Some (Inl ErrCannotDecodeBlockHash)
      | Some hashBytes \<Rightarrow>
          let blockHash = copyArray 32 hashBytes
          in (case GetBlockNodeWithHash (nodeBlockchain N) blockHash of
                None \<Rightarrow> Some (Inl ErrBlockNodeNotFound)
              | Some blockNode \<Rightarrow>
                  if \<not> IsCommitted blockNode then Some (Inl ErrBlockIsNotCommitted)
                  else
                    let height = headerHeight blockNode;
                        ident = \<lparr>identIndex = height, identHash = hash\<rparr>;
                        mkBlock = (\<lambda>parent transactions.
                          \<lparr>blockIdentifier = ident, ParentBlockIdentifier = parent,
                           Timestamp = milliseconds (headerTstampNanoSecs blockNode),
                           blockTransactions = transactions\<rparr>)
                    in do { parent \<leftarrow> parentIdentifier N blockNode ident;
                            (if isSyntheticHeight N height
                             then Some (Inr (mkBlock parent
                               (getBlockTransactionsWithHypersync (nodeLib N) (nodeGob N) (nodeStore N)
                                  (nodeIndex N) height blockHash)))
                             else
                               (case chainGetBlock (nodeBlockchain N) blockHash of
                                  None \<Rightarrow> Some (Inl ErrMsgDesoBlockNotFound)
                                | Some block \<Rightarrow>
                                    do { r \<leftarrow> GetTransactionsForConvertBlock (nodeLib N) (nodeParams N)
                                           (nodeUtxoOperations N) block;
                                         (case r of
                                            Inl err \<Rightarrow> Some (Inl err)
                                          | Inr transactions \<Rightarrow> Some (Inr (mkBlock parent transactions))) })) }))"

text \<open>\<open>int64(committedTip.Height)\<close> widens 32 bits; the comparison is of signed numbers.\<close>

definition GetBlockAtHeight :: "('db, 'wb) node \<Rightarrow> i64 \<Rightarrow> (Error + Block) option" where
  "GetBlockAtHeight N height =
     (case GetCommittedTip (nodeBlockchain N) of
        None \<Rightarrow> Some (Inl ErrCommittedTipNotFound)
      | Some committedTip \<Rightarrow>
          if (ucast (nodeHeight committedTip) :: i64) <s height then Some (Inl ErrBlockHeightTooHigh)
          else
            (case GetBlockFromBestChainByHeight (nodeBlockchain N) height of
               None \<Rightarrow> Some (Inl ErrBlockNodeNotFound)
             | Some None \<Rightarrow> Some (Inl ErrBlockNodeNotFound)
             | Some (Some blockNode) \<Rightarrow>
                 if (ucast (nodeHeight blockNode) :: i64) \<noteq> height then Some (Inl ErrBlockHeightMismatch)
                 else GetBlock N (BlockHashString (nodeLib N) (nodeHash blockNode))))"

definition CurrentBlock :: "('db, 'wb) node \<Rightarrow> (Error + Block) option" where
  "CurrentBlock N =
     (case GetCommittedTip (nodeBlockchain N) of
        None \<Rightarrow> Some (Inl ErrCommittedTipNotFound)
      | Some committedTip \<Rightarrow> GetBlockAtHeight N (ucast (nodeHeight committedTip)))"

section \<open>Results\<close>

lemma GetBlock_Inr:
  assumes "GetBlock N hash = Some (Inr b)"
  shows "\<exists>bs n. hexDecode hash = Some bs \<and>
    GetBlockNodeWithHash (nodeBlockchain N) (copyArray 32 bs) = Some n \<and> IsCommitted n \<and>
    blockIdentifier b = \<lparr>identIndex = headerHeight n, identHash = hash\<rparr> \<and>
    parentIdentifier N n (blockIdentifier b) = Some (ParentBlockIdentifier b) \<and>
    Timestamp b = milliseconds (headerTstampNanoSecs n) \<and>
    (if isSyntheticHeight N (headerHeight n)
     then blockTransactions b = getBlockTransactionsWithHypersync (nodeLib N) (nodeGob N) (nodeStore N)
            (nodeIndex N) (headerHeight n) (copyArray 32 bs)
     else \<exists>block. chainGetBlock (nodeBlockchain N) (copyArray 32 bs) = Some block \<and>
            GetTransactionsForConvertBlock (nodeLib N) (nodeParams N) (nodeUtxoOperations N) block =
              Some (Inr (blockTransactions b)))"
proof -
  obtain bs where bs: "hexDecode hash = Some bs"
    using assms by (cases "hexDecode hash") (auto simp: GetBlock_def)
  obtain n where n: "GetBlockNodeWithHash (nodeBlockchain N) (copyArray 32 bs) = Some n"
    using assms by (cases "GetBlockNodeWithHash (nodeBlockchain N) (copyArray 32 bs)")
      (auto simp: GetBlock_def bs)
  have c: "IsCommitted n" using assms by (rule contrapos_pp) (simp add: GetBlock_def bs n)
  let ?ident = "\<lparr>identIndex = headerHeight n, identHash = hash\<rparr>"
  obtain parent where parent: "parentIdentifier N n ?ident = Some parent"
    using assms by (cases "parentIdentifier N n ?ident") (auto simp: GetBlock_def Let_def bs n c)
  note simps = GetBlock_def Let_def bs n c parent
  show ?thesis
  proof (cases "isSyntheticHeight N (headerHeight n)")
    case True
    then show ?thesis using assms c parent by (auto simp: simps)
  next
    case False
    then obtain block where block: "chainGetBlock (nodeBlockchain N) (copyArray 32 bs) = Some block"
      using assms by (cases "chainGetBlock (nodeBlockchain N) (copyArray 32 bs)") (auto simp: simps)
    obtain r where r: "GetTransactionsForConvertBlock (nodeLib N) (nodeParams N) (nodeUtxoOperations N) block = Some r"
      using assms False block by (cases "GetTransactionsForConvertBlock (nodeLib N) (nodeParams N)
          (nodeUtxoOperations N) block") (auto simp: simps)
    then have "r = Inr (blockTransactions b) \<and> blockIdentifier b = ?ident \<and> ParentBlockIdentifier b = parent \<and>
        Timestamp b = milliseconds (headerTstampNanoSecs n)"
      using assms False block by (cases r) (auto simp: simps)
    then show ?thesis using False bs n c parent block r by simp
  qed
qed

lemma GetBlockAtHeight_Inr:
  assumes "GetBlockAtHeight N h = Some (Inr b)"
  shows "\<exists>tip n. GetCommittedTip (nodeBlockchain N) = Some tip \<and>
    \<not> (ucast (nodeHeight tip) :: i64) <s h \<and>
    GetBlockFromBestChainByHeight (nodeBlockchain N) h = Some (Some n) \<and> ucast (nodeHeight n) = h \<and>
    GetBlock N (BlockHashString (nodeLib N) (nodeHash n)) = Some (Inr b)"
  using assms unfolding GetBlockAtHeight_def
  by (auto split: option.splits if_splits)

section \<open>The laws of the block index\<close>

text \<open>
  What the core library keeps of its best chain: a block of the best chain is found under its hash,
  its header has its height and hashes to its hash, and the block before it on the best chain is the
  one its header names. \<open>BlockHashString\<close> is the hexadecimal string of the 32 bytes.
\<close>

locale best_chain =
  fixes L :: corelib and BC :: blockchain
  assumes hash_string: "length x = 32 \<Longrightarrow> hexDecode (BlockHashString L x) = Some x"
    and node_hash: "GetBlockFromBestChainByHeight BC h = Some (Some n) \<Longrightarrow> length (nodeHash n) = 32 \<and>
      GetBlockNodeWithHash BC (nodeHash n) = Some n \<and> headerHash n = Some (nodeHash n)"
    and node_height: "GetBlockFromBestChainByHeight BC h = Some (Some n) \<Longrightarrow>
      headerHeight n = h \<and> ucast (nodeHeight n) = h"
    and node_parent: "GetBlockFromBestChainByHeight BC h = Some (Some n) \<Longrightarrow> h \<noteq> 0 \<Longrightarrow>
      \<exists>p. GetBlockFromBestChainByHeight BC (h - 1) = Some (Some p) \<and> nodeHash p = headerPrevBlockHash n"
begin

lemma block_at_height:
  assumes "GetBlockAtHeight N h = Some (Inr b)" and "nodeBlockchain N = BC" and "nodeLib N = L"
  shows "\<exists>n. GetBlockFromBestChainByHeight BC h = Some (Some n) \<and>
    blockIdentifier b = \<lparr>identIndex = h, identHash = BlockHashString L (nodeHash n)\<rparr> \<and>
    parentIdentifier N n (blockIdentifier b) = Some (ParentBlockIdentifier b) \<and>
    (isSyntheticHeight N h \<longrightarrow> blockTransactions b =
       getBlockTransactionsWithHypersync L (nodeGob N) (nodeStore N) (nodeIndex N) h (nodeHash n))"
proof -
  from GetBlockAtHeight_Inr [OF assms(1)] assms(2,3) obtain n where
    n: "GetBlockFromBestChainByHeight BC h = Some (Some n)"
    and get: "GetBlock N (BlockHashString L (nodeHash n)) = Some (Inr b)" by auto
  from GetBlock_Inr [OF get] show ?thesis
    using hash_string [of "nodeHash n"] node_hash [OF n] node_height [OF n] n assms(2,3) by auto
qed

lemma parent_is_previous:
  assumes b: "GetBlockAtHeight N h = Some (Inr b)" and b': "GetBlockAtHeight N (h - 1) = Some (Inr b')"
    and "h \<noteq> 0" and N: "nodeBlockchain N = BC" "nodeLib N = L"
  shows "ParentBlockIdentifier b = blockIdentifier b'"
proof -
  obtain n where n: "GetBlockFromBestChainByHeight BC h = Some (Some n)"
    and parent: "parentIdentifier N n (blockIdentifier b) = Some (ParentBlockIdentifier b)"
    using block_at_height [OF b N] by blast
  obtain p where p: "GetBlockFromBestChainByHeight BC (h - 1) = Some (Some p)"
    and ident: "blockIdentifier b' = \<lparr>identIndex = h - 1, identHash = BlockHashString L (nodeHash p)\<rparr>"
    using block_at_height [OF b' N] by blast
  have prev: "nodeHash p = headerPrevBlockHash n" using node_parent [OF n assms(3)] p by auto
  show ?thesis
    using parent node_height [OF n] node_height [OF p] node_hash [OF p] prev assms(3) N ident
    by (auto simp: parentIdentifier_def)
qed

end

section \<open>A chain of three blocks\<close>

definition exampleNode :: "u64 \<Rightarrow> BlockNode" where
  "exampleNode h =
     \<lparr>nodeHash = copyArray 32 (PutUint64 h), nodeHeight = ucast h, headerHeight = h,
      headerTstampNanoSecs = 5000000, headerPrevBlockHash = copyArray 32 (PutUint64 (h - 1)),
      headerHash = Some (copyArray 32 (PutUint64 h)), IsCommitted = True\<rparr>"

definition exampleBlockchain :: blockchain where
  "exampleBlockchain =
     \<lparr>GetBlockNodeWithHash = (\<lambda>x. if x \<in> set [copyArray 32 (PutUint64 h). h \<leftarrow> [0, 1, 2]]
        then Some (exampleNode (BigEndianUint64 x)) else None),
      chainGetBlock = (\<lambda>x. None),
      GetCommittedTip = Some (exampleNode 2),
      GetBlockFromBestChainByHeight = (\<lambda>h. Some (if h \<le> 2 then Some (exampleNode h) else None)),
      FirstSnapshotBlockHeight = Some 2\<rparr>"

lemma BigEndian_copyArray [simp]: "BigEndianUint64 (copyArray 32 (PutUint64 h)) = h"
  by (simp add: copyArray_def)

lemma copyArray_PutUint64_inj [simp]:
  "copyArray 32 (PutUint64 g) = copyArray 32 (PutUint64 h) \<longleftrightarrow> g = h"
  by (metis BigEndian_copyArray)

lemma u64_le_2: "(h :: u64) \<le> 2 \<longleftrightarrow> h = 0 \<or> h = 1 \<or> h = 2"
  by (simp add: word_le_nat_alt word_unat_eq_iff) arith

interpretation example_chain: best_chain refLib exampleBlockchain
  by unfold_locales
    (auto simp: exampleBlockchain_def exampleNode_def u64_le_2 split: if_splits)

definition exampleN :: "(memDB, (bytes \<times> bytes) list) node" where
  "exampleN =
     \<lparr>nodeLib = refLib, nodeGob = refGob, nodeStore = memStore,
      nodeParams = \<lparr>BalanceModelBlockHeight = 0, CreatorCoinAutoSellThresholdNanos = 0, GenesisOutputs = []\<rparr>,
      nodeBlockchain = exampleBlockchain, nodeUtxoOperations = (\<lambda>_. None), nodeIndex = [],
      nodeHyperSync = True\<rparr>"

definition exampleApiBlock :: "u64 \<Rightarrow> Block" where
  "exampleApiBlock h =
     \<lparr>blockIdentifier = \<lparr>identIndex = h, identHash = hexEncode (copyArray 32 (PutUint64 h))\<rparr>,
      ParentBlockIdentifier =
        \<lparr>identIndex = h - 1, identHash = hexEncode (copyArray 32 (PutUint64 (h - 1)))\<rparr>,
      Timestamp = 5, blockTransactions = []\<rparr>"

lemma empty_index_block:
  "getBlockTransactionsWithHypersync refLib refGob memStore [] h hash = []"
  by (simp add: getBlockTransactionsWithHypersync_def GetHypersyncBlockBalances_def readGob_def
      readNext_def sortByHash_def)

lemma exampleN_block:
  assumes "h = 1 \<or> h = 2"
  shows "GetBlockAtHeight exampleN h = Some (Inr (exampleApiBlock h))"
    and "GetBlock exampleN (hexEncode (copyArray 32 (PutUint64 h))) = Some (Inr (exampleApiBlock h))"
proof -
  show get: "GetBlock exampleN (hexEncode (copyArray 32 (PutUint64 h))) = Some (Inr (exampleApiBlock h))"
    using assms
    by (auto simp: GetBlock_def exampleN_def exampleBlockchain_def exampleNode_def parentIdentifier_def
        isSyntheticHeight_def empty_index_block exampleApiBlock_def milliseconds_def)
  then show "GetBlockAtHeight exampleN h = Some (Inr (exampleApiBlock h))"
    using assms by (auto simp: GetBlockAtHeight_def exampleN_def exampleBlockchain_def exampleNode_def word_sless_alt)
qed

lemma sint_widened_u32: "sint (ucast (x :: u32) :: i64) = int (unat x)"
proof -
  have less: "uint x < 2 ^ 32" using unsigned_less [of x] by simp
  then have "\<not> bit (uint x) 63" by (simp add: bit_uint_iff)
  moreover have "take_bit 63 (uint x) = uint x" using less by (intro take_bit_int_eq_self) simp_all
  ultimately show ?thesis by (simp add: signed_ucast_eq signed_take_bit_eq_if_positive)
qed

section \<open>Properties\<close>

text \<open>C13: Blocks requested by height form a chain: the block returned for a height carries that height
  as its index, and names as its parent exactly the identifier under which the block of the previous
  height is returned; for converted and synthetic blocks alike.\<close>

theorem blocks_link:
  assumes "best_chain (nodeLib N) (nodeBlockchain N)" and "h \<noteq> 0"
    and "GetBlockAtHeight N h = Some (Inr b)" and "GetBlockAtHeight N (h - 1) = Some (Inr b')"
  shows "identIndex (blockIdentifier b) = h \<and> ParentBlockIdentifier b = blockIdentifier b' \<and>
    identIndex (blockIdentifier b') = h - 1"
  using best_chain.parent_is_previous [OF assms(1,3,4,2) refl refl]
    best_chain.block_at_height [OF assms(1,3) refl refl]
    best_chain.block_at_height [OF assms(1,4) refl refl] by auto

theorem blocks_link_witness:
  "ParentBlockIdentifier (exampleApiBlock 2) = blockIdentifier (exampleApiBlock 1)"
  using blocks_link [of exampleN 2 "exampleApiBlock 2" "exampleApiBlock 1"] exampleN_block [of 2]
    exampleN_block [of 1] example_chain.best_chain_axioms
  by (simp add: exampleN_def)

text \<open>A block requested by hash is returned under the string of the request: any other string whose
  first 32 bytes are the same returns the same transactions and timestamp under an identifier with
  that other string, for instance one with bytes after the hash.\<close>

theorem block_identifier_echoes_request:
  assumes "hexDecode hash = Some bs" and "hexDecode hash' = Some bs'"
    and "copyArray 32 bs = copyArray 32 bs'" and "GetBlock N hash = Some (Inr b)"
  shows "\<exists>b'. GetBlock N hash' = Some (Inr b') \<and> identHash (blockIdentifier b') = hash' \<and>
    identIndex (blockIdentifier b') = identIndex (blockIdentifier b) \<and>
    blockTransactions b' = blockTransactions b \<and> Timestamp b' = Timestamp b"
proof -
  from GetBlock_Inr [OF assms(4)] assms(1) obtain n where
    n: "GetBlockNodeWithHash (nodeBlockchain N) (copyArray 32 bs) = Some n" "IsCommitted n"
    and ident: "blockIdentifier b = \<lparr>identIndex = headerHeight n, identHash = hash\<rparr>"
    and parent: "parentIdentifier N n (blockIdentifier b) = Some (ParentBlockIdentifier b)"
    and rest: "Timestamp b = milliseconds (headerTstampNanoSecs n)"
      "if isSyntheticHeight N (headerHeight n)
       then blockTransactions b = getBlockTransactionsWithHypersync (nodeLib N) (nodeGob N) (nodeStore N)
              (nodeIndex N) (headerHeight n) (copyArray 32 bs)
       else \<exists>block. chainGetBlock (nodeBlockchain N) (copyArray 32 bs) = Some block \<and>
              GetTransactionsForConvertBlock (nodeLib N) (nodeParams N) (nodeUtxoOperations N) block =
                Some (Inr (blockTransactions b))"
    by auto
  let ?ident = "\<lparr>identIndex = headerHeight n, identHash = hash'\<rparr>"
  obtain parent' where "parentIdentifier N n ?ident = Some parent'"
    using parent by (cases "headerHeight n = 0") (auto simp: parentIdentifier_def)
  then show ?thesis
    using n ident rest by (auto simp: GetBlock_def Let_def assms(2) assms(3) [symmetric] split: if_splits)
qed

theorem block_identifier_echoes_request_witness:
  "\<exists>b'. GetBlock exampleN (hexEncode (copyArray 32 (PutUint64 1) @ [7])) = Some (Inr b') \<and>
     identHash (blockIdentifier b') = hexEncode (copyArray 32 (PutUint64 1) @ [7])"
  using block_identifier_echoes_request [OF hexDecode_hexEncode hexDecode_hexEncode _ exampleN_block(2) [of 1],
      of "copyArray 32 (PutUint64 1) @ [7]"]
  by (auto simp: copyArray_def)

text \<open>Without a request for a particular block the tip is returned, by its own hash, whenever the
  best chain holds the committed tip; and a height above the committed tip is refused before any other
  lookup, the comparison being one of signed numbers.\<close>

theorem current_block_is_committed_tip:
  assumes "GetCommittedTip (nodeBlockchain N) = Some tip"
    and "GetBlockFromBestChainByHeight (nodeBlockchain N) (ucast (nodeHeight tip)) = Some (Some tip)"
    and "sint (height :: i64) > int (unat (nodeHeight tip))"
  shows "CurrentBlock N = GetBlock N (BlockHashString (nodeLib N) (nodeHash tip)) \<and>
    GetBlockAtHeight N height = Some (Inl ErrBlockHeightTooHigh)"
proof -
  have tip: "sint (ucast (nodeHeight tip) :: i64) = int (unat (nodeHeight tip))"
    by (rule sint_widened_u32)
  show ?thesis
    using assms tip by (simp add: CurrentBlock_def GetBlockAtHeight_def word_sless_alt)
qed

theorem current_block_is_committed_tip_witness:
  "CurrentBlock exampleN = GetBlock exampleN (hexEncode (copyArray 32 (PutUint64 2))) \<and>
     GetBlockAtHeight exampleN 3 = Some (Inl ErrBlockHeightTooHigh)"
  using current_block_is_committed_tip [of exampleN "exampleNode 2" 3]
  by (simp add: exampleN_def exampleBlockchain_def exampleNode_def)

end
