(* ===== verification/AccountService.thy ===== *)
theory AccountService
  imports Blocks
begin

text \<open>
  The account endpoints of \<open>services/account_service.go\<close>: the balance of an account at a block, read
  from the index, and the unspent coins of an account. The texts of library errors are a parameter.
\<close>

section \<open>Requests and responses\<close>

record PartialBlockIdentifier =
  partialIndex :: "i64 option"
  partialHash :: "string option"

record AccountBalanceRequest =
  balanceAccountIdentifier :: AccountIdentifier
  balanceBlockIdentifier :: "PartialBlockIdentifier option"

record AccountBalanceResponse =
  responseBlockIdentifier :: BlockIdentifier
  Balances :: "Amount list"

record Coin =
  CoinIdentifier :: string
  coinAmount :: Amount
  coinMetadata :: "string \<rightharpoonup> json"

record AccountCoinsResponse =
  coinsBlockIdentifier :: BlockIdentifier
  Coins :: "Coin list"

text \<open>
  The service: its mode, its node, and what it calls of the libraries. \<open>BlockTip\<close> is never nil.
  \<open>MarshalAmountMetadata\<close> is \<open>types.MarshalMap\<close> on an \<open>amountMetadata\<close>.
\<close>

datatype errCause =
    HexError string | Base58Error string | SubAccountError string | InvalidSubAccount
  | UtxoError bytes | MarshalError

record ('db, 'wb) accountService =
  accountMode :: Mode
  accountNode :: "('db, 'wb) node"
  NewBlockHash :: "bytes \<Rightarrow> blockhash"
  BlockTip :: BlockNode
  GetUnspentUtxoEntrysForPublicKey :: "bytes \<Rightarrow> UtxoEntry list option"
  MarshalAmountMetadata :: "u64 \<Rightarrow> (string \<rightharpoonup> json) option"
  errText :: "errCause \<Rightarrow> string"

section \<open>AccountBalance\<close>

text \<open>The block the balance is asked at: its hash and height, or an error.\<close>

definition resolveBlock ::
  "('db, 'wb) accountService \<Rightarrow> PartialBlockIdentifier \<Rightarrow> Error + (blockhash \<times> u64)" where
  "resolveBlock S block =
     (let BC = nodeBlockchain (accountNode S)
      in case partialHash block of
           Some hash \<Rightarrow>
             (case hexDecode hash of
                None \<Rightarrow> Inl (wrapErr ErrDeSo (Some (errText S (HexError hash))))
              | Some hashBytes \<Rightarrow>
                  let blockHash = NewBlockHash S hashBytes
                  in (case GetBlockNodeWithHash BC blockHash of
                        None \<Rightarrow> Inl ErrBlockNotFound
                      | Some blockNode \<Rightarrow> Inr (blockHash, headerHeight blockNode)))
         | None \<Rightarrow>
             (case partialIndex block of
                None \<Rightarrow> Inl ErrBlockNotFound
              | Some index \<Rightarrow>
                  let blockHeight = (index :: u64)
                  in (case GetCommittedTip BC of
                        None \<Rightarrow> Inl ErrBlockNotFound
                      | Some committedTip \<Rightarrow>
                          if (ucast (nodeHeight committedTip) :: u64) < blockHeight then Inl ErrBlockNotFound
                          else
                            (case GetBlockFromBestChainByHeight BC blockHeight of
                               None \<Rightarrow> Inl ErrBlockNotFound
                             | Some None \<Rightarrow> Inl ErrBlockNotFound
                             | Some (Some blockNode) \<Rightarrow>
                                 if headerHeight blockNode \<noteq> blockHeight then Inl ErrBlockNotFound
                                 else Inr (nodeHash blockNode, blockHeight)))))"

text \<open>The read that a sub-account selects; the outer option is a panic of the index.\<close>

definition balanceOfAccount ::
  "('db, 'wb) accountService \<Rightarrow> string option \<Rightarrow> bytes \<Rightarrow> u64 \<Rightarrow> (Error + u64) option" where
  "balanceOfAccount S sub publicKeyBytes blockHeight =
     (let N = accountNode S; L = nodeLib N; B = nodeStore N; db = nodeIndex N;
          publicKey = NewPublicKey L publicKeyBytes;
          pkid = NewPKID L publicKeyBytes
      in case sub of
           None \<Rightarrow> map_option Inr (GetBalanceSnapshot L B db DESOBalance publicKey blockHeight)
         | Some address \<Rightarrow>
             if address = CreatorCoin then
               map_option Inr (GetBalanceSnapshot L B db CreatorCoinLockedBalance publicKey blockHeight)
             else if HasPrefix address ValidatorEntryPrefix then
               map_option Inr (GetBalanceSnapshot L B db ValidatorStakedDESOBalance publicKey blockHeight)
             else if HasPrefix address LockedStakeEntryPrefix then
               (case GetValidatorPKIDFromSubAccountIdentifier L sub of
                  None \<Rightarrow> Some (Inl (wrapErr ErrDeSo (Some (errText S (SubAccountError address)))))
                | Some validatorPKID \<Rightarrow>
                    map_option Inr (GetLockedStakeBalanceSnapshot L B db LockedStakeDESOBalance pkid
                      validatorPKID 0 blockHeight))
             else Some (Inl (wrapErr ErrDeSo (Some (errText S InvalidSubAccount)))))"

definition accountBalanceSnapshot ::
  "('db, 'wb) accountService \<Rightarrow> AccountIdentifier \<Rightarrow> PartialBlockIdentifier \<Rightarrow>
     (Error + AccountBalanceResponse) option" where
  "accountBalanceSnapshot S account block =
     (case resolveBlock S block of
        Inl err \<Rightarrow> Some (Inl err)
      | Inr (blockHash, blockHeight) \<Rightarrow>
          let L = nodeLib (accountNode S)
          in (case Base58CheckDecode L (Address account) of
                None \<Rightarrow> Some (Inl (wrapErr ErrInvalidPublicKey (Some (errText S (Base58Error (Address account))))))
              | Some publicKeyBytes \<Rightarrow>
                  do { r \<leftarrow> balanceOfAccount S (SubAccount account) publicKeyBytes blockHeight;
                       Some (case r of
                               Inl err \<Rightarrow> Inl err
                             | Inr balance \<Rightarrow>
                                 Inr \<lparr>responseBlockIdentifier =
                                        \<lparr>identIndex = blockHeight, identHash = BlockHashString L blockHash\<rparr>,
                                      Balances = [amountOf (FormatUint balance)]\<rparr>) }))"

definition AccountBalance ::
  "('db, 'wb) accountService \<Rightarrow> AccountBalanceRequest \<Rightarrow> (Error + AccountBalanceResponse) option" where
  "AccountBalance S request =
     (if accountMode S \<noteq> Online then Some (Inl ErrUnavailableOffline)
      else
        (case GetCommittedTip (nodeBlockchain (accountNode S)) of
           None \<Rightarrow> Some (Inl ErrBlockNotFound)
         | Some currentBlock \<Rightarrow>
             let currentBlockHash = BlockHashString (nodeLib (accountNode S)) (nodeHash currentBlock);
                 currentBlockHeight = (ucast (nodeHeight currentBlock) :: i64);
                 current = \<lparr>partialIndex = Some currentBlockHeight, partialHash = Some currentBlockHash\<rparr>
             in accountBalanceSnapshot S (balanceAccountIdentifier request)
                  (case balanceBlockIdentifier request of
                     None \<Rightarrow> current
                   | Some ident \<Rightarrow>
                       if partialHash ident = Some currentBlockHash
                         \<or> partialIndex ident = Some currentBlockHeight
                       then current else ident)))"

section \<open>AccountCoins\<close>

text \<open>A UTXO entry without a key is a nil pointer that is used.\<close>

definition coinOf :: "('db, 'wb) accountService \<Rightarrow> UtxoEntry \<Rightarrow> (Error + Coin) option" where
  "coinOf S utxoEntry =
     (let confirmations = (ucast (nodeHeight (BlockTip S)) :: u64) - ucast (entryBlockHeight utxoEntry) + 1
      in case MarshalAmountMetadata S confirmations of
           None \<Rightarrow> Some (Inl (wrapErr ErrUnableToParseIntermediateResult (Some (errText S MarshalError))))
         | Some metadata \<Rightarrow>
             do { key \<leftarrow> entryUtxoKey utxoEntry;
                  Some (Inr \<lparr>CoinIdentifier = BlockHashString (nodeLib (accountNode S)) (keyTxID key)
                               @ '':'' @ decimal (unat (keyIndex key)),
                             coinAmount = amountOf (FormatUint (entryAmountNanos utxoEntry)),
                             coinMetadata = metadata\<rparr>) })"

fun coinsOf :: "('db, 'wb) accountService \<Rightarrow> UtxoEntry list \<Rightarrow> (Error + Coin list) option" where
  "coinsOf S [] = Some (Inr [])"
| "coinsOf S (utxoEntry # rest) =
     do { r \<leftarrow> coinOf S utxoEntry;
          (case r of
             Inl err \<Rightarrow> Some (Inl err)
           | Inr coin \<Rightarrow>
               do { rs \<leftarrow> coinsOf S rest;
                    Some (case rs of Inl err \<Rightarrow> Inl err | Inr coins \<Rightarrow> Inr (coin # coins)) }) }"

definition AccountCoins :: "('db, 'wb) accountService \<Rightarrow> AccountIdentifier \<Rightarrow> (Error + AccountCoinsResponse) option" where
  "AccountCoins S account =
     (if accountMode S \<noteq> Online then Some (Inl ErrUnavailableOffline)
      else
        (case Base58CheckDecode (nodeLib (accountNode S)) (Address account) of
           None \<Rightarrow> Some (Inl (wrapErr ErrInvalidPublicKey (Some (errText S (Base58Error (Address account))))))
         | Some publicKeyBytes \<Rightarrow>
             (case GetUnspentUtxoEntrysForPublicKey S publicKeyBytes of
                None \<Rightarrow> Some (Inl (wrapErr ErrDeSo (Some (errText S (UtxoError publicKeyBytes)))))
              | Some utxoEntries \<Rightarrow>
                  do { r \<leftarrow> coinsOf S utxoEntries;
                       Some (case r of
                               Inl err \<Rightarrow> Inl err
                             | Inr coins \<Rightarrow>
                                 Inr \<lparr>coinsBlockIdentifier =
                                        \<lparr>identIndex = ucast (nodeHeight (BlockTip S)),
                                         identHash = BlockHashString (nodeLib (accountNode S))
                                           (nodeHash (BlockTip S))\<rparr>,
                                      Coins = coins\<rparr>) })))"

section \<open>Coin identifiers\<close>

text \<open>
  \<open>ParseCoinIdentifier\<close> of \<open>services/utils.go\<close>. \<open>lib.MustDecodeHexBlockHash\<close> panics on what is
  not a hash; a string without a colon panics at the index.
\<close>

definition ParseCoinIdentifier ::
  "(string \<Rightarrow> blockhash option) \<Rightarrow> string \<Rightarrow> (numError + blockhash \<times> u32) option" where
  "ParseCoinIdentifier MustDecodeHexBlockHash identifier =
     (let utxoSpent = Split CHR '':'' identifier
      in do { hash \<leftarrow> MustDecodeHexBlockHash (utxoSpent ! 0);
              indexString \<leftarrow> indexSlice utxoSpent 1;
              Some (case ParseUint32 indexString of
                      (outpointIndex, None) \<Rightarrow> Inr (hash, outpointIndex)
                    | (_, Some err) \<Rightarrow> Inl err) })"

section \<open>Which balance a request reads\<close>

text \<open>The committed tip is the block of the best chain at its height, and \<open>lib.NewBlockHash\<close> copies 32 bytes.\<close>

locale tip_on_chain = best_chain "nodeLib (accountNode S)" "nodeBlockchain (accountNode S)"
  for S :: "('db, 'wb) accountService" +
  assumes tip: "GetCommittedTip (nodeBlockchain (accountNode S)) = Some t \<Longrightarrow>
      GetBlockFromBestChainByHeight (nodeBlockchain (accountNode S)) (ucast (nodeHeight t)) = Some (Some t)"
    and NewBlockHash: "length x = 32 \<Longrightarrow> NewBlockHash S x = x"
begin

lemma resolve_height:
  assumes tip': "GetCommittedTip (nodeBlockchain (accountNode S)) = Some t" and h: "h \<le> ucast (nodeHeight t)"
    and n: "GetBlockFromBestChainByHeight (nodeBlockchain (accountNode S)) h = Some (Some n)"
  shows "resolveBlock S \<lparr>partialIndex = Some h, partialHash = None\<rparr> = Inr (nodeHash n, h)"
  using assms node_height [OF n] by (simp add: resolveBlock_def not_less [symmetric])

lemma resolve_hash:
  assumes n: "GetBlockFromBestChainByHeight (nodeBlockchain (accountNode S)) h = Some (Some n)"
  shows "resolveBlock S \<lparr>partialIndex = i, partialHash = Some (BlockHashString (nodeLib (accountNode S)) (nodeHash n))\<rparr> =
    Inr (nodeHash n, h)"
  using node_hash [OF n] node_height [OF n] by (simp add: resolveBlock_def hash_string NewBlockHash Let_def)

lemma AccountBalance_at_height:
  assumes tip': "GetCommittedTip (nodeBlockchain (accountNode S)) = Some t" and h: "h \<le> ucast (nodeHeight t)"
    and n: "GetBlockFromBestChainByHeight (nodeBlockchain (accountNode S)) h = Some (Some n)"
    and "accountMode S = Online"
  shows "\<exists>ident. resolveBlock S ident = Inr (nodeHash n, h) \<and>
    AccountBalance S \<lparr>balanceAccountIdentifier = a,
      balanceBlockIdentifier = Some \<lparr>partialIndex = Some h, partialHash = None\<rparr>\<rparr> =
    accountBalanceSnapshot S a ident"
proof (cases "h = ucast (nodeHeight t)")
  case True
  then have "n = t" using n tip [OF tip'] by simp
  then show ?thesis using resolve_hash [OF n] True assms(1,4) by (auto simp: AccountBalance_def Let_def)
next
  case False
  then show ?thesis using resolve_height [OF assms(1-3)] assms(1,4) by (auto simp: AccountBalance_def Let_def)
qed

end

lemma balanceOfAccount_for:
  assumes "core_library (nodeLib (accountNode S))" and "publicKeyBalance t" and "length pk = 33"
    and "accountFor (nodeLib (accountNode S)) t pk = \<lparr>Address = adr, SubAccount = sub\<rparr>"
  shows "balanceOfAccount S sub pk h = map_option Inr
    (GetBalanceSnapshot (nodeLib (accountNode S)) (nodeStore (accountNode S)) (nodeIndex (accountNode S)) t pk h)"
proof -
  have id: "NewPublicKey (nodeLib (accountNode S)) pk = pk"
    using assms(1,3) by (simp add: core_library_def core_library_axioms_def)
  have "ValidatorEntryPrefix \<noteq> CreatorCoin" "HasPrefix ValidatorEntryPrefix ValidatorEntryPrefix"
    using HasPrefix_append [of ValidatorEntryPrefix "[]"] by (simp_all add: ValidatorEntryPrefix_def CreatorCoin_def)
  then show ?thesis
    using assms(2,4) id unfolding publicKeyBalance_cases
    by (auto simp: balanceOfAccount_def accountFor_def plainAccount_def subAccount_def
        getValidatorEntrySubAccountIdentifierForValidator_def index_consts Let_def)
qed

lemma AccountBalance_latest:
  assumes "tip_on_chain S" and "index_store L B kv pending" and "wfIndex L (kv db)"
    and "nodeLib (accountNode S) = L" and "nodeStore (accountNode S) = B" and "nodeIndex (accountNode S) = db"
    and "accountMode S = Online" and "publicKeyBalance t" and "length pk = 33"
    and "GetCommittedTip (nodeBlockchain (accountNode S)) = Some tip" and "h \<le> ucast (nodeHeight tip)"
    and "GetBlockFromBestChainByHeight (nodeBlockchain (accountNode S)) h = Some (Some n)"
  shows "AccountBalance S \<lparr>balanceAccountIdentifier = accountFor L t pk,
      balanceBlockIdentifier = Some \<lparr>partialIndex = Some h, partialHash = None\<rparr>\<rparr> =
    Some (Inr \<lparr>responseBlockIdentifier = \<lparr>identIndex = h, identHash = BlockHashString L (nodeHash n)\<rparr>,
      Balances = [amountOf (FormatUint (latest (snapshotsOf L (kv db) t pk) h))]\<rparr>)"
proof -
  have L: "core_library L" using assms(2) by (simp add: index_store_def)
  have decode: "Base58CheckDecode L (Address (accountFor L t pk)) = Some pk"
    using L by (simp add: accountFor_def getValidatorEntrySubAccountIdentifierForValidator_def
        core_library_def address_codec_def)
  have read: "balanceOfAccount S (SubAccount (accountFor L t pk)) pk h =
      Some (Inr (latest (snapshotsOf L (kv db) t pk) h))"
    using balanceOfAccount_for [of S t pk "Address (accountFor L t pk)" "SubAccount (accountFor L t pk)" h]
      index_store.get_balance_latest [OF assms(2,3,8,9)] L assms(4-6,8,9) by simp
  obtain ident where "resolveBlock S ident = Inr (nodeHash n, h)"
    "AccountBalance S \<lparr>balanceAccountIdentifier = accountFor L t pk,
      balanceBlockIdentifier = Some \<lparr>partialIndex = Some h, partialHash = None\<rparr>\<rparr> =
     accountBalanceSnapshot S (accountFor L t pk) ident"
    using tip_on_chain.AccountBalance_at_height [OF assms(1,10,11,12,7)] by blast
  then show ?thesis using decode read assms(4) by (simp add: accountBalanceSnapshot_def)
qed

section \<open>Examples\<close>

definition exampleService :: "(memDB, (bytes \<times> bytes) list) accountService" where
  "exampleService =
     \<lparr>accountMode = Online, accountNode = exampleN\<lparr>nodeIndex := exampleDBAt 1\<rparr>, NewBlockHash = copyArray 32,
      BlockTip = exampleNode 2, GetUnspentUtxoEntrysForPublicKey = (\<lambda>_. Some []),
      MarshalAmountMetadata = (\<lambda>c. Some [''confirmations'' \<mapsto> JUint c]), errText = (\<lambda>_. [])\<rparr>"

interpretation example_service: tip_on_chain exampleService
proof -
  have 1: "nodeLib (accountNode exampleService) = refLib"
    "nodeBlockchain (accountNode exampleService) = exampleBlockchain"
    by (simp_all add: exampleService_def exampleN_def)
  have 2: "NewBlockHash exampleService = copyArray 32" by (simp add: exampleService_def)
  have tip: "GetCommittedTip exampleBlockchain = Some (exampleNode 2)"
    "GetBlockFromBestChainByHeight exampleBlockchain 2 = Some (Some (exampleNode 2))"
    "ucast (nodeHeight (exampleNode 2)) = (2 :: u64)"
    by (simp_all add: exampleBlockchain_def exampleNode_def)
  show "tip_on_chain exampleService"
    by (intro tip_on_chain.intro tip_on_chain_axioms.intro)
      (auto simp: 1 2 tip example_chain.best_chain_axioms)
qed

section \<open>Properties\<close>

text \<open>C12: A balance query for a block height of the best chain, up to the committed tip, answers with the
  identifier of that block and the balance of the index for the account at that height: the DESO
  balance for a plain account, the creator coin and the validator balance for their sub-accounts.\<close>

theorem account_balance_reads_index:
  assumes "tip_on_chain S" and "index_store L B kv pending" and "wfIndex L (kv db)"
    and "nodeLib (accountNode S) = L" and "nodeStore (accountNode S) = B" and "nodeIndex (accountNode S) = db"
    and "accountMode S = Online" and "publicKeyBalance t" and "length pk = 33"
    and "GetCommittedTip (nodeBlockchain (accountNode S)) = Some tip" and "h \<le> ucast (nodeHeight tip)"
    and "GetBlockFromBestChainByHeight (nodeBlockchain (accountNode S)) h = Some (Some n)"
  shows "AccountBalance S \<lparr>balanceAccountIdentifier = accountFor L t pk,
      balanceBlockIdentifier = Some \<lparr>partialIndex = Some h, partialHash = None\<rparr>\<rparr> =
    Some (Inr \<lparr>responseBlockIdentifier = \<lparr>identIndex = h, identHash = BlockHashString L (nodeHash n)\<rparr>,
      Balances = [amountOf (FormatUint (latest (snapshotsOf L (kv db) t pk) h))]\<rparr>)"
  using assms by (rule AccountBalance_latest)

theorem account_balance_reads_index_witness:
  "AccountBalance exampleService \<lparr>balanceAccountIdentifier = plainAccount (hexEncode examplePk),
      balanceBlockIdentifier = Some \<lparr>partialIndex = Some 1, partialHash = None\<rparr>\<rparr> =
    Some (Inr \<lparr>responseBlockIdentifier =
        \<lparr>identIndex = 1, identHash = hexEncode (copyArray 32 (PutUint64 1))\<rparr>,
      Balances = [amountOf (FormatUint 100)]\<rparr>)"
  using account_balance_reads_index [OF example_service.tip_on_chain_axioms memory_index.index_store_axioms
      wfIndex_exampleDBAt [of 1] _ _ _ _ DESOBalance_prefix(1) example_length,
      of "exampleNode 2" 1 "exampleNode 1"]
  by (simp add: exampleService_def exampleN_def exampleBlockchain_def exampleNode_def accountFor_def
      snapshotsOf_exampleDBAt latest_single word_le_nat_alt)

text \<open>C29: The balance of a locked stake account cannot be queried: for the account identifier that the
  blocks use for any staker, validator and epoch, at any block, the endpoint returns an error.\<close>

theorem locked_stake_balance_never_served:
  "\<exists>err. AccountBalance S \<lparr>balanceAccountIdentifier =
        getLockedStakeEntryIdentifierForValidator (nodeLib (accountNode S)) staker validator epoch,
      balanceBlockIdentifier = block\<rparr> = Some (Inl err)"
proof -
  let ?L = "nodeLib (accountNode S)"
  let ?a = "getLockedStakeEntryIdentifierForValidator ?L staker validator epoch"
  let ?s = "LockedStakeEntryPrefix @ ''-'' @ Base58CheckEncode ?L validator @ ''-'' @ FormatUint epoch"
  have a: "SubAccount ?a = Some ?s" by (simp add: getLockedStakeEntryIdentifierForValidator_def)
  have "length (Split CHR ''-'' ?s) \<noteq> 2" by (simp add: length_Split)
  then have none: "GetValidatorPKIDFromSubAccountIdentifier ?L (Some ?s) = None"
    by (simp add: GetValidatorPKIDFromSubAccountIdentifier_def)
  have "?s \<noteq> CreatorCoin" "\<not> HasPrefix ?s ValidatorEntryPrefix" "HasPrefix ?s LockedStakeEntryPrefix"
    by (simp_all add: LockedStakeEntryPrefix_def CreatorCoin_def ValidatorEntryPrefix_def HasPrefix_def)
  then have "\<exists>err. balanceOfAccount S (SubAccount ?a) bs h = Some (Inl err)" for bs h
    using none by (simp add: a balanceOfAccount_def)
  then obtain err where err: "\<And>bs h. balanceOfAccount S (SubAccount ?a) bs h = Some (Inl (err bs h))"
    by metis
  have "\<exists>err. accountBalanceSnapshot S ?a ident = Some (Inl err)" for ident
    by (cases "resolveBlock S ident"; cases "Base58CheckDecode ?L (Address ?a)")
      (auto simp: accountBalanceSnapshot_def err)
  then show ?thesis by (auto simp: AccountBalance_def Let_def split: option.split)
qed

text \<open>The identifier \<open>AccountCoins\<close> gives a coin is read back by \<open>ParseCoinIdentifier\<close> as the
  transaction and the index of the UTXO, when the hash string holds no colon and decodes.\<close>

theorem coin_identifier_round_trip:
  assumes "coinOf S utxoEntry = Some (Inr coin)"
    and "\<forall>x. CHR '':'' \<notin> set (BlockHashString (nodeLib (accountNode S)) x)"
    and "\<forall>x. decodeHash (BlockHashString (nodeLib (accountNode S)) x) = Some x"
  shows "\<exists>key. entryUtxoKey utxoEntry = Some key \<and>
    ParseCoinIdentifier decodeHash (CoinIdentifier coin) = Some (Inr (keyTxID key, keyIndex key))"
proof -
  from assms(1) obtain key where key: "entryUtxoKey utxoEntry = Some key"
    and coin: "CoinIdentifier coin = BlockHashString (nodeLib (accountNode S)) (keyTxID key)
      @ '':'' @ decimal (unat (keyIndex key))"
    by (auto simp: coinOf_def Let_def bind_eq_Some_conv split: option.splits)
  have "(unsigned (keyIndex key) :: nat) < 2 ^ 32" using unsigned_less [of "keyIndex key"] by simp
  then have "ParseUint32 (decimal (unat (keyIndex key))) = (keyIndex key, None)"
    by (simp add: ParseUint32_def parseUintMax_decimal)
  moreover have "CHR '':'' \<notin> set (decimal n)" for n
    using decimal_digits [of "CHR '':''" n] by (auto simp: isDigit_def)
  ultimately show ?thesis
    using assms(2,3) key coin by (simp add: ParseCoinIdentifier_def Split_append_sep Split_no_sep indexSlice_def)
qed

theorem coin_identifier_round_trip_witness:
  "\<exists>coin. coinOf exampleService \<lparr>entryAmountNanos = 5, entryPublicKey = [],
      entryUtxoKey = Some \<lparr>keyTxID = [1, 2], keyIndex = 4\<rparr>, entryBlockHeight = 1\<rparr> = Some (Inr coin) \<and>
    ParseCoinIdentifier hexDecode (CoinIdentifier coin) = Some (Inr ([1, 2], 4))"
proof -
  let ?u = "\<lparr>entryAmountNanos = 5, entryPublicKey = [],
      entryUtxoKey = Some \<lparr>keyTxID = [1, 2], keyIndex = 4\<rparr>, entryBlockHeight = 1\<rparr>"
  have S: "nodeLib (accountNode exampleService) = refLib" by (simp add: exampleService_def exampleN_def)
  have digit: "hexDigit n \<noteq> CHR '':''" if "n < 16" for n
    using of_char_hexDigit [OF that] by (auto split: if_splits)
  have colon: "CHR '':'' \<notin> set (hexEncode b)" for b
  proof -
    have "unat x div 16 < 16" for x :: u8 using unat_byte [of x] by simp
    then have "hexDigit (unat x div 16) \<noteq> CHR '':''" "hexDigit (unat x mod 16) \<noteq> CHR '':''" for x :: u8
      by (simp_all add: digit)
    then show ?thesis by (auto simp: hexEncode_def dest: sym)
  qed
  obtain coin where coin: "coinOf exampleService ?u = Some (Inr coin)"
    by (simp add: coinOf_def exampleService_def)
  show ?thesis
    using coin_identifier_round_trip [OF coin, of hexDecode] coin by (simp add: S colon)
qed

end
