(* ===== verification/Construction.thy ===== *)
theory Construction
  imports AccountService
begin

text \<open>
  The construction endpoints of \<open>services/construction_service.go\<close>, with the option and metadata
  structs of \<open>services/types.go\<close> they hand to one another: preprocess, metadata, payloads, combine,
  hash, parse and submit. JSON encodings, the serialisation of a transaction and the calls of the
  node are fields of the service; every error return of the code is a branch, and \<open>None\<close> is a panic.
\<close>

section \<open>Results\<close>

text \<open>
  An endpoint returns a value or an API error, or panics. \<open>andThen\<close> goes on with the value;
  \<open>orFail\<close> turns the error of a library call into an API error.
\<close>

definition andThen ::
  "(Error + 'a) option \<Rightarrow> ('a \<Rightarrow> (Error + 'b) option) \<Rightarrow> (Error + 'b) option" where
  "andThen r f = (case r of None \<Rightarrow> None | Some (Inl e) \<Rightarrow> Some (Inl e) | Some (Inr x) \<Rightarrow> f x)"

definition orFail :: "Error \<Rightarrow> 'a option \<Rightarrow> (Error + 'a) option" where
  "orFail e r = Some (case r of None \<Rightarrow> Inl e | Some x \<Rightarrow> Inr x)"

lemma andThen_simps [simp]:
  "andThen None f = None" "andThen (Some (Inl e)) f = Some (Inl e)" "andThen (Some (Inr x)) f = f x"
  by (simp_all add: andThen_def)

lemma orFail_simps [simp]:
  "orFail e None = Some (Inl e)" "orFail e (Some x) = Some (Inr x)"
  by (simp_all add: orFail_def)

lemma andThen_Inr:
  "andThen r f = Some (Inr y) \<longleftrightarrow> (\<exists>x. r = Some (Inr x) \<and> f x = Some (Inr y))"
  by (auto simp: andThen_def split: option.splits sum.splits)

lemma orFail_Inr: "orFail e r = Some (Inr x) \<longleftrightarrow> r = Some x"
  by (auto simp: orFail_def split: option.splits)

section \<open>Requests, options and metadata\<close>

text \<open>The values of a \<open>map[string]interface{}\<close> that came from JSON.\<close>

datatype any =
  AnyBool bool | AnyString string | AnyNumber u64 | AnyArray "any list"
| AnyObject "(string \<times> any) list"

type_synonym object = "string \<rightharpoonup> any"

text \<open>An operation of a request; the account, the amount and the coin change may be nil.\<close>

record requestOperation =
  reqIndex :: nat
  reqType :: string
  reqAccount :: "AccountIdentifier option"
  reqAmount :: "Amount option"
  reqCoinIdentifier :: "string option"

record desoOutput =
  outPublicKey :: string
  outAmountNanos :: u64

record desoInput =
  TxHex :: string
  inIndex :: u32

record preprocessOptions =
  optFromPublicKey :: string
  optDeSoOutputs :: "desoOutput list"
  optLegacyUTXOSelection :: bool
  optDeSoInputs :: "desoInput list"
  optNoncePartialID :: u64
  optNonceExpirationBlockHeight :: u64
  optNonceExpirationBlockHeightOffset :: u64
  optFeeRateNanosPerKB :: u64
  optTxnFeeNanos :: u64

record constructionMetadata =
  metaFeePerKB :: u64
  metaDeSoSampleTxnHex :: string
  metaLegacyUTXOSelection :: bool
  metaNoncePartialID :: u64
  metaNonceExpirationBlockHeight :: u64
  metaNonceExpirationBlockHeightOffset :: u64
  metaFeeRateNanosPerKB :: u64
  metaTxnFeeNanos :: u64

record transactionMetadata =
  tmTransaction :: bytes
  tmInputAmounts :: "string list"
  tmLegacyUTXOSelection :: bool
  tmNoncePartialID :: u64
  tmNonceExpirationBlockHeight :: u64
  tmNonceExpirationBlockHeightOffset :: u64
  tmFeeRateNanosPerKB :: u64
  tmTxnFeeNanos :: u64

record globalParams =
  MinimumNetworkFeeNanosPerKB :: u64
  MaxNonceExpirationBlockHeightOffset :: u64

text \<open>What an error of a library, or of \<open>fmt.Errorf\<close>, is about; the service holds its text.\<close>

datatype cause =
    CoinCause string | NumberCause string | InputKeysCause "string list" | NotStringCause string
  | AttributeCause string string | JsonCause | ViewCause | AddressCause string | HexCause string
  | BytesCause | InputsCause | BroadcastCause

section \<open>The service\<close>

text \<open>
  \<open>'m\<close> is the state of the node that these endpoints read and change: its best chain and its
  mempool. \<open>TxnToBytes txn True\<close> is \<open>txn.ToBytes(true)\<close>, the serialisation without signature.
  \<open>AddInputsAndChangeToTransaction\<close> returns the transaction it changed in place and the fee.
\<close>

record 'm constructionService =
  constructionMode :: Mode
  constructionCore :: corelib
  constructionParams :: DeSoParams
  MarshalOptions :: "preprocessOptions \<Rightarrow> object option"
  UnmarshalOptions :: "object \<Rightarrow> preprocessOptions option"
  MarshalMetadata :: "constructionMetadata \<Rightarrow> object option"
  UnmarshalMetadata :: "object \<Rightarrow> constructionMetadata option"
  MarshalTransaction :: "transactionMetadata \<Rightarrow> bytes option"
  UnmarshalTransaction :: "bytes \<Rightarrow> transactionMetadata option"
  TxnToBytes :: "MsgDeSoTxn \<Rightarrow> bool \<Rightarrow> bytes option"
  TxnFromBytes :: "bytes \<Rightarrow> MsgDeSoTxn option"
  MustDecodeHexBlockHash :: "string \<Rightarrow> blockhash option"
  BlockHashOfBytes :: "bytes \<Rightarrow> blockhash"
  merkleSha256DoubleHash :: "bytes \<Rightarrow> bytes"
  ScalarSetBytes :: "bytes \<Rightarrow> bytes"
  DefaultMaxNonceExpirationBlockHeightOffset :: u64
  GetAugmentedUniversalView :: "'m \<Rightarrow> globalParams option"
  BlockTipHeight :: "'m \<Rightarrow> u32"
  AddInputsAndChangeToTransaction :: "'m \<Rightarrow> MsgDeSoTxn \<Rightarrow> u64 \<Rightarrow> (MsgDeSoTxn \<times> u64) option"
  VerifyAndBroadcastTransaction :: "'m \<Rightarrow> MsgDeSoTxn \<Rightarrow> 'm \<times> bool"
  causeText :: "cause \<Rightarrow> string"

definition BytesPerKb :: u64 where "BytesPerKb = 1000"
definition MaxDERSigLen :: nat where "MaxDERSigLen = 74"
definition FeeByteBuffer :: nat where "FeeByteBuffer = 2"

abbreviation wrapCause :: "'m constructionService \<Rightarrow> Error \<Rightarrow> cause \<Rightarrow> Error" where
  "wrapCause S e c \<equiv> wrapErr e (Some (causeText S c))"

definition ConstructionDerive :: "'m constructionService \<Rightarrow> bytes \<Rightarrow> (Error + AccountIdentifier) option" where
  "ConstructionDerive S publicKeyBytes =
     Some (Inr (plainAccount (Base58CheckEncode (constructionCore S) publicKeyBytes)))"

section \<open>Preprocess\<close>

text \<open>
  \<open>exists && useLegacyUtxos.(bool)\<close>: the type assertion panics on a value that is no bool. A nil
  metadata map is \<open>None\<close>.
\<close>

definition useLegacyUtxos :: "object option \<Rightarrow> bool option" where
  "useLegacyUtxos metadata =
     (case metadata of
        None \<Rightarrow> Some False
      | Some m \<Rightarrow>
          (case m ''legacy_utxo_selection'' of
             None \<Rightarrow> Some False
           | Some (AnyBool b) \<Rightarrow> Some b
           | Some _ \<Rightarrow> None))"

record preprocessState =
  inputPubKeysFound :: "(string, bool) gomap"
  foundInputs :: "desoInput list"
  foundOutputs :: "desoOutput list"

definition preprocessInput ::
  "'m constructionService \<Rightarrow> object option \<Rightarrow> requestOperation \<Rightarrow> preprocessState \<Rightarrow>
     (Error + preprocessState) option" where
  "preprocessInput S metadata op st =
     do { account \<leftarrow> reqAccount op;
          let st = st\<lparr>inputPubKeysFound := goSet (Address account) True (inputPubKeysFound st)\<rparr>;
          legacy \<leftarrow> useLegacyUtxos metadata;
          (if \<not> legacy then Some (Inr st)
           else
             do { identifier \<leftarrow> reqCoinIdentifier op;
                  r \<leftarrow> ParseCoinIdentifier (MustDecodeHexBlockHash S) identifier;
                  Some (case r of
                          Inl _ \<Rightarrow> Inl (wrapCause S ErrInvalidCoin (CoinCause identifier))
                        | Inr (txId, txnIndex) \<Rightarrow>
                            Inr (st\<lparr>foundInputs :=
                              foundInputs st @ [\<lparr>TxHex = hexEncode txId, inIndex = txnIndex\<rparr>]\<rparr>)) }) }"

definition preprocessOutput ::
  "'m constructionService \<Rightarrow> requestOperation \<Rightarrow> preprocessState \<Rightarrow> (Error + preprocessState) option" where
  "preprocessOutput S op st =
     do { amount \<leftarrow> reqAmount op;
          (case ParseUint (Value amount) of
             (_, Some _) \<Rightarrow>
               Some (Inl (wrapCause S ErrUnableToParseIntermediateResult (NumberCause (Value amount))))
           | (nanos, None) \<Rightarrow>
               do { account \<leftarrow> reqAccount op;
                    Some (Inr (st\<lparr>foundOutputs :=
                      foundOutputs st @ [\<lparr>outPublicKey = Address account, outAmountNanos = nanos\<rparr>]\<rparr>)) }) }"

fun preprocessLoop ::
  "'m constructionService \<Rightarrow> object option \<Rightarrow> requestOperation list \<Rightarrow> preprocessState \<Rightarrow>
     (Error + preprocessState) option" where
  "preprocessLoop S metadata [] st = Some (Inr st)"
| "preprocessLoop S metadata (op # ops) st =
     andThen
       (if reqType op = InputOpType then preprocessInput S metadata op st
        else if reqType op = OutputOpType then preprocessOutput S op st
        else Some (Inr st))
       (preprocessLoop S metadata ops)"

text \<open>An attribute that is missing counts as 0; the lookup in a nil map finds nothing.\<close>

definition CheckMetadataForAttributeAndParseUint64 ::
  "object option \<Rightarrow> string \<Rightarrow> cause + u64" where
  "CheckMetadataForAttributeAndParseUint64 metadata key =
     (case Option.bind metadata (\<lambda>m. m key) of
        None \<Rightarrow> Inr 0
      | Some (AnyString valueStr) \<Rightarrow>
          (case ParseUint valueStr of
             (_, Some _) \<Rightarrow> Inl (AttributeCause key valueStr)
           | (parsedValue, None) \<Rightarrow> Inr parsedValue)
      | Some _ \<Rightarrow> Inl (NotStringCause key))"

definition attribute ::
  "'m constructionService \<Rightarrow> object option \<Rightarrow> string \<Rightarrow> (Error + u64) option" where
  "attribute S metadata key =
     Some (case CheckMetadataForAttributeAndParseUint64 metadata key of
             Inl c \<Rightarrow> Inl (wrapCause S ErrUnableToParseIntermediateResult c)
           | Inr v \<Rightarrow> Inr v)"

text \<open>The struct is built from its zero value: no branch sets \<open>LegacyUTXOSelection\<close>.\<close>

definition ConstructionPreprocess ::
  "'m constructionService \<Rightarrow> object option \<Rightarrow> requestOperation list \<Rightarrow> (Error + object) option" where
  "ConstructionPreprocess S metadata operations =
     andThen (preprocessLoop S metadata operations
         \<lparr>inputPubKeysFound = [], foundInputs = [], foundOutputs = []\<rparr>) (\<lambda>st.
     if length (inputPubKeysFound st) \<noteq> 1
     then Some (Inl (wrapCause S ErrUnableToParseIntermediateResult
            (InputKeysCause (map fst (inputPubKeysFound st)))))
     else
       andThen (attribute S metadata ''nonce_partial_id'') (\<lambda>partialID.
       andThen (attribute S metadata ''nonce_expiration_block_height'') (\<lambda>expiration.
       andThen (attribute S metadata ''nonce_expiration_block_height_offset'') (\<lambda>offset.
       andThen (attribute S metadata ''fee_rate_nanos_per_kb'') (\<lambda>feeRate.
       andThen (attribute S metadata ''txn_fee_nanos'') (\<lambda>txnFee.
       orFail (wrapCause S ErrUnableToParseIntermediateResult JsonCause)
         (MarshalOptions S
            \<lparr>optFromPublicKey = fst (hd (inputPubKeysFound st)), optDeSoOutputs = foundOutputs st,
             optLegacyUTXOSelection = False, optDeSoInputs = foundInputs st,
             optNoncePartialID = partialID, optNonceExpirationBlockHeight = expiration,
             optNonceExpirationBlockHeightOffset = offset, optFeeRateNanosPerKB = feeRate,
             optTxnFeeNanos = txnFee\<rparr>)))))))"


section \<open>Metadata\<close>

text \<open>The struct updates of a transaction.\<close>

definition withNonce :: "DeSoNonce option \<Rightarrow> MsgDeSoTxn \<Rightarrow> MsgDeSoTxn" where
  "withNonce nonce txn =
     MsgDeSoTxn (TxInputs txn) (TxOutputs txn) (PublicKey txn) (TxnMeta txn) (TxnVersion txn)
       (TxnFeeNanos txn) nonce (Signature txn)"

definition withFee :: "u64 \<Rightarrow> MsgDeSoTxn \<Rightarrow> MsgDeSoTxn" where
  "withFee fee txn =
     MsgDeSoTxn (TxInputs txn) (TxOutputs txn) (PublicKey txn) (TxnMeta txn) (TxnVersion txn)
       fee (TxnNonce txn) (Signature txn)"

definition withSignature :: "(bytes \<times> bytes) option \<Rightarrow> MsgDeSoTxn \<Rightarrow> MsgDeSoTxn" where
  "withSignature sig txn =
     MsgDeSoTxn (TxInputs txn) (TxOutputs txn) (PublicKey txn) (TxnMeta txn) (TxnVersion txn)
       (TxnFeeNanos txn) (TxnNonce txn) sig"

definition basicTransfer :: "DeSoInput list \<Rightarrow> DeSoOutput list \<Rightarrow> pubkey \<Rightarrow> MsgDeSoTxn" where
  "basicTransfer inputs outputs publicKey =
     MsgDeSoTxn inputs outputs publicKey BasicTransferMetadata 0 0 None None"

text \<open>The fee rate: the network's, 1000 where it sets none, raised by a higher one of the caller.\<close>

definition feeRate :: "u64 \<Rightarrow> u64 \<Rightarrow> Error + u64" where
  "feeRate minimumNetworkFee requested =
     (let feePerKB = (if minimumNetworkFee = 0 then MinFeeRateNanosPerKB else minimumNetworkFee)
      in if 0 < requested \<and> requested < feePerKB then Inl ErrFeeRateBelowNetworkMinimum
         else Inr (if feePerKB < requested then requested else feePerKB))"

fun fullDeSoOutputs ::
  "'m constructionService \<Rightarrow> desoOutput list \<Rightarrow> (Error + DeSoOutput list) option" where
  "fullDeSoOutputs S [] = Some (Inr [])"
| "fullDeSoOutputs S (output # outputs) =
     andThen (orFail (wrapCause S ErrUnableToParseIntermediateResult (AddressCause (outPublicKey output)))
         (Base58CheckDecode (constructionCore S) (outPublicKey output))) (\<lambda>pkBytes.
     andThen (fullDeSoOutputs S outputs) (\<lambda>rest.
       Some (Inr (\<lparr>outputPublicKey = pkBytes, outputAmountNanos = outAmountNanos output\<rparr> # rest))))"

fun legacyInputs ::
  "'m constructionService \<Rightarrow> desoInput list \<Rightarrow> (Error + DeSoInput list) option" where
  "legacyInputs S [] = Some (Inr [])"
| "legacyInputs S (input # inputs) =
     andThen (orFail (wrapCause S ErrInvalidTransaction (HexCause (TxHex input)))
         (hexDecode (TxHex input))) (\<lambda>txId.
     andThen (legacyInputs S inputs) (\<lambda>rest.
       Some (Inr (\<lparr>inputTxID = BlockHashOfBytes S txId, inputIndex = inIndex input\<rparr> # rest))))"

text \<open>The sample transaction and its fee, with the inputs of the caller or those the node adds.\<close>

definition sampleTransaction ::
  "'m constructionService \<Rightarrow> 'm \<Rightarrow> preprocessOptions \<Rightarrow> u64 \<Rightarrow> MsgDeSoTxn \<Rightarrow>
     (Error + MsgDeSoTxn \<times> u64) option" where
  "sampleTransaction S mem options feePerKB txn =
     (if optLegacyUTXOSelection options then
        andThen (legacyInputs S (optDeSoInputs options)) (\<lambda>inputs.
          let txn = basicTransfer inputs (TxOutputs txn) (PublicKey txn)
          in andThen (orFail (wrapCause S ErrInvalidTransaction BytesCause) (TxnToBytes S txn True))
               (\<lambda>txnBytes.
                  let txnSize = of_nat (length txnBytes + MaxDERSigLen + FeeByteBuffer)
                  in Some (Inr (txn, feePerKB * txnSize div BytesPerKb))))
      else orFail (wrapCause S ErrInvalidTransaction InputsCause)
             (AddInputsAndChangeToTransaction S mem txn feePerKB))"

text \<open>
  The nonce. An offset takes precedence over a height; a transaction without a nonce is left alone.
  The additions wrap at 64 bits.
\<close>

definition maxNonceOffset :: "'m constructionService \<Rightarrow> globalParams \<Rightarrow> u64" where
  "maxNonceOffset S params =
     (if 0 < MaxNonceExpirationBlockHeightOffset params
      then MaxNonceExpirationBlockHeightOffset params
      else DefaultMaxNonceExpirationBlockHeightOffset S)"

definition applyNonce ::
  "preprocessOptions \<Rightarrow> u64 \<Rightarrow> u64 \<Rightarrow> MsgDeSoTxn \<Rightarrow> Error + MsgDeSoTxn" where
  "applyNonce options maxOffset height txn =
     (case TxnNonce txn of
        None \<Rightarrow> Inr txn
      | Some nonce \<Rightarrow>
          let nonce = (if 0 < optNoncePartialID options
                       then nonce\<lparr>PartialID := optNoncePartialID options\<rparr> else nonce);
              offset = optNonceExpirationBlockHeightOffset options;
              expiration = optNonceExpirationBlockHeight options
          in if 0 < offset then
               (if maxOffset < offset then Inl ErrNonceExpirationBlockHeightOffsetTooLarge
                else Inr (withNonce (Some (nonce\<lparr>ExpirationBlockHeight := height + offset\<rparr>)) txn))
             else if 0 < expiration then
               (if expiration < height then Inl ErrNonceExpirationBlockHeightTooLow
                else if height + maxOffset < expiration then Inl ErrNonceExpirationBlockHeightTooHigh
                else Inr (withNonce (Some (nonce\<lparr>ExpirationBlockHeight := expiration\<rparr>)) txn))
             else Inr (withNonce (Some nonce) txn))"

definition applyFee :: "preprocessOptions \<Rightarrow> u64 \<Rightarrow> MsgDeSoTxn \<Rightarrow> Error + (MsgDeSoTxn \<times> u64)" where
  "applyFee options fee txn =
     (if 0 < optTxnFeeNanos options then
        (if optTxnFeeNanos options < TxnFeeNanos txn then Inl ErrFeeTooLow
         else Inr (withFee (optTxnFeeNanos options) txn, optTxnFeeNanos options))
      else Inr (txn, fee))"

definition metadataOf :: "preprocessOptions \<Rightarrow> u64 \<Rightarrow> bytes \<Rightarrow> constructionMetadata" where
  "metadataOf options feePerKB desoTxnBytes =
     \<lparr>metaFeePerKB = feePerKB, metaDeSoSampleTxnHex = hexEncode desoTxnBytes,
      metaLegacyUTXOSelection = optLegacyUTXOSelection options,
      metaNoncePartialID = optNoncePartialID options,
      metaNonceExpirationBlockHeight = optNonceExpirationBlockHeight options,
      metaNonceExpirationBlockHeightOffset = optNonceExpirationBlockHeightOffset options,
      metaFeeRateNanosPerKB = optFeeRateNanosPerKB options, metaTxnFeeNanos = optTxnFeeNanos options\<rparr>"

record metadataResponse =
  responseMetadata :: object
  SuggestedFee :: "Amount list"

text \<open>From the options on: the transaction to sign, the rate and the fee.\<close>

definition constructTransaction ::
  "'m constructionService \<Rightarrow> 'm \<Rightarrow> globalParams \<Rightarrow> preprocessOptions \<Rightarrow>
     (Error + MsgDeSoTxn \<times> u64 \<times> u64) option" where
  "constructTransaction S mem params options =
     (if optLegacyUTXOSelection options \<and>
          BalanceModelBlockHeight (constructionParams S) \<le> BlockTipHeight S mem
      then Some (Inl ErrLegacyUtxoSelectionNotAllowed)
      else
        andThen (Some (feeRate (MinimumNetworkFeeNanosPerKB params) (optFeeRateNanosPerKB options))) (\<lambda>feePerKB.
        andThen (fullDeSoOutputs S (optDeSoOutputs options)) (\<lambda>outputs.
        andThen (orFail (wrapCause S ErrDeSo (AddressCause (optFromPublicKey options)))
          (Base58CheckDecode (constructionCore S) (optFromPublicKey options))) (\<lambda>fromPubKeyBytes.
        andThen (sampleTransaction S mem options feePerKB (basicTransfer [] outputs fromPubKeyBytes)) (\<lambda>(txn, fee).
        andThen (Some (applyNonce options (maxNonceOffset S params) (ucast (BlockTipHeight S mem)) txn)) (\<lambda>txn.
        andThen (Some (applyFee options fee txn)) (\<lambda>(txn, fee).
          Some (Inr (txn, feePerKB, fee)))))))))"

definition ConstructionMetadata ::
  "'m constructionService \<Rightarrow> 'm \<Rightarrow> object \<Rightarrow> (Error + metadataResponse) option" where
  "ConstructionMetadata S mem requestOptions =
     (if constructionMode S \<noteq> Online then Some (Inl ErrUnavailableOffline)
      else
        andThen (orFail (wrapCause S ErrDeSo ViewCause) (GetAugmentedUniversalView S mem)) (\<lambda>params.
        andThen (orFail (wrapCause S ErrUnableToParseIntermediateResult JsonCause)
          (UnmarshalOptions S requestOptions)) (\<lambda>options.
        andThen (constructTransaction S mem params options) (\<lambda>(txn, feePerKB, fee).
        andThen (orFail (wrapCause S ErrInvalidTransaction BytesCause) (TxnToBytes S txn True)) (\<lambda>desoTxnBytes.
        andThen (orFail (wrapCause S ErrUnableToParseIntermediateResult JsonCause)
          (MarshalMetadata S (metadataOf options feePerKB desoTxnBytes))) (\<lambda>metadata.
          Some (Inr \<lparr>responseMetadata = metadata, SuggestedFee = [amountOf (FormatUint fee)]\<rparr>)))))))"


section \<open>Payloads, combine, hash\<close>

record SigningPayload =
  payloadAccount :: "AccountIdentifier option"
  payloadBytes :: bytes \<comment> \<open>to be signed with ECDSA\<close>

record payloadsResponse =
  UnsignedTransaction :: string
  Payloads :: "SigningPayload list"

text \<open>The amounts of the inputs, and the account of the last input; a nil amount panics.\<close>

fun signingInputs ::
  "requestOperation list \<Rightarrow> AccountIdentifier option \<Rightarrow> (string list \<times> AccountIdentifier option) option" where
  "signingInputs [] account = Some ([], account)"
| "signingInputs (op # ops) account =
     (if reqType op = InputOpType then
        do { amount \<leftarrow> reqAmount op;
             (amounts, account) \<leftarrow> signingInputs ops (reqAccount op);
             Some (Value amount # amounts, account) }
      else signingInputs ops account)"

definition unsignedMetadata :: "constructionMetadata \<Rightarrow> bytes \<Rightarrow> string list \<Rightarrow> transactionMetadata" where
  "unsignedMetadata metadata desoTxnBytes inputAmounts =
     \<lparr>tmTransaction = desoTxnBytes, tmInputAmounts = inputAmounts,
      tmLegacyUTXOSelection = metaLegacyUTXOSelection metadata,
      tmNoncePartialID = metaNoncePartialID metadata,
      tmNonceExpirationBlockHeight = metaNonceExpirationBlockHeight metadata,
      tmNonceExpirationBlockHeightOffset = metaNonceExpirationBlockHeightOffset metadata,
      tmFeeRateNanosPerKB = metaFeeRateNanosPerKB metadata, tmTxnFeeNanos = metaTxnFeeNanos metadata\<rparr>"

text \<open>The error of \<open>json.Marshal\<close> is not looked at: its bytes are empty then.\<close>

definition marshalTransaction :: "'m constructionService \<Rightarrow> transactionMetadata \<Rightarrow> bytes" where
  "marshalTransaction S t = (case MarshalTransaction S t of None \<Rightarrow> [] | Some bs \<Rightarrow> bs)"

definition ConstructionPayloads ::
  "'m constructionService \<Rightarrow> object \<Rightarrow> requestOperation list \<Rightarrow> (Error + payloadsResponse) option" where
  "ConstructionPayloads S requestMetadata operations =
     andThen (orFail (wrapCause S ErrUnableToParseIntermediateResult JsonCause)
       (UnmarshalMetadata S requestMetadata)) (\<lambda>metadata.
     do { (inputAmounts, signingAccount) \<leftarrow> signingInputs operations None;
          andThen (orFail (wrapCause S ErrInvalidTransaction (HexCause (metaDeSoSampleTxnHex metadata)))
            (hexDecode (metaDeSoSampleTxnHex metadata))) (\<lambda>desoTxnBytes.
          Some (Inr
            \<lparr>UnsignedTransaction =
               hexEncode (marshalTransaction S (unsignedMetadata metadata desoTxnBytes inputAmounts)),
             Payloads = [\<lparr>payloadAccount = signingAccount,
                          payloadBytes = merkleSha256DoubleHash S desoTxnBytes\<rparr>]\<rparr>)) })"

text \<open>Hexadecimal, JSON, and the transaction inside: how four endpoints read their argument.\<close>

definition readTransaction ::
  "'m constructionService \<Rightarrow> string \<Rightarrow> (Error + transactionMetadata \<times> MsgDeSoTxn) option" where
  "readTransaction S txnHex =
     andThen (orFail (wrapCause S ErrInvalidTransaction (HexCause txnHex)) (hexDecode txnHex)) (\<lambda>txnBytes.
     andThen (orFail (wrapCause S ErrInvalidTransaction JsonCause) (UnmarshalTransaction S txnBytes)) (\<lambda>metadata.
     andThen (orFail (wrapCause S ErrInvalidTransaction BytesCause)
       (TxnFromBytes S (tmTransaction metadata))) (\<lambda>txn.
       Some (Inr (metadata, txn)))))"

text \<open>
  A signature is R and S, 32 bytes each. A slice expression may read up to the capacity of a
  slice, so a signature is the bytes up to its capacity; a request without one panics.
\<close>

definition sliceRange :: "nat \<Rightarrow> nat \<Rightarrow> bytes \<Rightarrow> bytes option" where
  "sliceRange low high bs = (if high \<le> length bs then Some (drop low (take high bs)) else None)"

definition ConstructionCombine ::
  "'m constructionService \<Rightarrow> string \<Rightarrow> bytes list \<Rightarrow> (Error + string) option" where
  "ConstructionCombine S unsignedTransaction signatures =
     andThen (readTransaction S unsignedTransaction) (\<lambda>(unsignedTxn, desoTxn).
     do { signatureBytes \<leftarrow> indexSlice signatures 0;
          rBytes \<leftarrow> sliceRange 0 32 signatureBytes;
          sBytes \<leftarrow> sliceRange 32 64 signatureBytes;
          let desoTxn = withSignature (Some (ScalarSetBytes S rBytes, ScalarSetBytes S sBytes)) desoTxn;
          andThen (orFail (wrapCause S ErrInvalidTransaction BytesCause) (TxnToBytes S desoTxn False)) (\<lambda>signedTxnBytes.
          Some (Inr (hexEncode (marshalTransaction S (unsignedTxn\<lparr>tmTransaction := signedTxnBytes\<rparr>))))) })"

definition ConstructionHash :: "'m constructionService \<Rightarrow> string \<Rightarrow> (Error + string) option" where
  "ConstructionHash S signedTransaction =
     andThen (readTransaction S signedTransaction) (\<lambda>(_, txn).
       Some (Inr (BlockHashString (constructionCore S) (TxnHash (constructionCore S) txn))))"

section \<open>Parse and submit\<close>

definition constructionOp :: "nat \<Rightarrow> string \<Rightarrow> AccountIdentifier \<Rightarrow> string \<Rightarrow> requestOperation" where
  "constructionOp i t account v =
     \<lparr>reqIndex = i, reqType = t, reqAccount = Some account, reqAmount = Some (amountOf v),
      reqCoinIdentifier = None\<rparr>"

fun parseInputs :: "AccountIdentifier \<Rightarrow> nat \<Rightarrow> string list \<Rightarrow> requestOperation list" where
  "parseInputs signer numOps [] = []"
| "parseInputs signer numOps (amount # amounts) =
     constructionOp numOps InputOpType signer amount # parseInputs signer (numOps + 1) amounts"

text \<open>A change output is skipped, unless the inputs were selected or the transaction has a nonce.\<close>

fun parseOutputs ::
  "corelib \<Rightarrow> bool \<Rightarrow> MsgDeSoTxn \<Rightarrow> nat \<Rightarrow> DeSoOutput list \<Rightarrow> requestOperation list" where
  "parseOutputs L legacy txn numOps [] = []"
| "parseOutputs L legacy txn numOps (output # outputs) =
     (if \<not> legacy \<and> outputPublicKey output = PublicKey txn \<and> TxnNonce txn = None
      then parseOutputs L legacy txn numOps outputs
      else constructionOp numOps OutputOpType
             (plainAccount (Base58CheckEncode L (outputPublicKey output)))
             (FormatUint (outputAmountNanos output))
           # parseOutputs L legacy txn (numOps + 1) outputs)"

record parseResponse =
  parsedOperations :: "requestOperation list"
  AccountIdentifierSigners :: "AccountIdentifier list"

text \<open>\<open>s.config.Currency\<close> is \<open>&deso.Currency\<close> in every configuration that loads.\<close>

definition ConstructionParse ::
  "'m constructionService \<Rightarrow> bool \<Rightarrow> string \<Rightarrow> (Error + parseResponse) option" where
  "ConstructionParse S isSigned txnHex =
     andThen (readTransaction S txnHex) (\<lambda>(metadata, desoTxn).
       let L = constructionCore S;
           signer = plainAccount (Base58CheckEncode L (PublicKey desoTxn));
           inputs = parseInputs signer 0 (tmInputAmounts metadata);
           operations = inputs @ parseOutputs L (tmLegacyUTXOSelection metadata) desoTxn (length inputs)
             (TxOutputs desoTxn)
       in Some (Inr \<lparr>parsedOperations = operations,
                     AccountIdentifierSigners = (if isSigned then [signer] else [])\<rparr>))"

text \<open>A submission that fails verification may still have changed the state of the node.\<close>

definition ConstructionSubmit ::
  "'m constructionService \<Rightarrow> 'm \<Rightarrow> string \<Rightarrow> 'm \<times> (Error + string) option" where
  "ConstructionSubmit S mem signedTransaction =
     (if constructionMode S \<noteq> Online then (mem, Some (Inl ErrUnavailableOffline))
      else
        (case readTransaction S signedTransaction of
           None \<Rightarrow> (mem, None)
         | Some (Inl e) \<Rightarrow> (mem, Some (Inl e))
         | Some (Inr (_, desoTxn)) \<Rightarrow>
             (case VerifyAndBroadcastTransaction S mem desoTxn of
                (mem', False) \<Rightarrow> (mem', Some (Inl (wrapCause S ErrDeSo BroadcastCause)))
              | (mem', True) \<Rightarrow>
                  (mem', Some (Inr (BlockHashString (constructionCore S)
                    (TxnHash (constructionCore S) desoTxn)))))))"


end
