(* ===== verification/ConstructionFlow.thy ===== *)
theory ConstructionFlow
  imports Construction
begin

text \<open>
  What the construction endpoints promise together. The locales state what they rely on of the JSON
  encodings and of the serialisation of transactions, and what the node does to a transaction in the
  balance model; the lemmas follow a transfer from preprocess to parse.
\<close>

section \<open>What survives JSON\<close>

text \<open>
  A number in a \<open>map[string]interface{}\<close> passes through a float, which holds integers up to
  \<open>2 ^ 53\<close>; text survives a JSON string where it is valid UTF-8, for which ASCII suffices.
\<close>

definition exactNumber :: "u64 \<Rightarrow> bool" where
  "exactNumber x \<longleftrightarrow> x \<le> 2 ^ 53"

definition ascii :: "string \<Rightarrow> bool" where
  "ascii s \<longleftrightarrow> (\<forall>c \<in> set s. (of_char c :: nat) < 128)"

definition plainOptions :: "preprocessOptions \<Rightarrow> bool" where
  "plainOptions opts \<longleftrightarrow>
     ascii (optFromPublicKey opts) \<and>
     list_all (\<lambda>out. ascii (outPublicKey out) \<and> exactNumber (outAmountNanos out)) (optDeSoOutputs opts) \<and>
     list_all (\<lambda>inp. ascii (TxHex inp)) (optDeSoInputs opts) \<and>
     list_all exactNumber [optNoncePartialID opts, optNonceExpirationBlockHeight opts,
       optNonceExpirationBlockHeightOffset opts, optFeeRateNanosPerKB opts, optTxnFeeNanos opts]"

definition plainMetadata :: "constructionMetadata \<Rightarrow> bool" where
  "plainMetadata meta \<longleftrightarrow>
     ascii (metaDeSoSampleTxnHex meta) \<and>
     list_all exactNumber [metaFeePerKB meta, metaNoncePartialID meta, metaNonceExpirationBlockHeight meta,
       metaNonceExpirationBlockHeightOffset meta, metaFeeRateNanosPerKB meta, metaTxnFeeNanos meta]"

lemma ascii_hexEncode [simp]: "ascii (hexEncode bs)"
proof -
  have "(of_char (hexDigit n) :: nat) < 128" if "n < 16" for n
    using of_char_hexDigit [OF that] that by (auto split: if_splits)
  moreover have "unat x div 16 < 16" for x :: u8 using unat_byte [of x] by simp
  ultimately show ?thesis by (auto simp: ascii_def hexEncode_def)
qed

locale construction_codecs =
  core_library "constructionCore S" for S :: "'m constructionService" +
  assumes options_codec: "plainOptions opts \<Longrightarrow>
      \<exists>m. MarshalOptions S opts = Some m \<and> UnmarshalOptions S m = Some opts"
    and metadata_codec: "plainMetadata meta \<Longrightarrow>
      \<exists>m. MarshalMetadata S meta = Some m \<and> UnmarshalMetadata S m = Some meta"
    and transaction_codec: "list_all ascii (tmInputAmounts t) \<Longrightarrow>
      \<exists>bs. MarshalTransaction S t = Some bs \<and> UnmarshalTransaction S bs = Some t"
    and txn_codec: "TxnToBytes S txn preSignature = Some bs \<Longrightarrow>
      TxnFromBytes S bs = Some (if preSignature then withSignature None txn else txn)"
begin

lemma marshalTransaction_codec:
  "list_all ascii (tmInputAmounts t) \<Longrightarrow> UnmarshalTransaction S (marshalTransaction S t) = Some t"
  using transaction_codec [of t] by (auto simp: marshalTransaction_def)

lemma readTransaction_marshal:
  assumes "list_all ascii (tmInputAmounts t)" and "TxnToBytes S txn pre = Some (tmTransaction t)"
  shows "readTransaction S (hexEncode (marshalTransaction S t)) =
    Some (Inr (t, if pre then withSignature None txn else txn))"
  by (simp add: readTransaction_def marshalTransaction_codec [OF assms(1)] txn_codec [OF assms(2)])

end

locale balance_model_node = construction_codecs S for S :: "'m constructionService" +
  assumes add_inputs: "AddInputsAndChangeToTransaction S mem txn rate = Some (txn', fee) \<Longrightarrow>
      TxOutputs txn' = TxOutputs txn \<and> PublicKey txn' = PublicKey txn \<and> TxnNonce txn' \<noteq> None"

lemma withSignature_sel [simp]:
  "TxOutputs (withSignature s t) = TxOutputs t" "PublicKey (withSignature s t) = PublicKey t"
  "TxnNonce (withSignature s t) = TxnNonce t" "Signature (withSignature s t) = s"
  "withSignature s (withSignature s' t) = withSignature s t"
  by (simp_all add: withSignature_def)

lemma withNonce_sel [simp]:
  "TxOutputs (withNonce n t) = TxOutputs t" "PublicKey (withNonce n t) = PublicKey t"
  "TxnNonce (withNonce n t) = n" "TxnFeeNanos (withNonce n t) = TxnFeeNanos t"
  by (simp_all add: withNonce_def)

lemma withFee_sel [simp]:
  "TxOutputs (withFee f t) = TxOutputs t" "PublicKey (withFee f t) = PublicKey t"
  "TxnNonce (withFee f t) = TxnNonce t" "TxnFeeNanos (withFee f t) = f"
  by (simp_all add: withFee_def)

lemma basicTransfer_sel [simp]:
  "TxOutputs (basicTransfer i out pk) = out" "PublicKey (basicTransfer i out pk) = pk"
  "TxInputs (basicTransfer i out pk) = i"
  by (simp_all add: basicTransfer_def)

section \<open>The transaction built by the metadata endpoint\<close>

lemma applyNonce_keeps:
  "applyNonce opts m h txn = Inr txn' \<Longrightarrow>
     TxOutputs txn' = TxOutputs txn \<and> PublicKey txn' = PublicKey txn \<and>
     (TxnNonce txn' = None \<longleftrightarrow> TxnNonce txn = None) \<and> TxnFeeNanos txn' = TxnFeeNanos txn"
  by (auto simp: applyNonce_def Let_def split: option.splits if_splits)

lemma applyFee_keeps:
  "applyFee opts fee txn = Inr (txn', fee') \<Longrightarrow>
     TxOutputs txn' = TxOutputs txn \<and> PublicKey txn' = PublicKey txn \<and> TxnNonce txn' = TxnNonce txn"
  by (auto simp: applyFee_def split: if_splits)

lemma constructTransaction_Inr:
  assumes "constructTransaction S mem params opts = Some (Inr (txn, rate, fee))"
  shows "\<exists>outputs pk txn1 fee1 txn2.
    feeRate (MinimumNetworkFeeNanosPerKB params) (optFeeRateNanosPerKB opts) = Inr rate \<and>
    fullDeSoOutputs S (optDeSoOutputs opts) = Some (Inr outputs) \<and>
    Base58CheckDecode (constructionCore S) (optFromPublicKey opts) = Some pk \<and>
    sampleTransaction S mem opts rate (basicTransfer [] outputs pk) = Some (Inr (txn1, fee1)) \<and>
    applyNonce opts (maxNonceOffset S params) (ucast (BlockTipHeight S mem)) txn1 = Inr txn2 \<and>
    applyFee opts fee1 txn2 = Inr (txn, fee)"
  using assms by (auto simp: constructTransaction_def andThen_Inr orFail_Inr split: if_splits)

lemma ConstructionMetadata_Inr:
  assumes "ConstructionMetadata S mem m = Some (Inr resp)" and "UnmarshalOptions S m = Some opts"
    and "GetAugmentedUniversalView S mem = Some params"
  shows "\<exists>txn rate fee bs. constructTransaction S mem params opts = Some (Inr (txn, rate, fee)) \<and>
    TxnToBytes S txn True = Some bs \<and>
    MarshalMetadata S (metadataOf opts rate bs) = Some (responseMetadata resp) \<and>
    SuggestedFee resp = [amountOf (FormatUint fee)]"
  using assms by (auto simp: ConstructionMetadata_def andThen_Inr orFail_Inr split: if_splits)

lemma feeRate_Inr:
  assumes "feeRate network requested = Inr rate"
  shows "(if network = 0 then MinFeeRateNanosPerKB else network) \<le> rate \<and>
    (0 < requested \<longrightarrow> rate = requested)"
  using assms by (auto simp: feeRate_def Let_def split: if_splits)

lemma applyNonce_Inr:
  assumes "applyNonce opts m h txn = Inr txn'" and "TxnNonce txn' = Some n"
  shows "(0 < optNoncePartialID opts \<longrightarrow> PartialID n = optNoncePartialID opts) \<and>
    (0 < optNonceExpirationBlockHeightOffset opts \<longrightarrow>
       optNonceExpirationBlockHeightOffset opts \<le> m \<and>
       ExpirationBlockHeight n = h + optNonceExpirationBlockHeightOffset opts) \<and>
    (optNonceExpirationBlockHeightOffset opts = 0 \<and> 0 < optNonceExpirationBlockHeight opts \<longrightarrow>
       ExpirationBlockHeight n = optNonceExpirationBlockHeight opts \<and>
       h \<le> ExpirationBlockHeight n \<and> ExpirationBlockHeight n \<le> h + m)"
  using assms by (auto simp: applyNonce_def Let_def split: option.splits if_splits)

lemma applyFee_Inr:
  assumes "applyFee opts fee txn = Inr (txn', fee')" and "0 < optTxnFeeNanos opts"
  shows "fee' = optTxnFeeNanos opts \<and> TxnFeeNanos txn' = fee' \<and> TxnFeeNanos txn \<le> fee'"
  using assms by (auto simp: applyFee_def split: if_splits)

lemma expiration_window:
  assumes "unat h + unat m < 2 ^ 64"
    and "0 < off \<and> off \<le> m \<and> e = h + off \<or> h \<le> e \<and> e \<le> h + (m :: u64)"
  shows "unat h \<le> unat e \<and> unat e \<le> unat h + unat m"
proof -
  have hm: "unat (h + m) = unat h + unat m"
    using assms(1) by (simp add: unat_word_ariths(1))
  show ?thesis
  proof (cases "0 < off \<and> off \<le> m \<and> e = h + off")
    case True
    then have "unat off \<le> unat m" by (simp add: word_le_nat_alt)
    then have "unat e = unat h + unat off"
      using True assms(1) by (simp add: unat_word_ariths(1))
    then show ?thesis using \<open>unat off \<le> unat m\<close> by simp
  next
    case False
    then have "h \<le> e" "e \<le> h + m" using assms(2) by auto
    then show ?thesis using hm by (simp add: word_le_nat_alt)
  qed
qed

lemma unat_widened_u32: "unat (ucast (x :: u32) :: u64) = unat x"
  using unsigned_less [where 'a = nat and w = x]
  by (simp add: unsigned_ucast_eq take_bit_nat_eq_self)

section \<open>A transfer from preprocess to parse\<close>

text \<open>
  The operations of a transfer, as a client writes them: the inputs of one account, then the
  outputs, numbered from 0. No operation selects a coin.
\<close>

definition transferOps :: "string \<Rightarrow> string list \<Rightarrow> desoOutput list \<Rightarrow> requestOperation list" where
  "transferOps from amounts outs =
     map (\<lambda>(i, t, a, v). constructionOp i t (plainAccount a) v)
       (List.enumerate 0
         (map (\<lambda>v. (InputOpType, from, v)) amounts @
          map (\<lambda>out. (OutputOpType, outPublicKey out, FormatUint (outAmountNanos out))) outs))"

lemma transferOps_split:
  "transferOps from amounts outs =
     parseInputs (plainAccount from) 0 amounts @
     map (\<lambda>(i, out). constructionOp i OutputOpType (plainAccount (outPublicKey out))
            (FormatUint (outAmountNanos out)))
       (List.enumerate (length amounts) outs)"
proof -
  have ins: "map (\<lambda>(i, t, a, v). constructionOp i t (plainAccount a) v)
       (List.enumerate n (map (\<lambda>v. (InputOpType, from, v)) amounts)) =
     parseInputs (plainAccount from) n amounts" for n
    by (induction amounts arbitrary: n) auto
  have outs: "map (\<lambda>(i, t, a, v). constructionOp i t (plainAccount a) v)
       (List.enumerate n (map (\<lambda>out. (OutputOpType, outPublicKey out, FormatUint (outAmountNanos out))) outs)) =
     map (\<lambda>(i, out). constructionOp i OutputOpType (plainAccount (outPublicKey out))
            (FormatUint (outAmountNanos out))) (List.enumerate n outs)" for n
    by (induction outs arbitrary: n) auto
  show ?thesis by (simp add: transferOps_def enumerate_append_eq ins outs)
qed

lemma length_parseInputs [simp]: "length (parseInputs a n amounts) = length amounts"
  by (induction amounts arbitrary: n) auto

lemma op_types_differ [simp]: "InputOpType \<noteq> OutputOpType" "OutputOpType \<noteq> InputOpType"
  by (simp_all add: InputOpType_def OutputOpType_def)

lemma constructionOp_sel [simp]:
  "reqType (constructionOp i t a v) = t" "reqAccount (constructionOp i t a v) = Some a"
  "reqAmount (constructionOp i t a v) = Some (amountOf v)" "reqIndex (constructionOp i t a v) = i"
  by (simp_all add: constructionOp_def)

lemma preprocessLoop_inputs:
  assumes "useLegacyUtxos metadata = Some False" and "inputPubKeysFound st = [(from, True)]"
  shows "preprocessLoop S metadata (parseInputs (plainAccount from) n amounts @ ops) st =
    preprocessLoop S metadata ops st"
proof -
  have st: "st\<lparr>inputPubKeysFound := [(from, True)]\<rparr> = st" using assms(2) by (cases st) simp
  show ?thesis
    by (induction amounts arbitrary: n) (simp_all add: preprocessInput_def assms st)
qed

lemma preprocessLoop_first_input:
  assumes "useLegacyUtxos metadata = Some False" and "inputPubKeysFound st = []" and "amounts \<noteq> []"
  shows "preprocessLoop S metadata (parseInputs (plainAccount from) n amounts @ ops) st =
    preprocessLoop S metadata ops (st\<lparr>inputPubKeysFound := [(from, True)]\<rparr>)"
  using assms by (cases amounts) (auto simp: preprocessInput_def preprocessLoop_inputs)

lemma preprocessLoop_outputs:
  "preprocessLoop S metadata
     (map (\<lambda>(i, out). constructionOp i OutputOpType (plainAccount (outPublicKey out))
            (FormatUint (outAmountNanos out))) (List.enumerate n outs)) st =
   Some (Inr (st\<lparr>foundOutputs := foundOutputs st @ outs\<rparr>))"
  by (induction outs arbitrary: n st) (auto simp: preprocessOutput_def)


text \<open>The metadata of a request for a transfer: no coin selection, and attributes that are exact numbers.\<close>

definition attributeKeys :: "string list" where
  "attributeKeys = [''nonce_partial_id'', ''nonce_expiration_block_height'',
     ''nonce_expiration_block_height_offset'', ''fee_rate_nanos_per_kb'', ''txn_fee_nanos'']"

definition attributeValue :: "object option \<Rightarrow> string \<Rightarrow> u64" where
  "attributeValue metadata key =
     (case CheckMetadataForAttributeAndParseUint64 metadata key of Inl _ \<Rightarrow> 0 | Inr v \<Rightarrow> v)"

definition plainRequest :: "object option \<Rightarrow> bool" where
  "plainRequest metadata \<longleftrightarrow>
     useLegacyUtxos metadata = Some False \<and>
     list_all (\<lambda>key. case CheckMetadataForAttributeAndParseUint64 metadata key of
                Inl _ \<Rightarrow> False | Inr v \<Rightarrow> exactNumber v) attributeKeys"

definition transferOptions :: "object option \<Rightarrow> string \<Rightarrow> desoOutput list \<Rightarrow> preprocessOptions" where
  "transferOptions metadata from outs =
     \<lparr>optFromPublicKey = from, optDeSoOutputs = outs, optLegacyUTXOSelection = False,
      optDeSoInputs = [],
      optNoncePartialID = attributeValue metadata ''nonce_partial_id'',
      optNonceExpirationBlockHeight = attributeValue metadata ''nonce_expiration_block_height'',
      optNonceExpirationBlockHeightOffset =
        attributeValue metadata ''nonce_expiration_block_height_offset'',
      optFeeRateNanosPerKB = attributeValue metadata ''fee_rate_nanos_per_kb'',
      optTxnFeeNanos = attributeValue metadata ''txn_fee_nanos''\<rparr>"

lemma attribute_plain:
  assumes "plainRequest metadata" and "key \<in> set attributeKeys"
  shows "attribute S metadata key = Some (Inr (attributeValue metadata key)) \<and>
    exactNumber (attributeValue metadata key)"
  using assms by (auto simp: plainRequest_def list_all_iff attribute_def attributeValue_def split: sum.splits)

lemma preprocess_transfer:
  assumes "plainRequest metadata" and "amounts \<noteq> []"
  shows "ConstructionPreprocess S metadata (transferOps from amounts outs) =
    orFail (wrapCause S ErrUnableToParseIntermediateResult JsonCause)
      (MarshalOptions S (transferOptions metadata from outs))"
proof -
  have "useLegacyUtxos metadata = Some False" using assms(1) by (simp add: plainRequest_def)
  note loop = preprocessLoop_first_input [OF this _ assms(2)] preprocessLoop_outputs
  note attr = attribute_plain [OF assms(1), THEN conjunct1]
  have keys: "''nonce_partial_id'' \<in> set attributeKeys" "''nonce_expiration_block_height'' \<in> set attributeKeys"
    "''nonce_expiration_block_height_offset'' \<in> set attributeKeys"
    "''fee_rate_nanos_per_kb'' \<in> set attributeKeys" "''txn_fee_nanos'' \<in> set attributeKeys"
    by (simp_all add: attributeKeys_def)
  show ?thesis
    by (simp add: ConstructionPreprocess_def transferOps_split loop attr keys transferOptions_def)
qed

lemma parseOutputs_nonce:
  assumes "TxnNonce txn \<noteq> None"
  shows "parseOutputs L legacy txn n outs =
    map (\<lambda>(i, out). constructionOp i OutputOpType (plainAccount (Base58CheckEncode L (outputPublicKey out)))
           (FormatUint (outputAmountNanos out))) (List.enumerate n outs)"
  using assms by (induction outs arbitrary: n) auto

text \<open>An address that some public key encodes to; the outputs of the transaction carry these keys.\<close>

definition isAddress :: "corelib \<Rightarrow> string \<Rightarrow> bool" where
  "isAddress L a \<longleftrightarrow> ascii a \<and>
     (case Base58CheckDecode L a of None \<Rightarrow> False | Some b \<Rightarrow> Base58CheckEncode L b = a)"

lemma isAddress_decode:
  "isAddress L a \<Longrightarrow> \<exists>b. Base58CheckDecode L a = Some b \<and> Base58CheckEncode L b = a \<and> ascii a"
  by (auto simp: isAddress_def split: option.splits)

lemma fullDeSoOutputs_Inr:
  assumes "fullDeSoOutputs S outs = Some (Inr outputs)"
    and "list_all (\<lambda>out. isAddress (constructionCore S) (outPublicKey out)) outs"
  shows "map (\<lambda>(i, out). constructionOp i OutputOpType
            (plainAccount (Base58CheckEncode (constructionCore S) (outputPublicKey out)))
            (FormatUint (outputAmountNanos out))) (List.enumerate n outputs) =
         map (\<lambda>(i, out). constructionOp i OutputOpType (plainAccount (outPublicKey out))
            (FormatUint (outAmountNanos out))) (List.enumerate n outs)"
  using assms
proof (induction outs arbitrary: outputs n)
  case Nil
  then show ?case by simp
next
  case (Cons out outs)
  obtain b where b: "Base58CheckDecode (constructionCore S) (outPublicKey out) = Some b"
    "Base58CheckEncode (constructionCore S) b = outPublicKey out"
    using isAddress_decode [of "constructionCore S" "outPublicKey out"] Cons.prems(2) by auto
  with Cons show ?case by (auto simp: andThen_Inr orFail_Inr)
qed

context balance_model_node begin

text \<open>The transaction the metadata endpoint builds for a transfer has its outputs, its sender and a nonce.\<close>

lemma transfer_transaction:
  assumes "constructTransaction S mem params (transferOptions metadata from outs) = Some (Inr (txn, rate, fee))"
    and "isAddress (constructionCore S) from"
  shows "fullDeSoOutputs S outs = Some (Inr (TxOutputs txn)) \<and>
    Base58CheckEncode (constructionCore S) (PublicKey txn) = from \<and> TxnNonce txn \<noteq> None"
proof -
  let ?o = "transferOptions metadata from outs"
  obtain outputs pk txn1 fee1 txn2 where
    outputs: "fullDeSoOutputs S outs = Some (Inr outputs)"
    and pk: "Base58CheckDecode (constructionCore S) from = Some pk"
    and txn1: "sampleTransaction S mem ?o rate (basicTransfer [] outputs pk) = Some (Inr (txn1, fee1))"
    and nonce: "applyNonce ?o (maxNonceOffset S params) (ucast (BlockTipHeight S mem)) txn1 = Inr txn2"
    and fee: "applyFee ?o fee1 txn2 = Inr (txn, fee)"
    using constructTransaction_Inr [OF assms(1)] by (auto simp: transferOptions_def)
  have "TxOutputs txn1 = outputs \<and> PublicKey txn1 = pk \<and> TxnNonce txn1 \<noteq> None"
    using txn1 add_inputs [of mem "basicTransfer [] outputs pk" rate txn1 fee1]
    by (simp add: sampleTransaction_def transferOptions_def orFail_Inr)
  then show ?thesis
    using applyNonce_keeps [OF nonce] applyFee_keeps [OF fee] outputs pk isAddress_decode [OF assms(2)] by auto
qed

end


lemma signingInputs_inputs:
  "signingInputs (parseInputs a n amounts @ ops) acc =
     map_option (\<lambda>(vs, acc'). (amounts @ vs, acc')) (signingInputs ops (if amounts = [] then acc else Some a))"
  by (induction amounts arbitrary: n acc)
    (auto simp: option.map_comp comp_def case_prod_unfold option.map_ident split: Option.bind_splits)

lemma signingInputs_outputs:
  "signingInputs (map (\<lambda>(i, out). constructionOp i OutputOpType (f out) (g out)) (List.enumerate n outs)) acc =
     Some ([], acc)"
  by (induction outs arbitrary: n) auto

lemma signingInputs_transfer:
  "amounts \<noteq> [] \<Longrightarrow>
     signingInputs (transferOps from amounts outs) None = Some (amounts, Some (plainAccount from))"
  by (simp add: transferOps_split signingInputs_inputs signingInputs_outputs)

lemma exactNumber_feeRate:
  "feeRate network requested = Inr rate \<Longrightarrow> exactNumber network \<Longrightarrow> exactNumber requested \<Longrightarrow> exactNumber rate"
  by (auto simp: feeRate_def Let_def exactNumber_def MinFeeRateNanosPerKB_def split: if_splits)

lemma plain_transferOptions:
  assumes "plainRequest metadata" and "ascii from"
    and "list_all (\<lambda>out. ascii (outPublicKey out) \<and> exactNumber (outAmountNanos out)) outs"
  shows "plainOptions (transferOptions metadata from outs)"
proof -
  have "list_all exactNumber (map (attributeValue metadata) attributeKeys)"
    using attribute_plain [OF assms(1)] by (auto simp: list_all_iff)
  then show ?thesis using assms(2,3) by (simp add: plainOptions_def transferOptions_def attributeKeys_def)
qed

lemma plain_metadataOf:
  assumes "plainOptions opts" and "exactNumber rate"
  shows "plainMetadata (metadataOf opts rate bs)"
  using assms by (simp add: plainOptions_def plainMetadata_def metadataOf_def)

context balance_model_node begin

lemma payloads_of_transfer:
  assumes "plainMetadata (metadataOf opts rate bs)"
    and "MarshalMetadata S (metadataOf opts rate bs) = Some m"
    and "amounts \<noteq> []"
  shows "ConstructionPayloads S m (transferOps from amounts outs) =
    Some (Inr \<lparr>UnsignedTransaction = hexEncode (marshalTransaction S
                 (unsignedMetadata (metadataOf opts rate bs) bs amounts)),
               Payloads = [\<lparr>payloadAccount = Some (plainAccount from),
                            payloadBytes = merkleSha256DoubleHash S bs\<rparr>]\<rparr>)"
  using metadata_codec [OF assms(1)] assms(2)
  by (auto simp: ConstructionPayloads_def signingInputs_transfer [OF assms(3)] metadataOf_def)

lemma parse_of_transfer:
  assumes "TxnToBytes S txn True = Some bs" and "list_all ascii amounts" and "TxnNonce txn \<noteq> None"
    and "Base58CheckEncode (constructionCore S) (PublicKey txn) = from"
    and "fullDeSoOutputs S outs = Some (Inr (TxOutputs txn))"
    and "list_all (\<lambda>out. isAddress (constructionCore S) (outPublicKey out)) outs"
  shows "ConstructionParse S False
      (hexEncode (marshalTransaction S (unsignedMetadata meta bs amounts))) =
    Some (Inr \<lparr>parsedOperations = transferOps from amounts outs, AccountIdentifierSigners = []\<rparr>)"
proof -
  have "readTransaction S (hexEncode (marshalTransaction S (unsignedMetadata meta bs amounts))) =
      Some (Inr (unsignedMetadata meta bs amounts, withSignature None txn))"
    using readTransaction_marshal [of "unsignedMetadata meta bs amounts" txn True] assms(1,2)
    by (simp add: unsignedMetadata_def)
  then show ?thesis
    using assms(3,4) fullDeSoOutputs_Inr [OF assms(5,6)]
    by (simp add: ConstructionParse_def transferOps_split parseOutputs_nonce unsignedMetadata_def)
qed

lemma transfer_round_trip:
  assumes "plainRequest metadata" and "amounts \<noteq> []" and "list_all ascii amounts"
    and "isAddress (constructionCore S) from"
    and "list_all (\<lambda>out. isAddress (constructionCore S) (outPublicKey out) \<and> exactNumber (outAmountNanos out)) outs"
    and "GetAugmentedUniversalView S mem = Some params" and "exactNumber (MinimumNetworkFeeNanosPerKB params)"
  shows "\<exists>options. ConstructionPreprocess S metadata (transferOps from amounts outs) = Some (Inr options) \<and>
    (\<forall>resp. ConstructionMetadata S mem options = Some (Inr resp) \<longrightarrow>
       (\<exists>p. ConstructionPayloads S (responseMetadata resp) (transferOps from amounts outs) = Some (Inr p) \<and>
            map payloadAccount (Payloads p) = [Some (plainAccount from)] \<and>
            ConstructionParse S False (UnsignedTransaction p) =
              Some (Inr \<lparr>parsedOperations = transferOps from amounts outs, AccountIdentifierSigners = []\<rparr>)))"
proof -
  let ?o = "transferOptions metadata from outs"
  have addresses: "list_all (\<lambda>out. isAddress (constructionCore S) (outPublicKey out)) outs"
    "list_all (\<lambda>out. ascii (outPublicKey out) \<and> exactNumber (outAmountNanos out)) outs"
    using assms(5) by (auto simp: list_all_iff dest: isAddress_decode)
  have plain: "plainOptions ?o"
    using assms(1,4) addresses(2) by (auto intro!: plain_transferOptions dest: isAddress_decode)
  obtain m where m: "MarshalOptions S ?o = Some m" "UnmarshalOptions S m = Some ?o"
    using options_codec [OF plain] by blast
  have "ConstructionPreprocess S metadata (transferOps from amounts outs) = Some (Inr m)"
    by (simp add: preprocess_transfer [OF assms(1,2)] m)
  moreover have "\<exists>p. ConstructionPayloads S (responseMetadata resp) (transferOps from amounts outs) = Some (Inr p) \<and>
      map payloadAccount (Payloads p) = [Some (plainAccount from)] \<and>
      ConstructionParse S False (UnsignedTransaction p) =
        Some (Inr \<lparr>parsedOperations = transferOps from amounts outs, AccountIdentifierSigners = []\<rparr>)"
    if resp: "ConstructionMetadata S mem m = Some (Inr resp)" for resp
  proof -
    obtain txn rate fee bs where
      txn: "constructTransaction S mem params ?o = Some (Inr (txn, rate, fee))"
      and bs: "TxnToBytes S txn True = Some bs"
      and meta: "MarshalMetadata S (metadataOf ?o rate bs) = Some (responseMetadata resp)"
      using ConstructionMetadata_Inr [OF resp m(2) assms(6)] by blast
    have "feeRate (MinimumNetworkFeeNanosPerKB params) (optFeeRateNanosPerKB ?o) = Inr rate"
      using constructTransaction_Inr [OF txn] by blast
    then have "exactNumber rate"
      using exactNumber_feeRate assms(7) plain by (auto simp: plainOptions_def)
    then have "plainMetadata (metadataOf ?o rate bs)" by (rule plain_metadataOf [OF plain])
    note payloads = payloads_of_transfer [OF this meta assms(2), of "from" outs]
    show ?thesis
      using payloads parse_of_transfer [OF bs assms(3) _ _ _ addresses(1)] transfer_transaction [OF txn assms(4)]
      by simp
  qed
  ultimately show ?thesis by blast
qed

end

lemma parseOutputs_withSignature [simp]:
  "parseOutputs L legacy (withSignature sig txn) n outs = parseOutputs L legacy txn n outs"
  by (induction outs arbitrary: n) auto

context construction_codecs begin

lemma parse_of_read:
  assumes "readTransaction S txnHex = Some (Inr (t, txn))"
  shows "ConstructionParse S isSigned txnHex = Some (Inr
    (let signer = plainAccount (Base58CheckEncode (constructionCore S) (PublicKey txn))
     in \<lparr>parsedOperations = parseInputs signer 0 (tmInputAmounts t) @
           parseOutputs (constructionCore S) (tmLegacyUTXOSelection t) txn (length (tmInputAmounts t)) (TxOutputs txn),
         AccountIdentifierSigners = (if isSigned then [signer] else [])\<rparr>))"
  using assms by (simp add: ConstructionParse_def Let_def)

lemma combine_signed:
  assumes "readTransaction S txnHex = Some (Inr (t, txn))" and "list_all ascii (tmInputAmounts t)"
    and "ConstructionCombine S txnHex sigs = Some (Inr result)"
  shows "\<exists>r s bs. readTransaction S result =
    Some (Inr (t\<lparr>tmTransaction := bs\<rparr>, withSignature (Some (ScalarSetBytes S r, ScalarSetBytes S s)) txn)) \<and>
    r = take 32 (hd sigs) \<and> s = drop 32 (take 64 (hd sigs)) \<and> length s = 32"
proof -
  obtain sig where sig: "indexSlice sigs 0 = Some sig" "64 \<le> length sig"
    using assms(1,3)
    by (auto simp: ConstructionCombine_def sliceRange_def bind_eq_Some_conv split: if_splits)
  let ?txn = "withSignature (Some (ScalarSetBytes S (take 32 sig), ScalarSetBytes S (drop 32 (take 64 sig)))) txn"
  obtain bs where bs: "TxnToBytes S ?txn False = Some bs"
    and result: "result = hexEncode (marshalTransaction S (t\<lparr>tmTransaction := bs\<rparr>))"
    using assms(1,3) sig
    by (auto simp: ConstructionCombine_def sliceRange_def andThen_Inr orFail_Inr)
  have "hd sigs = sig" using sig by (cases sigs) (auto simp: indexSlice_def)
  moreover have "length (drop 32 (take 64 sig)) = 32" using sig by simp
  ultimately show ?thesis
    using readTransaction_marshal [of "t\<lparr>tmTransaction := bs\<rparr>" ?txn False] assms(2) bs result
    by (intro exI [of _ "take 32 sig"] exI [of _ "drop 32 (take 64 sig)"] exI [of _ bs]) simp
qed

end


section \<open>Any request\<close>

text \<open>The addresses a request spends from, and what ties an output to its operation.\<close>

definition inputAddresses :: "requestOperation list \<Rightarrow> string set" where
  "inputAddresses ops =
     {a. \<exists>op \<in> set ops. reqType op = InputOpType \<and> map_option Address (reqAccount op) = Some a}"

definition declares :: "requestOperation \<Rightarrow> desoOutput \<Rightarrow> bool" where
  "declares op out \<longleftrightarrow>
     map_option Address (reqAccount op) = Some (outPublicKey out) \<and>
     map_option (\<lambda>a. ParseUint (Value a)) (reqAmount op) = Some (outAmountNanos out, None)"

definition outputsOf :: "requestOperation list \<Rightarrow> requestOperation list" where
  "outputsOf ops = filter (\<lambda>op. reqType op = OutputOpType) ops"

lemma preprocessInput_Inr:
  assumes "preprocessInput S metadata op st = Some (Inr st')"
  shows "\<exists>account legacy. reqAccount op = Some account \<and> useLegacyUtxos metadata = Some legacy \<and>
    inputPubKeysFound st' = goSet (Address account) True (inputPubKeysFound st) \<and>
    foundOutputs st' = foundOutputs st \<and>
    length (foundInputs st') = length (foundInputs st) + (if legacy then 1 else 0)"
proof -
  obtain account where account: "reqAccount op = Some account"
    using assms by (cases "reqAccount op") (auto simp: preprocessInput_def)
  obtain legacy where legacy: "useLegacyUtxos metadata = Some legacy"
    using assms account by (cases "useLegacyUtxos metadata") (auto simp: preprocessInput_def)
  note step = assms [unfolded preprocessInput_def account legacy]
  show ?thesis
  proof (cases legacy)
    case True
    obtain coin where coin: "reqCoinIdentifier op = Some coin"
      using step True by (cases "reqCoinIdentifier op") simp_all
    obtain r where r: "ParseCoinIdentifier (MustDecodeHexBlockHash S) coin = Some r"
      using step True coin by (cases "ParseCoinIdentifier (MustDecodeHexBlockHash S) coin") simp_all
    have "st' = st\<lparr>inputPubKeysFound := goSet (Address account) True (inputPubKeysFound st),
        foundInputs := foundInputs st @ [\<lparr>TxHex = hexEncode (fst (projr r)), inIndex = snd (projr r)\<rparr>]\<rparr>"
      using step True coin r by (cases r) (simp_all add: case_prod_unfold)
    then show ?thesis using account legacy True by auto
  next
    case False
    have "st' = st\<lparr>inputPubKeysFound := goSet (Address account) True (inputPubKeysFound st)\<rparr>"
      using step False by (simp add: Let_def)
    then show ?thesis using account legacy False by auto
  qed
qed

lemma preprocessOutput_Inr:
  assumes "preprocessOutput S op st = Some (Inr st')"
  shows "\<exists>out. declares op out \<and> st' = st\<lparr>foundOutputs := foundOutputs st @ [out]\<rparr>"
proof -
  obtain amount where amount: "reqAmount op = Some amount"
    using assms by (cases "reqAmount op") (auto simp: preprocessOutput_def)
  obtain nanos err where parse: "ParseUint (Value amount) = (nanos, err)" by fastforce
  have err: "err = None" using assms by (cases err) (auto simp: preprocessOutput_def amount parse)
  then obtain account where "reqAccount op = Some account"
    "st' = st\<lparr>foundOutputs := foundOutputs st @ [\<lparr>outPublicKey = Address account, outAmountNanos = nanos\<rparr>]\<rparr>"
    using assms by (cases "reqAccount op") (auto simp: preprocessOutput_def amount parse)
  then show ?thesis
    using amount parse err
    by (intro exI [of _ "\<lparr>outPublicKey = Address account, outAmountNanos = nanos\<rparr>"]) (simp add: declares_def)
qed

lemma preprocessLoop_Inr:
  assumes "preprocessLoop S metadata ops st = Some (Inr st')" and "distinct (map fst (inputPubKeysFound st))"
  shows "distinct (map fst (inputPubKeysFound st')) \<and>
    fst ` set (inputPubKeysFound st') = fst ` set (inputPubKeysFound st) \<union> inputAddresses ops \<and>
    (\<exists>outs. foundOutputs st' = foundOutputs st @ outs \<and> list_all2 declares (outputsOf ops) outs) \<and>
    length (foundInputs st) \<le> length (foundInputs st') \<and>
    (useLegacyUtxos metadata = Some True \<and> inputAddresses ops \<noteq> {} \<longrightarrow>
       length (foundInputs st) < length (foundInputs st'))"
  using assms
proof (induction ops arbitrary: st)
  case Nil
  then show ?case by (simp add: inputAddresses_def outputsOf_def)
next
  case (Cons op ops)
  let ?step = "if reqType op = InputOpType then preprocessInput S metadata op st
               else if reqType op = OutputOpType then preprocessOutput S op st else Some (Inr st)"
  obtain st1 where step: "?step = Some (Inr st1)" and rest: "preprocessLoop S metadata ops st1 = Some (Inr st')"
    using Cons.prems(1) by (auto simp: andThen_Inr)
  note IH = Cons.IH [OF rest]
  show ?case
  proof (cases "reqType op = InputOpType")
    case True
    then obtain account legacy where account: "reqAccount op = Some account"
      and st1: "inputPubKeysFound st1 = goSet (Address account) True (inputPubKeysFound st)"
        "foundOutputs st1 = foundOutputs st" "useLegacyUtxos metadata = Some legacy"
        "length (foundInputs st1) = length (foundInputs st) + (if legacy then 1 else 0)"
      using step preprocessInput_Inr [of S metadata op st st1] by fastforce
    have "inputAddresses (op # ops) = insert (Address account) (inputAddresses ops)"
      using True account by (auto simp: inputAddresses_def)
    moreover have "outputsOf (op # ops) = outputsOf ops" using True by (simp add: outputsOf_def)
    moreover have "distinct (map fst (inputPubKeysFound st1))"
      using Cons.prems(2) st1(1) by (simp add: distinct_goSet)
    moreover have "fst ` set (inputPubKeysFound st1) = insert (Address account) (fst ` set (inputPubKeysFound st))"
      using st1(1) by (simp add: dom_update)
    ultimately show ?thesis using IH st1 by auto
  next
    case notIn: False
    then have addresses: "inputAddresses (op # ops) = inputAddresses ops" by (auto simp: inputAddresses_def)
    show ?thesis
    proof (cases "reqType op = OutputOpType")
      case True
      then obtain out where "declares op out" "st1 = st\<lparr>foundOutputs := foundOutputs st @ [out]\<rparr>"
        using step notIn preprocessOutput_Inr [of S op st st1] by auto
      then show ?thesis using IH Cons.prems(2) addresses True by (auto simp: outputsOf_def)
    next
      case False
      then have "st1 = st" using step notIn by simp
      then show ?thesis using IH Cons.prems(2) addresses False by (auto simp: outputsOf_def)
    qed
  qed
qed

lemma ConstructionPreprocess_Inr:
  assumes "ConstructionPreprocess S metadata ops = Some (Inr m)"
  shows "\<exists>opts. MarshalOptions S opts = Some m \<and> inputAddresses ops = {optFromPublicKey opts} \<and>
    list_all2 declares (outputsOf ops) (optDeSoOutputs opts) \<and> \<not> optLegacyUTXOSelection opts \<and>
    (useLegacyUtxos metadata = Some True \<longrightarrow> optDeSoInputs opts \<noteq> []) \<and>
    [optNoncePartialID opts, optNonceExpirationBlockHeight opts, optNonceExpirationBlockHeightOffset opts,
       optFeeRateNanosPerKB opts, optTxnFeeNanos opts] = map (attributeValue metadata) attributeKeys"
proof -
  have attr: "attribute S metadata key = Some (Inr v) \<Longrightarrow> v = attributeValue metadata key" for key v
    by (auto simp: attribute_def attributeValue_def split: sum.splits)
  let ?st = "\<lparr>inputPubKeysFound = [], foundInputs = [], foundOutputs = []\<rparr>"
  obtain st where loop: "preprocessLoop S metadata ops ?st = Some (Inr st)"
    and one: "length (inputPubKeysFound st) = 1"
    and marshal: "MarshalOptions S
      \<lparr>optFromPublicKey = fst (hd (inputPubKeysFound st)), optDeSoOutputs = foundOutputs st,
       optLegacyUTXOSelection = False, optDeSoInputs = foundInputs st,
       optNoncePartialID = attributeValue metadata ''nonce_partial_id'',
       optNonceExpirationBlockHeight = attributeValue metadata ''nonce_expiration_block_height'',
       optNonceExpirationBlockHeightOffset = attributeValue metadata ''nonce_expiration_block_height_offset'',
       optFeeRateNanosPerKB = attributeValue metadata ''fee_rate_nanos_per_kb'',
       optTxnFeeNanos = attributeValue metadata ''txn_fee_nanos''\<rparr> = Some m" (is "MarshalOptions S ?opts = _")
    using assms by (auto simp: ConstructionPreprocess_def andThen_Inr orFail_Inr dest!: attr split: if_splits)
  obtain kv where kv: "inputPubKeysFound st = [kv]" using one by (auto simp: length_Suc_conv)
  show ?thesis
    using preprocessLoop_Inr [OF loop] marshal kv
    by (intro exI [of _ ?opts]) (auto simp: attributeKeys_def)
qed

lemma constructTransaction_ignores_inputs:
  assumes "\<not> optLegacyUTXOSelection opts"
  shows "constructTransaction S mem params (opts\<lparr>optDeSoInputs := inputs\<rparr>) = constructTransaction S mem params opts"
proof -
  have "applyNonce (opts\<lparr>optDeSoInputs := inputs\<rparr>) = applyNonce opts"
    "applyFee (opts\<lparr>optDeSoInputs := inputs\<rparr>) = applyFee opts"
    by (intro ext, simp add: applyNonce_def applyFee_def Let_def split: option.split)+
  then show ?thesis using assms by (simp add: constructTransaction_def sampleTransaction_def)
qed


end
