(* ===== verification/ConstructionRef.thy ===== *)
theory ConstructionRef
  imports ConstructionFlow
begin

text \<open>
  A reference service for the construction endpoints, on which their laws are shown to hold
  together: JSON objects, a self-delimiting serialisation of basic transfers, and a node in the
  balance model. Then the properties of the endpoints.
\<close>

section \<open>A self-delimiting serialisation\<close>

fun putBytes :: "bytes \<Rightarrow> bytes" where
  "putBytes [] = [0]"
| "putBytes (b # bs) = 1 # b # putBytes bs"

fun getBytes :: "bytes \<Rightarrow> (bytes \<times> bytes) option" where
  "getBytes [] = None"
| "getBytes [t] = (if t = 0 then Some ([], []) else None)"
| "getBytes (t # b # rest) =
     (if t = 0 then Some ([], b # rest) else map_option (\<lambda>(xs, r). (b # xs, r)) (getBytes rest))"

lemma getBytes_putBytes [simp]: "getBytes (putBytes xs @ rest) = Some (xs, rest)"
  by (induction xs) (cases rest, auto)

definition getUint64 :: "bytes \<Rightarrow> (u64 \<times> bytes) option" where
  "getUint64 bs = (if length bs < 8 then None else Some (BigEndianUint64 (take 8 bs), drop 8 bs))"

lemma getUint64_PutUint64 [simp]: "getUint64 (PutUint64 x @ rest) = Some (x, rest)"
  by (simp add: getUint64_def)

fun putList :: "('a \<Rightarrow> bytes) \<Rightarrow> 'a list \<Rightarrow> bytes" where
  "putList put [] = [0]"
| "putList put (x # xs) = 1 # put x @ putList put xs"

text \<open>The fuel is one more than the number of bytes, each element taking at least one.\<close>

fun getListN :: "nat \<Rightarrow> (bytes \<Rightarrow> ('a \<times> bytes) option) \<Rightarrow> bytes \<Rightarrow> ('a list \<times> bytes) option" where
  "getListN (Suc n) get (t # bs) =
     (if t = 0 then Some ([], bs)
      else do { (x, r) \<leftarrow> get bs; (xs, r) \<leftarrow> getListN n get r; Some (x # xs, r) })"
| "getListN _ get _ = None"

definition getList :: "(bytes \<Rightarrow> ('a \<times> bytes) option) \<Rightarrow> bytes \<Rightarrow> ('a list \<times> bytes) option" where
  "getList get bs = getListN (Suc (length bs)) get bs"

lemma getListN_putList:
  "(\<And>x r. get (put x @ r) = Some (x, r)) \<Longrightarrow> length xs < n \<Longrightarrow>
     getListN n get (putList put xs @ rest) = Some (xs, rest)"
proof (induction xs arbitrary: n)
  case Nil
  then show ?case by (cases n) auto
next
  case (Cons x xs)
  then show ?case by (cases n) auto
qed

lemma length_putList: "length xs < length (putList put xs)"
  by (induction xs) auto

lemma getList_putList:
  assumes "\<And>x r. get (put x @ r) = Some (x, r)"
  shows "getList get (putList put xs @ rest) = Some (xs, rest)"
  unfolding getList_def
  by (rule getListN_putList) (use assms length_putList [of xs put] in auto)

definition putString :: "string \<Rightarrow> bytes" where
  "putString s = putBytes (map (\<lambda>c. of_nat (of_char c)) s)"

definition getString :: "bytes \<Rightarrow> (string \<times> bytes) option" where
  "getString bs = map_option (\<lambda>(xs, r). (map (\<lambda>b. char_of (unat b)) xs, r)) (getBytes bs)"

lemma getString_putString [simp]: "getString (putString s @ rest) = Some (s, rest)"
proof -
  have "char_of (unat (of_nat (of_char c) :: u8)) = c" for c :: char
  proof -
    have "(of_char c :: nat) < 256" by simp
    then show ?thesis by (simp add: unat_of_nat)
  qed
  then show ?thesis by (simp add: getString_def putString_def comp_def)
qed

section \<open>Transactions\<close>

text \<open>The reference node serialises basic transfers without inputs; other transactions are errors.\<close>

definition putOption :: "('a \<Rightarrow> bytes) \<Rightarrow> 'a option \<Rightarrow> bytes" where
  "putOption put x = (case x of None \<Rightarrow> [0] | Some y \<Rightarrow> 1 # put y)"

fun getOption :: "(bytes \<Rightarrow> ('a \<times> bytes) option) \<Rightarrow> bytes \<Rightarrow> ('a option \<times> bytes) option" where
  "getOption get [] = None"
| "getOption get (t # bs) =
     (if t = 0 then Some (None, bs) else map_option (\<lambda>(y, r). (Some y, r)) (get bs))"

lemma getOption_putOption:
  "(\<And>y r. get (put y @ r) = Some (y, r)) \<Longrightarrow> getOption get (putOption put x @ rest) = Some (x, rest)"
  by (cases x) (auto simp: putOption_def)

definition putOutput :: "DeSoOutput \<Rightarrow> bytes" where
  "putOutput out = putBytes (outputPublicKey out) @ PutUint64 (outputAmountNanos out)"

definition getOutput :: "bytes \<Rightarrow> (DeSoOutput \<times> bytes) option" where
  "getOutput bs =
     do { (pk, r) \<leftarrow> getBytes bs; (amount, r) \<leftarrow> getUint64 r;
          Some (\<lparr>outputPublicKey = pk, outputAmountNanos = amount\<rparr>, r) }"

definition putNonce :: "DeSoNonce \<Rightarrow> bytes" where
  "putNonce n = PutUint64 (ExpirationBlockHeight n) @ PutUint64 (PartialID n)"

definition getNonce :: "bytes \<Rightarrow> (DeSoNonce \<times> bytes) option" where
  "getNonce bs =
     do { (e, r) \<leftarrow> getUint64 bs; (p, r) \<leftarrow> getUint64 r;
          Some (\<lparr>ExpirationBlockHeight = e, PartialID = p\<rparr>, r) }"

definition putSignature :: "bytes \<times> bytes \<Rightarrow> bytes" where
  "putSignature sig = putBytes (fst sig) @ putBytes (snd sig)"

definition getSignature :: "bytes \<Rightarrow> ((bytes \<times> bytes) \<times> bytes) option" where
  "getSignature bs = do { (r, rest) \<leftarrow> getBytes bs; (s, rest) \<leftarrow> getBytes rest; Some ((r, s), rest) }"

lemma put_get_parts [simp]:
  "getOutput (putOutput out @ rest) = Some (out, rest)"
  "getNonce (putNonce n @ rest) = Some (n, rest)"
  "getSignature (putSignature sig @ rest) = Some (sig, rest)"
  by (simp_all add: getOutput_def putOutput_def getNonce_def putNonce_def getSignature_def putSignature_def)

definition putTxn :: "MsgDeSoTxn \<Rightarrow> bytes" where
  "putTxn txn =
     putBytes (PublicKey txn) @ putList putOutput (TxOutputs txn) @ PutUint64 (TxnFeeNanos txn)
       @ putOption putNonce (TxnNonce txn) @ putOption putSignature (Signature txn)"

definition getTxn :: "bytes \<Rightarrow> MsgDeSoTxn option" where
  "getTxn bs =
     do { (pk, r) \<leftarrow> getBytes bs; (outs, r) \<leftarrow> getList getOutput r; (fee, r) \<leftarrow> getUint64 r;
          (nonce, r) \<leftarrow> getOption getNonce r; (sig, r) \<leftarrow> getOption getSignature r;
          Some (MsgDeSoTxn [] outs pk BasicTransferMetadata 0 fee nonce sig) }"

definition refTxnToBytes :: "MsgDeSoTxn \<Rightarrow> bool \<Rightarrow> bytes option" where
  "refTxnToBytes txn preSignature =
     (if TxInputs txn = [] \<and> TxnMeta txn = BasicTransferMetadata \<and> TxnVersion txn = 0
      then Some (putTxn (if preSignature then withSignature None txn else txn)) else None)"

lemma getTxn_putTxn:
  assumes "TxInputs txn = []" and "TxnMeta txn = BasicTransferMetadata" and "TxnVersion txn = 0"
  shows "getTxn (putTxn txn) = Some txn"
  using assms getOption_putOption [of getSignature putSignature "Signature txn" "[]"]
  by (cases txn) (simp add: getTxn_def putTxn_def getList_putList getOption_putOption)

lemma refTxn_codec:
  assumes "refTxnToBytes txn pre = Some bs"
  shows "getTxn bs = Some (if pre then withSignature None txn else txn)"
proof -
  have plain: "TxInputs txn = []" "TxnMeta txn = BasicTransferMetadata" "TxnVersion txn = 0"
    and bs: "bs = putTxn (if pre then withSignature None txn else txn)"
    using assms by (auto simp: refTxnToBytes_def split: if_splits)
  then show ?thesis
    by (auto intro!: getTxn_putTxn) (simp_all add: withSignature_def)
qed

section \<open>The metadata inside a transaction\<close>

definition putMetadata :: "transactionMetadata \<Rightarrow> bytes" where
  "putMetadata t =
     putBytes (tmTransaction t) @ putList putString (tmInputAmounts t)
       @ (if tmLegacyUTXOSelection t then 1 else 0) # PutUint64 (tmNoncePartialID t)
       @ PutUint64 (tmNonceExpirationBlockHeight t) @ PutUint64 (tmNonceExpirationBlockHeightOffset t)
       @ PutUint64 (tmFeeRateNanosPerKB t) @ PutUint64 (tmTxnFeeNanos t)"

definition getMetadata :: "bytes \<Rightarrow> transactionMetadata option" where
  "getMetadata bs =
     do { (txn, r) \<leftarrow> getBytes bs; (amounts, r) \<leftarrow> getList getString r;
          (if r = [] then None
           else
             do { (p, r') \<leftarrow> getUint64 (tl r); (e, r') \<leftarrow> getUint64 r'; (off, r') \<leftarrow> getUint64 r';
                  (rate, r') \<leftarrow> getUint64 r'; (fee, r') \<leftarrow> getUint64 r';
                  Some \<lparr>tmTransaction = txn, tmInputAmounts = amounts, tmLegacyUTXOSelection = (hd r = 1),
                        tmNoncePartialID = p, tmNonceExpirationBlockHeight = e,
                        tmNonceExpirationBlockHeightOffset = off, tmFeeRateNanosPerKB = rate,
                        tmTxnFeeNanos = fee\<rparr> }) }"

lemma getMetadata_putMetadata: "getMetadata (putMetadata t) = Some t"
  using getUint64_PutUint64 [of "tmTxnFeeNanos t" "[]"]
  by (cases t) (simp add: getMetadata_def putMetadata_def getList_putList)


section \<open>JSON objects\<close>

fun asString :: "any \<Rightarrow> string option" where
  "asString (AnyString s) = Some s" | "asString _ = None"

fun asNumber :: "any \<Rightarrow> u64 option" where
  "asNumber (AnyNumber n) = Some n" | "asNumber _ = None"

fun asBool :: "any \<Rightarrow> bool option" where
  "asBool (AnyBool b) = Some b" | "asBool _ = None"

fun asArray :: "(any \<Rightarrow> 'a option) \<Rightarrow> any \<Rightarrow> 'a list option" where
  "asArray f (AnyArray xs) = those (map f xs)" | "asArray f _ = None"

fun asObject :: "any \<Rightarrow> object option" where
  "asObject (AnyObject kvs) = Some (map_of kvs)" | "asObject _ = None"

definition field :: "(any \<Rightarrow> 'a option) \<Rightarrow> object \<Rightarrow> string \<Rightarrow> 'a option" where
  "field f m key = Option.bind (m key) f"

lemma those_map: "(\<And>x. f (g x) = Some x) \<Longrightarrow> those (map f (map g xs)) = Some xs"
  by (induction xs) auto

definition outputObject :: "desoOutput \<Rightarrow> any" where
  "outputObject out =
     AnyObject [(''PublicKey'', AnyString (outPublicKey out)), (''AmountNanos'', AnyNumber (outAmountNanos out))]"

definition asOutput :: "any \<Rightarrow> desoOutput option" where
  "asOutput v =
     do { m \<leftarrow> asObject v; pk \<leftarrow> field asString m ''PublicKey''; a \<leftarrow> field asNumber m ''AmountNanos'';
          Some \<lparr>outPublicKey = pk, outAmountNanos = a\<rparr> }"

definition inputObject :: "desoInput \<Rightarrow> any" where
  "inputObject inp =
     AnyObject [(''TxHex'', AnyString (TxHex inp)), (''Index'', AnyNumber (ucast (inIndex inp)))]"

definition asInput :: "any \<Rightarrow> desoInput option" where
  "asInput v =
     do { m \<leftarrow> asObject v; h \<leftarrow> field asString m ''TxHex''; i \<leftarrow> field asNumber m ''Index'';
          Some \<lparr>TxHex = h, inIndex = ucast i\<rparr> }"

lemma asOutput_outputObject [simp]: "asOutput (outputObject out) = Some out"
  by (simp add: asOutput_def outputObject_def field_def)

lemma widened_index: "(ucast (ucast (i :: u32) :: u64) :: u32) = i"
  by (rule bit_word_eqI) (simp add: bit_simps)

lemma asInput_inputObject [simp]: "asInput (inputObject inp) = Some inp"
  by (simp add: asInput_def inputObject_def field_def widened_index)

definition refMarshalOptions :: "preprocessOptions \<Rightarrow> object option" where
  "refMarshalOptions opts = Some (map_of
     [(''from_public_key'', AnyString (optFromPublicKey opts)),
      (''deso_outputs'', AnyArray (map outputObject (optDeSoOutputs opts))),
      (''legacy_utxo_selection'', AnyBool (optLegacyUTXOSelection opts)),
      (''deso_inputs'', AnyArray (map inputObject (optDeSoInputs opts))),
      (''nonce_partial_id'', AnyNumber (optNoncePartialID opts)),
      (''nonce_expiration_block_height'', AnyNumber (optNonceExpirationBlockHeight opts)),
      (''nonce_expiration_block_height_offset'', AnyNumber (optNonceExpirationBlockHeightOffset opts)),
      (''fee_rate_nanos_per_kb'', AnyNumber (optFeeRateNanosPerKB opts)),
      (''txn_fee_nanos'', AnyNumber (optTxnFeeNanos opts))])"

definition refUnmarshalOptions :: "object \<Rightarrow> preprocessOptions option" where
  "refUnmarshalOptions m =
     do { from \<leftarrow> field asString m ''from_public_key''; outs \<leftarrow> field (asArray asOutput) m ''deso_outputs'';
          legacy \<leftarrow> field asBool m ''legacy_utxo_selection''; ins \<leftarrow> field (asArray asInput) m ''deso_inputs'';
          p \<leftarrow> field asNumber m ''nonce_partial_id''; e \<leftarrow> field asNumber m ''nonce_expiration_block_height'';
          off \<leftarrow> field asNumber m ''nonce_expiration_block_height_offset'';
          rate \<leftarrow> field asNumber m ''fee_rate_nanos_per_kb''; fee \<leftarrow> field asNumber m ''txn_fee_nanos'';
          Some \<lparr>optFromPublicKey = from, optDeSoOutputs = outs, optLegacyUTXOSelection = legacy,
                optDeSoInputs = ins, optNoncePartialID = p, optNonceExpirationBlockHeight = e,
                optNonceExpirationBlockHeightOffset = off, optFeeRateNanosPerKB = rate, optTxnFeeNanos = fee\<rparr> }"

lemma refOptions_codec: "\<exists>m. refMarshalOptions opts = Some m \<and> refUnmarshalOptions m = Some opts"
  using those_map [of asOutput outputObject] those_map [of asInput inputObject]
  by (cases opts) (simp add: refMarshalOptions_def refUnmarshalOptions_def field_def del: map_map)

definition refMarshalMetadata :: "constructionMetadata \<Rightarrow> object option" where
  "refMarshalMetadata meta = Some (map_of
     [(''fee_per_kb'', AnyNumber (metaFeePerKB meta)),
      (''deso_sample_txn_hex'', AnyString (metaDeSoSampleTxnHex meta)),
      (''legacy_utxo_selection'', AnyBool (metaLegacyUTXOSelection meta)),
      (''nonce_partial_id'', AnyNumber (metaNoncePartialID meta)),
      (''nonce_expiration_block_height'', AnyNumber (metaNonceExpirationBlockHeight meta)),
      (''nonce_expiration_block_height_offset'', AnyNumber (metaNonceExpirationBlockHeightOffset meta)),
      (''fee_rate_nanos_per_kb'', AnyNumber (metaFeeRateNanosPerKB meta)),
      (''txn_fee_nanos'', AnyNumber (metaTxnFeeNanos meta))])"

definition refUnmarshalMetadata :: "object \<Rightarrow> constructionMetadata option" where
  "refUnmarshalMetadata m =
     do { perKB \<leftarrow> field asNumber m ''fee_per_kb''; sample \<leftarrow> field asString m ''deso_sample_txn_hex'';
          legacy \<leftarrow> field asBool m ''legacy_utxo_selection'';
          p \<leftarrow> field asNumber m ''nonce_partial_id''; e \<leftarrow> field asNumber m ''nonce_expiration_block_height'';
          off \<leftarrow> field asNumber m ''nonce_expiration_block_height_offset'';
          rate \<leftarrow> field asNumber m ''fee_rate_nanos_per_kb''; fee \<leftarrow> field asNumber m ''txn_fee_nanos'';
          Some \<lparr>metaFeePerKB = perKB, metaDeSoSampleTxnHex = sample, metaLegacyUTXOSelection = legacy,
                metaNoncePartialID = p, metaNonceExpirationBlockHeight = e,
                metaNonceExpirationBlockHeightOffset = off, metaFeeRateNanosPerKB = rate, metaTxnFeeNanos = fee\<rparr> }"

lemma refMetadata_codec: "\<exists>m. refMarshalMetadata meta = Some m \<and> refUnmarshalMetadata m = Some meta"
  by (cases meta) (simp add: refMarshalMetadata_def refUnmarshalMetadata_def field_def)

section \<open>The reference service\<close>

text \<open>
  A node at height 100 with an empty mempool, a list of what was broadcast. It adds no inputs, a
  nonce that expires 50 blocks later, and a fee of one tenth of the rate.
\<close>

definition refService :: "MsgDeSoTxn list constructionService" where
  "refService =
     \<lparr>constructionMode = Online, constructionCore = refLib, constructionParams = exampleParams,
      MarshalOptions = refMarshalOptions, UnmarshalOptions = refUnmarshalOptions,
      MarshalMetadata = refMarshalMetadata, UnmarshalMetadata = refUnmarshalMetadata,
      MarshalTransaction = (\<lambda>t. Some (putMetadata t)), UnmarshalTransaction = getMetadata,
      TxnToBytes = refTxnToBytes, TxnFromBytes = getTxn,
      MustDecodeHexBlockHash = hexDecode, BlockHashOfBytes = copyArray 32,
      merkleSha256DoubleHash = copyArray 32, ScalarSetBytes = (\<lambda>b. b),
      DefaultMaxNonceExpirationBlockHeightOffset = 288,
      GetAugmentedUniversalView = (\<lambda>_. Some \<lparr>MinimumNetworkFeeNanosPerKB = 0,
        MaxNonceExpirationBlockHeightOffset = 0\<rparr>),
      BlockTipHeight = (\<lambda>_. 100),
      AddInputsAndChangeToTransaction = (\<lambda>_ txn rate. Some
        (withFee (rate div 10) (withNonce (Some \<lparr>ExpirationBlockHeight = 150, PartialID = 1\<rparr>) txn),
         rate div 10)),
      VerifyAndBroadcastTransaction = (\<lambda>mem txn. (txn # mem, True)),
      causeText = (\<lambda>_. [])\<rparr>"

lemma refService_sel [simp]:
  "constructionMode refService = Online" "constructionCore refService = refLib"
  "MarshalOptions refService = refMarshalOptions" "UnmarshalOptions refService = refUnmarshalOptions"
  "MarshalMetadata refService = refMarshalMetadata" "UnmarshalMetadata refService = refUnmarshalMetadata"
  "MarshalTransaction refService t = Some (putMetadata t)" "UnmarshalTransaction refService = getMetadata"
  "TxnToBytes refService = refTxnToBytes" "TxnFromBytes refService = getTxn"
  "MustDecodeHexBlockHash refService = hexDecode"
  "GetAugmentedUniversalView refService mem =
     Some \<lparr>MinimumNetworkFeeNanosPerKB = 0, MaxNonceExpirationBlockHeightOffset = 0\<rparr>"
  "BlockTipHeight refService mem = 100" "ScalarSetBytes refService b = b"
  "DefaultMaxNonceExpirationBlockHeightOffset refService = 288"
  "AddInputsAndChangeToTransaction refService mem txn rate = Some
     (withFee (rate div 10) (withNonce (Some \<lparr>ExpirationBlockHeight = 150, PartialID = 1\<rparr>) txn), rate div 10)"
  by (simp_all add: refService_def)

interpretation ref_service: balance_model_node refService
proof -
  have "construction_codecs refService"
    by (intro construction_codecs.intro construction_codecs_axioms.intro)
      (use reference.core_library_axioms refOptions_codec refMetadata_codec in
        \<open>auto simp: getMetadata_putMetadata refTxn_codec\<close>)
  then show "balance_model_node refService"
    by (intro balance_model_node.intro balance_model_node_axioms.intro) auto
qed


section \<open>Properties\<close>

text \<open>C5: A transfer comes back from \<open>ConstructionParse\<close> as it was written: whenever the metadata
  endpoint accepts the options of the preprocess endpoint, the payloads endpoint asks the sender for
  one signature and the unsigned transaction parses to exactly the operations of the request, indices,
  accounts and amounts included. Stated for a node in the balance model, canonical addresses, and
  numbers that survive JSON (up to \<open>2 ^ 53\<close>).\<close>

theorem transfer_intent_round_trip:
  assumes "balance_model_node S" and "plainRequest metadata"
    and "amounts \<noteq> []" and "list_all ascii amounts" and "isAddress (constructionCore S) from"
    and "list_all (\<lambda>out. isAddress (constructionCore S) (outPublicKey out) \<and> exactNumber (outAmountNanos out)) outs"
    and "GetAugmentedUniversalView S mem = Some params" and "exactNumber (MinimumNetworkFeeNanosPerKB params)"
  shows "\<exists>options. ConstructionPreprocess S metadata (transferOps from amounts outs) = Some (Inr options) \<and>
    (\<forall>resp. ConstructionMetadata S mem options = Some (Inr resp) \<longrightarrow>
       (\<exists>p. ConstructionPayloads S (responseMetadata resp) (transferOps from amounts outs) = Some (Inr p) \<and>
            map payloadAccount (Payloads p) = [Some (plainAccount from)] \<and>
            ConstructionParse S False (UnsignedTransaction p) =
              Some (Inr \<lparr>parsedOperations = transferOps from amounts outs, AccountIdentifierSigners = []\<rparr>)))"
  by (rule balance_model_node.transfer_round_trip [OF assms])

definition exampleTransfer :: "requestOperation list" where
  "exampleTransfer = transferOps (hexEncode examplePk) [''-70'', ''-30'']
     [\<lparr>outPublicKey = hexEncode [1, 2], outAmountNanos = 90\<rparr>]"

lemma isAddress_hexEncode: "isAddress refLib (hexEncode bs)"
  by (simp add: isAddress_def)

theorem transfer_intent_round_trip_witness:
  "\<exists>options resp p. ConstructionPreprocess refService None exampleTransfer = Some (Inr options) \<and>
     ConstructionMetadata refService [] options = Some (Inr resp) \<and>
     ConstructionPayloads refService (responseMetadata resp) exampleTransfer = Some (Inr p) \<and>
     ConstructionParse refService False (UnsignedTransaction p) =
       Some (Inr \<lparr>parsedOperations = exampleTransfer, AccountIdentifierSigners = []\<rparr>)"
proof -
  have plain: "plainRequest None"
    by (simp add: plainRequest_def useLegacyUtxos_def attributeKeys_def exactNumber_def
        CheckMetadataForAttributeAndParseUint64_def)
  have round: "\<exists>options. ConstructionPreprocess refService None exampleTransfer = Some (Inr options) \<and>
    (\<forall>resp. ConstructionMetadata refService [] options = Some (Inr resp) \<longrightarrow>
       (\<exists>p. ConstructionPayloads refService (responseMetadata resp) exampleTransfer = Some (Inr p) \<and>
            map payloadAccount (Payloads p) = [Some (plainAccount (hexEncode examplePk))] \<and>
            ConstructionParse refService False (UnsignedTransaction p) =
              Some (Inr \<lparr>parsedOperations = exampleTransfer, AccountIdentifierSigners = []\<rparr>)))"
    unfolding exampleTransfer_def
    by (rule transfer_intent_round_trip [OF ref_service.balance_model_node_axioms plain,
          of _ _ _ _ "\<lparr>MinimumNetworkFeeNanosPerKB = 0, MaxNonceExpirationBlockHeightOffset = 0\<rparr>"])
      (simp_all add: ascii_def isAddress_hexEncode exactNumber_def word_le_nat_alt)
  then obtain options where options: "ConstructionPreprocess refService None exampleTransfer = Some (Inr options)"
    by blast
  let ?o = "transferOptions None (hexEncode examplePk) [\<lparr>outPublicKey = hexEncode [1, 2], outAmountNanos = 90\<rparr>]"
  have "UnmarshalOptions refService options = Some ?o"
    using options refOptions_codec [of ?o]
    by (auto simp: exampleTransfer_def preprocess_transfer [OF plain])
  then obtain resp where "ConstructionMetadata refService [] options = Some (Inr resp)"
    using refMetadata_codec
    by (simp add: ConstructionMetadata_def constructTransaction_def transferOptions_def attributeValue_def
        CheckMetadataForAttributeAndParseUint64_def feeRate_def Let_def sampleTransaction_def applyNonce_def
        applyFee_def refTxnToBytes_def basicTransfer_def withNonce_def withFee_def refMarshalMetadata_def)
  moreover have "\<exists>p. ConstructionPayloads refService (responseMetadata resp) exampleTransfer = Some (Inr p) \<and>
      ConstructionParse refService False (UnsignedTransaction p) =
        Some (Inr \<lparr>parsedOperations = exampleTransfer, AccountIdentifierSigners = []\<rparr>)"
    using round options \<open>ConstructionMetadata refService [] options = Some (Inr resp)\<close> by auto
  ultimately show ?thesis using options by blast
qed


text \<open>C10: A successful answer of the metadata endpoint respects the limits of the network. The fee rate
  is at least that of the network (1000 nanos per KB where it sets none), and the caller's where it
  names one; a fee the caller names is the fee of the transaction and the fee suggested; and a nonce
  the caller sets expires between the current height and the largest offset above it, at the height
  asked for, an offset taking precedence over a height. Holds where height plus offset does not wrap.\<close>

theorem metadata_within_network_limits:
  assumes "ConstructionMetadata S mem m = Some (Inr resp)" and "UnmarshalOptions S m = Some opts"
    and "GetAugmentedUniversalView S mem = Some params"
    and "unat (BlockTipHeight S mem) + unat (maxNonceOffset S params) < 2 ^ 64"
  shows "\<exists>txn rate fee bs. TxnToBytes S txn True = Some bs \<and>
    MarshalMetadata S (metadataOf opts rate bs) = Some (responseMetadata resp) \<and>
    SuggestedFee resp = [amountOf (FormatUint fee)] \<and>
    (if MinimumNetworkFeeNanosPerKB params = 0 then MinFeeRateNanosPerKB
     else MinimumNetworkFeeNanosPerKB params) \<le> rate \<and>
    (0 < optFeeRateNanosPerKB opts \<longrightarrow> rate = optFeeRateNanosPerKB opts) \<and>
    (0 < optTxnFeeNanos opts \<longrightarrow> fee = optTxnFeeNanos opts \<and> TxnFeeNanos txn = fee) \<and>
    (\<forall>n. TxnNonce txn = Some n \<longrightarrow>
       (0 < optNonceExpirationBlockHeightOffset opts \<longrightarrow> ExpirationBlockHeight n =
          ucast (BlockTipHeight S mem) + optNonceExpirationBlockHeightOffset opts) \<and>
       (optNonceExpirationBlockHeightOffset opts = 0 \<and> 0 < optNonceExpirationBlockHeight opts \<longrightarrow>
          ExpirationBlockHeight n = optNonceExpirationBlockHeight opts) \<and>
       (0 < optNonceExpirationBlockHeightOffset opts \<or> 0 < optNonceExpirationBlockHeight opts \<longrightarrow>
          unat (BlockTipHeight S mem) \<le> unat (ExpirationBlockHeight n) \<and>
          unat (ExpirationBlockHeight n) \<le> unat (BlockTipHeight S mem) + unat (maxNonceOffset S params)))"
proof -
  let ?h = "ucast (BlockTipHeight S mem) :: u64"
  have h: "unat ?h = unat (BlockTipHeight S mem)" by (rule unat_widened_u32)
  obtain txn rate fee bs where txn: "constructTransaction S mem params opts = Some (Inr (txn, rate, fee))"
    and bs: "TxnToBytes S txn True = Some bs"
      "MarshalMetadata S (metadataOf opts rate bs) = Some (responseMetadata resp)"
      "SuggestedFee resp = [amountOf (FormatUint fee)]"
    using ConstructionMetadata_Inr [OF assms(1-3)] by blast
  obtain txn1 fee1 txn2 where
    rate: "feeRate (MinimumNetworkFeeNanosPerKB params) (optFeeRateNanosPerKB opts) = Inr rate"
    and nonce: "applyNonce opts (maxNonceOffset S params) ?h txn1 = Inr txn2"
    and fee: "applyFee opts fee1 txn2 = Inr (txn, fee)"
    using constructTransaction_Inr [OF txn] by blast
  have window: "unat ?h \<le> unat (ExpirationBlockHeight n) \<and>
      unat (ExpirationBlockHeight n) \<le> unat ?h + unat (maxNonceOffset S params)"
    if "TxnNonce txn = Some n" "0 < optNonceExpirationBlockHeightOffset opts \<or> 0 < optNonceExpirationBlockHeight opts" for n
  proof (rule expiration_window)
    show "unat ?h + unat (maxNonceOffset S params) < 2 ^ 64" using assms(4) h by simp
    show "0 < optNonceExpirationBlockHeightOffset opts \<and>
        optNonceExpirationBlockHeightOffset opts \<le> maxNonceOffset S params \<and>
        ExpirationBlockHeight n = ?h + optNonceExpirationBlockHeightOffset opts \<or>
        ?h \<le> ExpirationBlockHeight n \<and> ExpirationBlockHeight n \<le> ?h + maxNonceOffset S params"
      using applyNonce_Inr [OF nonce, of n] applyFee_keeps [OF fee] that by (auto simp: word_neq_0_conv)
  qed
  show ?thesis
    using bs feeRate_Inr [OF rate] applyFee_Inr [OF fee] applyNonce_Inr [OF nonce] applyFee_keeps [OF fee]
      window [unfolded h]
    by (intro exI [of _ txn] exI [of _ rate] exI [of _ fee] exI [of _ bs]) auto
qed

definition exampleOptions :: preprocessOptions where
  "exampleOptions =
     \<lparr>optFromPublicKey = hexEncode examplePk, optDeSoOutputs = [\<lparr>outPublicKey = hexEncode [1, 2], outAmountNanos = 90\<rparr>],
      optLegacyUTXOSelection = False, optDeSoInputs = [], optNoncePartialID = 7,
      optNonceExpirationBlockHeight = 0, optNonceExpirationBlockHeightOffset = 10,
      optFeeRateNanosPerKB = 2000, optTxnFeeNanos = 500\<rparr>"

lemma exampleOptions_accepted:
  "\<exists>m resp. UnmarshalOptions refService m = Some exampleOptions \<and>
     ConstructionMetadata refService [] m = Some (Inr resp)"
proof -
  obtain m where m: "refUnmarshalOptions m = Some exampleOptions"
    using refOptions_codec [of exampleOptions] by blast
  have "\<exists>resp. ConstructionMetadata refService [] m = Some (Inr resp)"
    by (simp add: m ConstructionMetadata_def constructTransaction_def exampleOptions_def
        feeRate_def MinFeeRateNanosPerKB_def maxNonceOffset_def Let_def sampleTransaction_def applyNonce_def
        applyFee_def refTxnToBytes_def basicTransfer_def withNonce_def withFee_def refMarshalMetadata_def)
  then show ?thesis using m by auto
qed

theorem metadata_within_network_limits_witness:
  "\<exists>m resp. ConstructionMetadata refService [] m = Some (Inr resp) \<and>
     SuggestedFee resp = [amountOf (FormatUint 500)]"
proof -
  obtain m resp where m: "UnmarshalOptions refService m = Some exampleOptions"
    and resp: "ConstructionMetadata refService [] m = Some (Inr resp)"
    using exampleOptions_accepted by blast
  let ?params = "\<lparr>MinimumNetworkFeeNanosPerKB = 0, MaxNonceExpirationBlockHeightOffset = 0\<rparr>"
  have "unat (BlockTipHeight refService []) + unat (maxNonceOffset refService ?params) < 2 ^ 64"
    by (simp add: maxNonceOffset_def)
  note limits = metadata_within_network_limits [OF resp m refService_sel(12) this]
  then obtain fee where
    "SuggestedFee resp = [amountOf (FormatUint fee)]" "0 < optTxnFeeNanos exampleOptions \<longrightarrow> fee = optTxnFeeNanos exampleOptions"
    by blast
  then have "SuggestedFee resp = [amountOf (FormatUint 500)]" by (simp add: exampleOptions_def)
  then show ?thesis using resp by blast
qed

text \<open>C22: A request passes the preprocess endpoint only if its inputs spend from exactly one address,
  however many there are. The options then name that address, list every output operation in order
  with its address and its parsed amount, and hold the five numeric attributes of the request, 0 where
  one is missing.\<close>

theorem preprocess_requires_one_signer:
  assumes "ConstructionPreprocess S metadata ops = Some (Inr m)"
  shows "\<exists>opts. MarshalOptions S opts = Some m \<and> inputAddresses ops = {optFromPublicKey opts} \<and>
    list_all2 declares (outputsOf ops) (optDeSoOutputs opts) \<and>
    [optNoncePartialID opts, optNonceExpirationBlockHeight opts, optNonceExpirationBlockHeightOffset opts,
       optFeeRateNanosPerKB opts, optTxnFeeNanos opts] = map (attributeValue metadata) attributeKeys"
  using ConstructionPreprocess_Inr [OF assms] by (elim exE conjE) (intro exI conjI; assumption)

text \<open>Two inputs of one address, an output, and the request with a second address.\<close>

definition exampleRequest :: "requestOperation list" where
  "exampleRequest =
     [constructionOp 0 InputOpType (plainAccount ''a'') ''-7'', constructionOp 1 OutputOpType (plainAccount ''b'') ''6'',
      constructionOp 2 InputOpType (plainAccount ''a'') ''-1'']"

lemma ParseUint_6: "ParseUint ''6'' = (6, None)"
  using ParseUint_FormatUint [of 6] by (simp add: FormatUint_def decimal.simps digit_def)

lemma exampleRequest_accepted: "\<exists>m. ConstructionPreprocess refService None exampleRequest = Some (Inr m)"
  by (simp add: ConstructionPreprocess_def exampleRequest_def preprocessInput_def preprocessOutput_def useLegacyUtxos_def
      ParseUint_6 attribute_def CheckMetadataForAttributeAndParseUint64_def refMarshalOptions_def)

theorem preprocess_requires_one_signer_witness:
  "\<exists>opts m. ConstructionPreprocess refService None exampleRequest = Some (Inr m) \<and>
     refMarshalOptions opts = Some m \<and> optFromPublicKey opts = ''a'' \<and>
     map outAmountNanos (optDeSoOutputs opts) = [6]"
proof -
  obtain m where m: "ConstructionPreprocess refService None exampleRequest = Some (Inr m)"
    using exampleRequest_accepted by blast
  have addresses: "inputAddresses exampleRequest = {''a''}"
    by (auto simp: inputAddresses_def exampleRequest_def)
  have outputs: "outputsOf exampleRequest = [constructionOp 1 OutputOpType (plainAccount ''b'') ''6'']"
    by (simp add: outputsOf_def exampleRequest_def)
  show ?thesis
    using preprocess_requires_one_signer [OF m] m
    by (auto simp: addresses outputs declares_def ParseUint_6 list_all2_Cons1)
qed

text \<open>C27: A coin selection of the client is lost. When the metadata of a request asks for legacy UTXO
  selection, the preprocess endpoint collects the selected coins, but the options it returns say that
  there is no selection; and the transaction the metadata endpoint builds from such options is the same
  whatever the coins are.\<close>

theorem legacy_selection_is_lost:
  assumes "useLegacyUtxos metadata = Some True"
    and "ConstructionPreprocess S metadata ops = Some (Inr m)"
  shows "\<exists>opts. MarshalOptions S opts = Some m \<and> optDeSoInputs opts \<noteq> [] \<and>
    \<not> optLegacyUTXOSelection opts \<and>
    (\<forall>mem params inputs. constructTransaction S mem params opts =
       constructTransaction S mem params (opts\<lparr>optDeSoInputs := inputs\<rparr>))"
  using ConstructionPreprocess_Inr [OF assms(2)] assms(1) constructTransaction_ignores_inputs by metis

text \<open>A request with a coin, in the form \<open>hash:index\<close>.\<close>

definition exampleLegacy :: "object option" where
  "exampleLegacy = Some [''legacy_utxo_selection'' \<mapsto> AnyBool True]"

theorem legacy_selection_is_lost_witness:
  "\<exists>opts m. ConstructionPreprocess refService exampleLegacy
      [(constructionOp 0 InputOpType (plainAccount ''a'') ''-7'')\<lparr>reqCoinIdentifier := Some ''0102:6''\<rparr>] =
        Some (Inr m) \<and>
     refMarshalOptions opts = Some m \<and> optDeSoInputs opts \<noteq> [] \<and> \<not> optLegacyUTXOSelection opts"
proof -
  let ?op = "(constructionOp 0 InputOpType (plainAccount ''a'') ''-7'')\<lparr>reqCoinIdentifier := Some ''0102:6''\<rparr>"
  have legacy: "useLegacyUtxos exampleLegacy = Some True"
    by (simp add: useLegacyUtxos_def exampleLegacy_def)
  have coin: "ParseCoinIdentifier hexDecode ''0102:6'' = Some (Inr ([1, 2], 6))"
    by (simp add: ParseCoinIdentifier_def indexSlice_def fromHexChar_def ParseUint32_def parseUintMax_def
        isDigit_def digitVal_def Let_def)
  have attr: "attribute refService exampleLegacy key = Some (Inr 0)" if "key \<noteq> ''legacy_utxo_selection''" for key
    using that by (simp add: attribute_def CheckMetadataForAttributeAndParseUint64_def exampleLegacy_def)
  have "\<exists>m. ConstructionPreprocess refService exampleLegacy [?op] = Some (Inr m)"
    by (simp add: ConstructionPreprocess_def preprocessInput_def legacy coin constructionOp_def attr
        refMarshalOptions_def)
  then obtain m where m: "ConstructionPreprocess refService exampleLegacy [?op] = Some (Inr m)" by blast
  show ?thesis using legacy_selection_is_lost [OF legacy m] m by auto
qed


text \<open>C14: Signing changes nothing but the signature. What the combine endpoint returns parses to the
  operations of the unsigned transaction, now with the sender as its signer; it hashes to the hash of the
  transaction that carries R and S, the first and the second 32 bytes of the signature; and submitting it
  on an online node broadcasts exactly that transaction and answers with that hash if it is accepted.\<close>

theorem signing_keeps_operations:
  assumes "construction_codecs S" and "readTransaction S txnHex = Some (Inr (t, txn))"
    and "list_all ascii (tmInputAmounts t)" and "constructionMode S = Online"
    and "ConstructionCombine S txnHex sigs = Some (Inr signedHex)"
  shows "\<exists>r s signedTxn ops. signedTxn = withSignature (Some (ScalarSetBytes S r, ScalarSetBytes S s)) txn \<and>
    r @ s = take 64 (hd sigs) \<and> length r = 32 \<and> length s = 32 \<and>
    ConstructionParse S False txnHex = Some (Inr \<lparr>parsedOperations = ops, AccountIdentifierSigners = []\<rparr>) \<and>
    ConstructionParse S True signedHex = Some (Inr \<lparr>parsedOperations = ops, AccountIdentifierSigners =
      [plainAccount (Base58CheckEncode (constructionCore S) (PublicKey txn))]\<rparr>) \<and>
    ConstructionHash S signedHex =
      Some (Inr (BlockHashString (constructionCore S) (TxnHash (constructionCore S) signedTxn))) \<and>
    fst (ConstructionSubmit S mem signedHex) = fst (VerifyAndBroadcastTransaction S mem signedTxn) \<and>
    (snd (VerifyAndBroadcastTransaction S mem signedTxn) \<longrightarrow>
       snd (ConstructionSubmit S mem signedHex) = ConstructionHash S signedHex)"
proof -
  obtain r s bs where signed: "readTransaction S signedHex = Some (Inr (t\<lparr>tmTransaction := bs\<rparr>,
      withSignature (Some (ScalarSetBytes S r, ScalarSetBytes S s)) txn))"
    and sig: "r = take 32 (hd sigs)" "s = drop 32 (take 64 (hd sigs))" "length s = 32"
    using construction_codecs.combine_signed [OF assms(1,2,3,5)] by blast
  let ?txn = "withSignature (Some (ScalarSetBytes S r, ScalarSetBytes S s)) txn"
  have rs: "r @ s = take 64 (hd sigs) \<and> length r = 32"
    using sig append_take_drop_id [of 32 "take 64 (hd sigs)"] by auto
  have hash: "ConstructionHash S signedHex =
      Some (Inr (BlockHashString (constructionCore S) (TxnHash (constructionCore S) ?txn)))"
    by (simp add: ConstructionHash_def signed)
  have submit: "fst (ConstructionSubmit S mem signedHex) = fst (VerifyAndBroadcastTransaction S mem ?txn) \<and>
      (snd (VerifyAndBroadcastTransaction S mem ?txn) \<longrightarrow>
         snd (ConstructionSubmit S mem signedHex) = ConstructionHash S signedHex)"
    by (cases "VerifyAndBroadcastTransaction S mem ?txn"; cases "snd (VerifyAndBroadcastTransaction S mem ?txn)")
      (auto simp: ConstructionSubmit_def assms(4) signed hash)
  show ?thesis
    using construction_codecs.parse_of_read [OF assms(1,2), of False]
      construction_codecs.parse_of_read [OF assms(1) signed, of True] rs sig(3) hash submit
    by (intro exI [of _ r] exI [of _ s] exI [of _ ?txn]
        exI [of _ "parsedOperations (projr (the (ConstructionParse S False txnHex)))"]) (simp add: Let_def)
qed

definition exampleTxn :: MsgDeSoTxn where
  "exampleTxn = withNonce (Some \<lparr>ExpirationBlockHeight = 150, PartialID = 1\<rparr>)
     (basicTransfer [] [\<lparr>outputPublicKey = [1, 2], outputAmountNanos = 90\<rparr>] examplePk)"

definition exampleUnsigned :: transactionMetadata where
  "exampleUnsigned =
     \<lparr>tmTransaction = putTxn exampleTxn, tmInputAmounts = [''-100''], tmLegacyUTXOSelection = False,
      tmNoncePartialID = 0, tmNonceExpirationBlockHeight = 0, tmNonceExpirationBlockHeightOffset = 0,
      tmFeeRateNanosPerKB = 0, tmTxnFeeNanos = 0\<rparr>"

theorem signing_keeps_operations_witness:
  "\<exists>signedHex. ConstructionCombine refService (hexEncode (putMetadata exampleUnsigned)) [replicate 64 9] =
      Some (Inr signedHex) \<and>
    (\<exists>ops. ConstructionParse refService True signedHex = Some (Inr \<lparr>parsedOperations = ops,
       AccountIdentifierSigners = [plainAccount (hexEncode examplePk)]\<rparr>))"
proof -
  let ?hex = "hexEncode (putMetadata exampleUnsigned)"
  have "getTxn (putTxn exampleTxn) = Some exampleTxn"
    by (rule getTxn_putTxn) (simp_all add: exampleTxn_def withNonce_def basicTransfer_def)
  then have read: "readTransaction refService ?hex = Some (Inr (exampleUnsigned, exampleTxn))"
    by (simp add: readTransaction_def getMetadata_putMetadata) (simp add: exampleUnsigned_def)
  have "\<exists>signedHex. ConstructionCombine refService ?hex [replicate 64 9] = Some (Inr signedHex)"
    by (simp add: ConstructionCombine_def read indexSlice_def sliceRange_def refTxnToBytes_def exampleTxn_def
        withNonce_def basicTransfer_def withSignature_def)
  then obtain signedHex where signed: "ConstructionCombine refService ?hex [replicate 64 9] = Some (Inr signedHex)"
    by blast
  have "list_all ascii (tmInputAmounts exampleUnsigned)" by (simp add: exampleUnsigned_def ascii_def)
  then show ?thesis
    using signing_keeps_operations [OF ref_service.construction_codecs_axioms read _ _ signed] signed
    by (auto simp: exampleTxn_def)
qed


end
