(* ===== verification/SigningScript.thy ===== *)
theory SigningScript
  imports ConstructionRef
begin

text \<open>
  The signing helper of \<open>scripts/testnet/sign.go\<close>: from a seed and a serialised transaction it prints
  the signature that the combine endpoint takes. Keys, signatures and their scalars are those of the core
  library and its elliptic curve package.
\<close>

section \<open>The script\<close>

text \<open>
  \<open>ComputeKeysFromSeedWithNet\<close> gives the public and the private key of a seed, \<open>SignTxn\<close> the scalars R and S
  of a signature, \<open>ScalarBytes\<close> the bytes of a scalar.
\<close>

record 'k signer =
  ComputeKeysFromSeedWithNet :: "bytes \<Rightarrow> u32 \<Rightarrow> bool \<Rightarrow> (bytes \<times> 'k) option"
  SignTxn :: "MsgDeSoTxn \<Rightarrow> 'k \<Rightarrow> (bytes \<times> bytes) option"
  ScalarBytes :: "bytes \<Rightarrow> bytes"

text \<open>The output for the arguments of the process. Any argument missing, and any error, is a panic.\<close>

definition signMain :: "'m constructionService \<Rightarrow> 'k signer \<Rightarrow> string list \<Rightarrow> string option" where
  "signMain S K args =
     do { seedArg \<leftarrow> indexSlice args 1;
          seedHex \<leftarrow> hexDecode seedArg;
          transactionArg \<leftarrow> indexSlice args 2;
          transactionHex \<leftarrow> hexDecode transactionArg;
          (_, privateKey) \<leftarrow> ComputeKeysFromSeedWithNet K seedHex 0 True;
          msgDesoTxn \<leftarrow> TxnFromBytes S transactionHex;
          (r, s) \<leftarrow> SignTxn K msgDesoTxn privateKey;
          Some (hexEncode (ScalarBytes K r) @ hexEncode (ScalarBytes K s) @ [CHR 0x0A]) }"

text \<open>The script prints something exactly if every step it takes succeeds.\<close>

lemma signMain_Some:
  "signMain S K [program, seedArg, transactionArg] = Some out \<longleftrightarrow>
     (\<exists>seed bs pk key txn r s. hexDecode seedArg = Some seed \<and> hexDecode transactionArg = Some bs \<and>
        ComputeKeysFromSeedWithNet K seed 0 True = Some (pk, key) \<and> TxnFromBytes S bs = Some txn \<and>
        SignTxn K txn key = Some (r, s) \<and>
        out = hexEncode (ScalarBytes K r) @ hexEncode (ScalarBytes K s) @ [CHR 0x0A])"
  by (auto simp: signMain_def indexSlice_def bind_eq_Some_conv)

lemma signMain_needs_arguments: "length args < 3 \<Longrightarrow> signMain S K args = None"
  by (cases "indexSlice args 1"; cases "hexDecode (args ! 1)")
    (auto simp: signMain_def indexSlice_def bind_eq_None_conv split: if_splits)

lemma hexEncode_append: "hexEncode (xs @ ys) = hexEncode xs @ hexEncode ys"
  by (simp add: hexEncode_def)

section \<open>Signing what the endpoints ask for\<close>

text \<open>
  What the script and the endpoints rely on: the bytes of a transaction that are signed leave its
  signature out, the scalars of a signature are 32 bytes and read back from them, and a signature made
  with a private key verifies under its public key for the double hash of these bytes.
\<close>

locale signing_library = construction_codecs S
  for S :: "'m constructionService" +
  fixes K :: "'k signer" and verify :: "bytes \<Rightarrow> bytes \<Rightarrow> bytes \<times> bytes \<Rightarrow> bool"
  assumes unsigned_bytes: "TxnToBytes S (withSignature sig txn) True = TxnToBytes S txn True"
    and scalar_bytes: "SignTxn K txn key = Some (r, s) \<Longrightarrow> x \<in> {r, s} \<Longrightarrow>
      length (ScalarBytes K x) = 32 \<and> ScalarSetBytes S (ScalarBytes K x) = x"
    and sign_verifies: "ComputeKeysFromSeedWithNet K seed index testnet = Some (pk, key) \<Longrightarrow>
      SignTxn K txn key = Some rs \<Longrightarrow> TxnToBytes S txn True = Some bs \<Longrightarrow>
      verify pk (merkleSha256DoubleHash S bs) rs"
begin

text \<open>For the serialised transaction of the metadata the script prints 64 bytes, R and S, which sign the
  double hash of these bytes with the key of the seed.\<close>

lemma script_signs:
  assumes "TxnToBytes S txn True = Some bs" and "hexDecode transactionArg = Some bs"
    and "ComputeKeysFromSeedWithNet K seed 0 True = Some (pk, key)"
    and "signMain S K [program, hexEncode seed, transactionArg] = Some out"
  shows "\<exists>sig r s. out = hexEncode sig @ [CHR 0x0A] \<and> length sig = 64 \<and>
    ScalarSetBytes S (take 32 sig) = r \<and> ScalarSetBytes S (drop 32 (take 64 sig)) = s \<and>
    verify pk (merkleSha256DoubleHash S bs) (r, s)"
proof -
  obtain r s where sign: "SignTxn K (withSignature None txn) key = Some (r, s)"
    and out: "out = hexEncode (ScalarBytes K r) @ hexEncode (ScalarBytes K s) @ [CHR 0x0A]"
    using assms txn_codec [OF assms(1)] by (auto simp: signMain_Some)
  let ?sig = "ScalarBytes K r @ ScalarBytes K s"
  have "TxnToBytes S (withSignature None txn) True = Some bs" using assms(1) by (simp add: unsigned_bytes)
  then have "verify pk (merkleSha256DoubleHash S bs) (r, s)"
    using sign_verifies [OF assms(3) sign] by blast
  then show ?thesis
    using scalar_bytes [OF sign, of r] scalar_bytes [OF sign, of s] out
    by (intro exI [of _ ?sig] exI [of _ r] exI [of _ s]) (simp add: hexEncode_append)
qed

end

lemma signingInputs_amounts:
  assumes "signingInputs ops account = Some (amounts, account')"
    and "\<forall>op \<in> set ops. pred_option (\<lambda>a. P (Value a)) (reqAmount op)"
  shows "list_all P amounts"
  using assms
  by (induction ops account arbitrary: amounts account' rule: signingInputs.induct)
    (auto simp: bind_eq_Some_conv split: if_splits)

context signing_library begin

text \<open>The payload is the double hash of the transaction that the metadata carries, and the unsigned
  transaction reads back to that transaction.\<close>

lemma payloads_of_metadata:
  assumes "UnmarshalMetadata S metadata = Some meta" and "TxnToBytes S txn True = Some bs"
    and "metaDeSoSampleTxnHex meta = hexEncode bs"
    and "ConstructionPayloads S metadata ops = Some (Inr p)"
    and "\<forall>op \<in> set ops. pred_option (\<lambda>a. ascii (Value a)) (reqAmount op)"
  shows "map payloadBytes (Payloads p) = [merkleSha256DoubleHash S bs] \<and>
    (\<exists>t. readTransaction S (UnsignedTransaction p) = Some (Inr (t, withSignature None txn)) \<and>
         list_all ascii (tmInputAmounts t))"
proof -
  obtain amounts account where amounts: "signingInputs ops None = Some (amounts, account)"
    and p: "p = \<lparr>UnsignedTransaction = hexEncode (marshalTransaction S (unsignedMetadata meta bs amounts)),
               Payloads = [\<lparr>payloadAccount = account, payloadBytes = merkleSha256DoubleHash S bs\<rparr>]\<rparr>"
    using assms(1,3,4) by (auto simp: ConstructionPayloads_def bind_eq_Some_conv)
  have "list_all ascii amounts" using signingInputs_amounts [OF amounts assms(5)] .
  then show ?thesis
    using readTransaction_marshal [of "unsignedMetadata meta bs amounts" txn True] assms(2)
    by (simp add: p unsignedMetadata_def)
qed

text \<open>Combining puts the two scalars of a 64-byte signature into the transaction.\<close>

lemma combine_with_signature:
  assumes "readTransaction S txnHex = Some (Inr (t, txn))" and "list_all ascii (tmInputAmounts t)"
    and "length sig = 64"
    and "r = ScalarSetBytes S (take 32 sig)" and "s = ScalarSetBytes S (drop 32 (take 64 sig))"
    and "TxnToBytes S (withSignature (Some (r, s)) txn) False = Some bs"
  shows "\<exists>signedHex t'. ConstructionCombine S txnHex [sig] = Some (Inr signedHex) \<and>
    readTransaction S signedHex = Some (Inr (t', withSignature (Some (r, s)) txn))"
proof -
  have "\<exists>signedHex. ConstructionCombine S txnHex [sig] = Some (Inr signedHex)"
    using assms by (auto simp: ConstructionCombine_def indexSlice_def sliceRange_def)
  then show ?thesis
    using combine_signed [OF assms(1,2), of "[sig]"] assms(4,5) by fastforce
qed

end

section \<open>A reference signer\<close>

text \<open>The private key of a seed is the seed, as is its public key; a signature is the double hash, and the key
  as 32 bytes.\<close>

definition refSigner :: "bytes signer" where
  "refSigner =
     \<lparr>ComputeKeysFromSeedWithNet = (\<lambda>seed _ _. Some (seed, seed)),
      SignTxn = (\<lambda>txn key. map_option (\<lambda>bs. (copyArray 32 bs, copyArray 32 key)) (refTxnToBytes txn True)),
      ScalarBytes = (\<lambda>x. x)\<rparr>"

definition refVerify :: "bytes \<Rightarrow> bytes \<Rightarrow> bytes \<times> bytes \<Rightarrow> bool" where
  "refVerify pk h sig \<longleftrightarrow> sig = (copyArray 32 h, copyArray 32 pk)"

lemma refSigner_sel [simp]:
  "ComputeKeysFromSeedWithNet refSigner seed i net = Some (seed, seed)"
  "SignTxn refSigner txn key = map_option (\<lambda>bs. (copyArray 32 bs, copyArray 32 key)) (refTxnToBytes txn True)"
  "ScalarBytes refSigner x = x"
  by (simp_all add: refSigner_def)

interpretation ref_signer: signing_library refService refSigner refVerify
proof (intro signing_library.intro signing_library_axioms.intro)
  show "construction_codecs refService" by (rule ref_service.construction_codecs_axioms)
qed (auto simp: refTxnToBytes_def withSignature_def refVerify_def refService_def copyArray_def split: if_splits)

section \<open>Properties\<close>

text \<open>C15: The script signs what the endpoints ask for. Run with a seed and the transaction that the metadata
  endpoint returned, its output is 64 bytes in hexadecimal and a line feed: a signature of every payload of
  the payloads endpoint that is valid for the public key of the seed. The combine endpoint takes these bytes
  for the unsigned transaction, and what it returns reads to that transaction with that signature.\<close>

theorem script_signature_is_combined:
  assumes "signing_library S K verify"
    and "UnmarshalMetadata S metadata = Some meta" and "TxnToBytes S txn True = Some bs"
    and "metaDeSoSampleTxnHex meta = hexEncode bs"
    and "ConstructionPayloads S metadata ops = Some (Inr p)"
    and "\<forall>op \<in> set ops. pred_option (\<lambda>a. ascii (Value a)) (reqAmount op)"
    and "ComputeKeysFromSeedWithNet K seed 0 True = Some (pk, key)"
    and "signMain S K [program, hexEncode seed, metaDeSoSampleTxnHex meta] = Some out"
    and "\<And>sig. TxnToBytes S (withSignature (Some sig) txn) False \<noteq> None"
  shows "\<exists>sig r s signedHex t. out = hexEncode sig @ [CHR 0x0A] \<and> length sig = 64 \<and>
    Payloads p \<noteq> [] \<and> (\<forall>payload \<in> set (Payloads p). verify pk (payloadBytes payload) (r, s)) \<and>
    ConstructionCombine S (UnsignedTransaction p) [sig] = Some (Inr signedHex) \<and>
    readTransaction S signedHex = Some (Inr (t, withSignature (Some (r, s)) txn))"
proof -
  obtain sig r s where out: "out = hexEncode sig @ [CHR 0x0A]" "length sig = 64"
    and rs: "ScalarSetBytes S (take 32 sig) = r" "ScalarSetBytes S (drop 32 (take 64 sig)) = s"
    and verified: "verify pk (merkleSha256DoubleHash S bs) (r, s)"
    using signing_library.script_signs [OF assms(1,3) _ assms(7,8)] assms(4) by auto
  obtain t where t: "readTransaction S (UnsignedTransaction p) = Some (Inr (t, withSignature None txn))"
    and ascii: "list_all ascii (tmInputAmounts t)"
    and payloads: "map payloadBytes (Payloads p) = [merkleSha256DoubleHash S bs]"
    using signing_library.payloads_of_metadata [OF assms(1-6)] by (elim conjE exE)
  obtain bs' where "TxnToBytes S (withSignature (Some (r, s)) (withSignature None txn)) False = Some bs'"
    using assms(9) [of "(r, s)"] by auto
  then obtain signedHex t' where "ConstructionCombine S (UnsignedTransaction p) [sig] = Some (Inr signedHex)"
    and "readTransaction S signedHex = Some (Inr (t', withSignature (Some (r, s)) txn))"
    using signing_library.combine_with_signature [OF assms(1) t ascii out(2) rs [symmetric]] by auto
  then show ?thesis using out verified payloads by fastforce
qed

definition exampleMetadata :: constructionMetadata where
  "exampleMetadata =
     \<lparr>metaFeePerKB = 1000, metaDeSoSampleTxnHex = hexEncode (putTxn exampleTxn),
      metaLegacyUTXOSelection = False, metaNoncePartialID = 0, metaNonceExpirationBlockHeight = 0,
      metaNonceExpirationBlockHeightOffset = 0, metaFeeRateNanosPerKB = 0, metaTxnFeeNanos = 0\<rparr>"

theorem script_signature_is_combined_witness:
  "\<exists>(p :: payloadsResponse) sig r s. signMain refService refSigner [''sign'', hexEncode [7], hexEncode (putTxn exampleTxn)] =
      Some (hexEncode sig @ [CHR 0x0A]) \<and> length sig = 64 \<and>
    refVerify [7] (payloadBytes (hd (Payloads p))) (r, s) \<and>
    (\<exists>signedHex. ConstructionCombine refService (UnsignedTransaction p) [sig] = Some (Inr signedHex))"
proof -
  let ?bs = "putTxn exampleTxn"
  obtain m where m: "UnmarshalMetadata refService m = Some exampleMetadata"
    using refMetadata_codec [of exampleMetadata] by auto
  have hex: "metaDeSoSampleTxnHex exampleMetadata = hexEncode ?bs" by (simp add: exampleMetadata_def)
  have serialised: "TxnToBytes refService exampleTxn True = Some ?bs"
    "TxnToBytes refService (withSignature (Some sig) exampleTxn) False \<noteq> None" for sig
    by (simp_all add: refTxnToBytes_def exampleTxn_def withNonce_def basicTransfer_def withSignature_def)
  have readback: "getTxn ?bs = Some exampleTxn"
    by (rule getTxn_putTxn) (simp_all add: exampleTxn_def withNonce_def basicTransfer_def)
  have "\<exists>p. ConstructionPayloads refService m exampleTransfer = Some (Inr p)"
    using m by (simp add: ConstructionPayloads_def exampleMetadata_def exampleTransfer_def signingInputs_transfer)
  then obtain p where p: "ConstructionPayloads refService m exampleTransfer = Some (Inr p)" by blast
  have "ascii (FormatUint 90)" by (simp add: FormatUint_def decimal.simps ascii_def digit_def)
  then have ascii: "\<forall>op \<in> set exampleTransfer. pred_option (\<lambda>a. ascii (Value a)) (reqAmount op)"
    by (simp add: exampleTransfer_def transferOps_split) (simp add: ascii_def)
  have "\<exists>out. signMain refService refSigner [''sign'', hexEncode [7], metaDeSoSampleTxnHex exampleMetadata] = Some out"
    using serialised(1) by (simp add: signMain_def indexSlice_def readback hex)
  then obtain out where
    out: "signMain refService refSigner [''sign'', hexEncode [7], metaDeSoSampleTxnHex exampleMetadata] = Some out"
    by blast
  obtain sig r s signedHex t where "out = hexEncode sig @ [CHR 0x0A]" "length sig = 64"
    and "Payloads p \<noteq> []" "\<forall>payload \<in> set (Payloads p). refVerify [7] (payloadBytes payload) (r, s)"
    and "ConstructionCombine refService (UnsignedTransaction p) [sig] = Some (Inr signedHex)"
    using script_signature_is_combined [OF ref_signer.signing_library_axioms m serialised(1) hex p ascii _ out
        serialised(2), of "[7]" "[7]"] by auto
  then show ?thesis
    using out unfolding hex by - (rule exI [of _ p], rule exI [of _ sig], rule exI [of _ r], rule exI [of _ s], simp)
qed

end
