(* ===== verification/Services.thy ===== *)
theory Services
  imports AccountService
begin

text \<open>
  The network, block and mempool endpoints of \<open>services/network_service.go\<close>,
  \<open>services/block_service.go\<close> and \<open>services/mempool_service.go\<close>: the status of the node, what the
  API advertises, a block on request, and the transactions of the mempool.
\<close>

section \<open>The network\<close>

record NetworkIdentifier =
  Blockchain :: string
  Network :: string

record Peer =
  PeerID :: string
  peerAddress :: string

text \<open>
  What the endpoints ask of the node beside its blocks. \<open>GetAllPeers\<close> is \<open>None\<close> where the node has
  no connection manager. The names of the sync states are strings of the core library.
\<close>

record ('db, 'wb) apiService =
  apiMode :: Mode
  apiNetwork :: NetworkIdentifier
  apiNode :: "('db, 'wb) node"
  GetAllPeers :: "(u64 \<times> string) list option"
  HeaderTipHeight :: u32
  ChainStateString :: string
  SyncStateSyncingBlocks :: string
  SyncStateNeedBlocksss :: string
  SyncStateFullyCurrent :: string
  GetOrderedTransactions :: "blockhash list"

definition NetworkList :: "('db, 'wb) apiService \<Rightarrow> NetworkIdentifier list" where
  "NetworkList S = [apiNetwork S]"

record SyncStatus =
  CurrentIndex :: i64
  TargetIndex :: i64
  Stage :: string
  Synced :: bool

record NetworkStatusResponse =
  CurrentBlockIdentifier :: BlockIdentifier
  CurrentBlockTimestamp :: i64
  GenesisBlockIdentifier :: BlockIdentifier
  Peers :: "Peer list"
  syncStatus :: SyncStatus

definition connectedPeers :: "('db, 'wb) apiService \<Rightarrow> Peer list" where
  "connectedPeers S =
     (case GetAllPeers S of
        None \<Rightarrow> []
      | Some ps \<Rightarrow> map (\<lambda>(i, address). \<lparr>PeerID = FormatUint i, peerAddress = address\<rparr>) ps)"

definition syncStatusOf :: "('db, 'wb) apiService \<Rightarrow> BlockNode \<Rightarrow> SyncStatus" where
  "syncStatusOf S committedTip =
     (let current = (ucast (nodeHeight committedTip) :: i64);
          target = (ucast (HeaderTipHeight S) :: i64);
          stage = ChainStateString S;
          isSyncing = (stage = SyncStateSyncingBlocks S \<or> stage = SyncStateNeedBlocksss S)
      in \<lparr>CurrentIndex = current, TargetIndex = target, Stage = stage,
          Synced = (stage = SyncStateFullyCurrent S \<or> (isSyncing \<and> target - current \<le>s 3))\<rparr>)"

text \<open>The two errors are literals of the function, with code 500, and not among the lists of errors.\<close>

definition NetworkStatus :: "('db, 'wb) apiService \<Rightarrow> Error + NetworkStatusResponse" where
  "NetworkStatus S =
     (let L = nodeLib (apiNode S); BC = nodeBlockchain (apiNode S)
      in case GetCommittedTip BC of
           None \<Rightarrow> Inl (mkError 500 ''Committed tip not found'')
         | Some committedTip \<Rightarrow>
             (case GetBlockFromBestChainByHeight BC 0 of
                Some (Some genesis) \<Rightarrow>
                  Inr \<lparr>CurrentBlockIdentifier =
                         \<lparr>identIndex = ucast (nodeHeight committedTip),
                          identHash = BlockHashString L (nodeHash committedTip)\<rparr>,
                       CurrentBlockTimestamp = milliseconds (headerTstampNanoSecs committedTip),
                       GenesisBlockIdentifier =
                         \<lparr>identIndex = 0, identHash = BlockHashString L (nodeHash genesis)\<rparr>,
                       Peers = connectedPeers S, syncStatus = syncStatusOf S committedTip\<rparr>
              | _ \<Rightarrow> Inl (mkError 500 ''Failed to get genesis block'')))"

record NetworkOptionsResponse =
  RosettaVersion :: string
  NodeVersion :: string
  OperationStatuses :: "(string \<times> bool) list"
  allowedOperationTypes :: "string list"
  allowedErrors :: "Error list"
  HistoricalBalanceLookup :: bool

definition NetworkOptions :: NetworkOptionsResponse where
  "NetworkOptions =
     \<lparr>RosettaVersion = ''4.0.7'', NodeVersion = ''4.0.6'',
      OperationStatuses = [(SuccessStatus, True), (RevertedStatus, False)],
      allowedOperationTypes = OperationTypes, allowedErrors = serviceErrors @ desoErrors,
      HistoricalBalanceLookup = True\<rparr>"

section \<open>Blocks and the mempool\<close>

text \<open>
  The block asked for by index, else by hash, else the current one. \<open>GetBlock\<close> never returns a nil
  block without an error, so the branch for a nil block is not reached.
\<close>

definition serveBlock ::
  "('db, 'wb) apiService \<Rightarrow> PartialBlockIdentifier \<Rightarrow> (Error + Block) option" where
  "serveBlock S ident =
     (if apiMode S \<noteq> Online then Some (Inl ErrUnavailableOffline)
      else case partialIndex ident of
             Some index \<Rightarrow> GetBlockAtHeight (apiNode S) index
           | None \<Rightarrow>
               (case partialHash ident of
                  Some hash \<Rightarrow> GetBlock (apiNode S) hash
                | None \<Rightarrow> CurrentBlock (apiNode S)))"

text \<open>The response holds a transaction with no fields set.\<close>

definition BlockTransaction :: "('db, 'wb) apiService \<Rightarrow> Error + unit" where
  "BlockTransaction S = (if apiMode S \<noteq> Online then Inl ErrUnavailableOffline else Inr ())"

definition Mempool :: "('db, 'wb) apiService \<Rightarrow> Error + string list" where
  "Mempool S =
     (if apiMode S \<noteq> Online then Inl ErrUnavailableOffline
      else Inr (map (BlockHashString (nodeLib (apiNode S))) (GetOrderedTransactions S)))"

definition MempoolTransaction :: "('db, 'wb) apiService \<Rightarrow> Error" where
  "MempoolTransaction S = (if apiMode S \<noteq> Online then ErrUnavailableOffline else ErrUnimplemented)"

section \<open>Results\<close>

text \<open>Which errors a block can end with.\<close>

definition blockErrors :: "Error list" where
  "blockErrors =
     [ErrBlockHeightTooHigh, ErrBlockHeightMismatch, ErrCannotDecodeBlockHash, ErrBlockNodeNotFound,
      ErrProblemFetchingUtxoOpsForBlock, ErrCannotHashBlock, ErrMsgDesoBlockNotFound,
      ErrCommittedTipNotFound, ErrBlockIsNotCommitted]"

lemma convert_errors:
  "GetTransactionsForConvertBlock L P us block = Some (Inl e) \<Longrightarrow>
     e = ErrProblemFetchingUtxoOpsForBlock \<or> e = ErrCannotHashBlock"
  by (auto simp: GetTransactionsForConvertBlock_def bind_eq_Some_conv split: option.splits if_splits)

lemma GetBlock_Inl:
  assumes "GetBlock N hash = Some (Inl e)"
  shows "e \<in> set blockErrors"
proof -
  have "e \<in> {ErrCannotDecodeBlockHash, ErrBlockNodeNotFound, ErrBlockIsNotCommitted, ErrMsgDesoBlockNotFound,
      ErrProblemFetchingUtxoOpsForBlock, ErrCannotHashBlock}"
    using assms convert_errors [of "nodeLib N" "nodeParams N" "nodeUtxoOperations N" _ e]
    by (auto simp: GetBlock_def Let_def bind_eq_Some_conv split: option.splits if_splits sum.splits)
      (metis sum.exhaust)
  then show ?thesis by (auto simp: blockErrors_def)
qed

lemma GetBlockAtHeight_Inl:
  assumes "GetBlockAtHeight N h = Some (Inl e)"
  shows "e \<in> set blockErrors"
proof -
  have "e \<in> {ErrCommittedTipNotFound, ErrBlockHeightTooHigh, ErrBlockNodeNotFound, ErrBlockHeightMismatch} \<or>
      (\<exists>hash. GetBlock N hash = Some (Inl e))"
    using assms by (auto simp: GetBlockAtHeight_def split: option.splits if_splits)
  then show ?thesis using GetBlock_Inl by (auto simp: blockErrors_def)
qed

lemma CurrentBlock_Inl:
  assumes "CurrentBlock N = Some (Inl e)"
  shows "e \<in> set blockErrors"
  using assms GetBlockAtHeight_Inl by (auto simp: CurrentBlock_def blockErrors_def split: option.splits)

text \<open>The difference of two block heights, widened to \<open>int64\<close>.\<close>

lemma widened_difference:
  "((ucast (a :: u32) :: i64) - ucast (b :: u32) \<le>s 3) \<longleftrightarrow> unat a \<le> unat b + 3"
proof -
  have bound: "0 \<le> int (unat x) \<and> int (unat x) < 4294967296" for x :: u32
    using unsigned_less [where 'a = int and w = x] by simp
  have "signed_take_bit 63 (x - y) = x - y" if "0 \<le> x \<and> x < 4294967296" "0 \<le> y \<and> y < 4294967296" for x y :: int
    using that by (intro signed_take_bit_int_eq_self) auto
  from this [OF bound bound]
  have "signed_take_bit 63 (int (unat a) - int (unat b)) = int (unat a) - int (unat b)" .
  then have "sint ((ucast a :: i64) - ucast b) = int (unat a) - int (unat b)"
    by (simp add: sint_word_ariths(2) sint_widened_u32)
  then have "(ucast a :: i64) - ucast b \<le>s 3 \<longleftrightarrow> int (unat a) - int (unat b) \<le> 3"
    by (simp add: word_sle_eq)
  also have "\<dots> \<longleftrightarrow> unat a \<le> unat b + 3" by linarith
  finally show ?thesis .
qed

section \<open>Properties\<close>

text \<open>C28: An error of the block endpoint is one of nine errors of the package or the offline error, and the
  options endpoint advertises it except in three cases: the block is missing, there is no committed tip,
  or the block is not committed. The advertised errors have pairwise different codes, so a code names
  one error.\<close>

theorem block_errors_advertised:
  "distinct (map Code (allowedErrors NetworkOptions)) \<and>
   (serveBlock S ident = Some (Inl e) \<longrightarrow>
      (e \<in> set (allowedErrors NetworkOptions) \<longleftrightarrow>
         e \<notin> {ErrMsgDesoBlockNotFound, ErrCommittedTipNotFound, ErrBlockIsNotCommitted}))"
proof -
  have "e \<in> set blockErrors \<or> e = ErrUnavailableOffline" if "serveBlock S ident = Some (Inl e)"
    using that GetBlock_Inl GetBlockAtHeight_Inl CurrentBlock_Inl
    by (auto simp: serveBlock_def split: if_splits option.splits)
  moreover have "e \<in> set (allowedErrors NetworkOptions) \<longleftrightarrow>
      e \<notin> {ErrMsgDesoBlockNotFound, ErrCommittedTipNotFound, ErrBlockIsNotCommitted}"
    if "e \<in> set blockErrors \<or> e = ErrUnavailableOffline"
    using that
    by (auto simp: blockErrors_def NetworkOptions_def serviceErrors_def desoErrors_def service_error_defs
        deso_error_defs mkError_def)
  moreover have "distinct (map Code (allowedErrors NetworkOptions))"
    by (simp add: NetworkOptions_def serviceErrors_def desoErrors_def service_error_defs deso_error_defs mkError_def)
  ultimately show ?thesis by blast
qed

definition exampleApi :: "(memDB, (bytes \<times> bytes) list) apiService" where
  "exampleApi =
     \<lparr>apiMode = Online, apiNetwork = \<lparr>Blockchain = ''DeSo'', Network = ''TESTNET''\<rparr>, apiNode = exampleN,
      GetAllPeers = Some [(7, ''peer'')], HeaderTipHeight = 5, ChainStateString = ''SYNCING_BLOCKS'',
      SyncStateSyncingBlocks = ''SYNCING_BLOCKS'', SyncStateNeedBlocksss = ''NEED_BLOCKS'',
      SyncStateFullyCurrent = ''FULLY_CURRENT'', GetOrderedTransactions = [[1, 2]]\<rparr>"

theorem block_errors_advertised_witness:
  "serveBlock (exampleApi\<lparr>apiNode := exampleN\<lparr>nodeBlockchain :=
       exampleBlockchain\<lparr>GetCommittedTip := None\<rparr>\<rparr>\<rparr>) \<lparr>partialIndex = None, partialHash = None\<rparr> =
     Some (Inl ErrCommittedTipNotFound) \<and>
   ErrCommittedTipNotFound \<notin> set (allowedErrors NetworkOptions)"
proof -
  let ?S = "exampleApi\<lparr>apiNode := exampleN\<lparr>nodeBlockchain := exampleBlockchain\<lparr>GetCommittedTip := None\<rparr>\<rparr>\<rparr>"
  let ?ident = "\<lparr>partialIndex = None, partialHash = None\<rparr>"
  have "serveBlock ?S ?ident = Some (Inl ErrCommittedTipNotFound)"
    by (simp add: serveBlock_def exampleApi_def CurrentBlock_def)
  then show ?thesis using block_errors_advertised [of ?S ?ident ErrCommittedTipNotFound] by simp
qed

text \<open>C23: The network status agrees with the block endpoint. The current block it reports is the block
  served without an identifier, at the timestamp of that block; and the node counts as synced exactly if
  it is fully current, or syncs blocks and its headers are at most three blocks ahead of the committed tip.\<close>

theorem status_agrees_with_blocks:
  assumes "best_chain (nodeLib (apiNode S)) (nodeBlockchain (apiNode S))"
    and "GetCommittedTip (nodeBlockchain (apiNode S)) = Some tip"
    and "GetBlockFromBestChainByHeight (nodeBlockchain (apiNode S)) (ucast (nodeHeight tip)) = Some (Some tip)"
    and "NetworkStatus S = Inr status" and "apiMode S = Online"
    and "serveBlock S \<lparr>partialIndex = None, partialHash = None\<rparr> = Some (Inr b)"
  shows "CurrentBlockIdentifier status = blockIdentifier b \<and>
    CurrentBlockTimestamp status = Timestamp b \<and>
    (Synced (syncStatus status) \<longleftrightarrow>
       ChainStateString S = SyncStateFullyCurrent S \<or>
       (ChainStateString S = SyncStateSyncingBlocks S \<or> ChainStateString S = SyncStateNeedBlocksss S) \<and>
       unat (HeaderTipHeight S) \<le> unat (nodeHeight tip) + 3)"
proof -
  let ?N = "apiNode S"
  let ?h = "ucast (nodeHeight tip) :: u64"
  have b: "GetBlockAtHeight ?N ?h = Some (Inr b)"
    using assms(2,5,6) by (simp add: serveBlock_def CurrentBlock_def)
  have ident: "blockIdentifier b = \<lparr>identIndex = ?h, identHash = BlockHashString (nodeLib ?N) (nodeHash tip)\<rparr>"
    using best_chain.block_at_height [OF assms(1) b refl refl] assms(3) by auto
  have "GetBlock ?N (BlockHashString (nodeLib ?N) (nodeHash tip)) = Some (Inr b)"
    using GetBlockAtHeight_Inr [OF b] assms(3) by auto
  from GetBlock_Inr [OF this] have "Timestamp b = milliseconds (headerTstampNanoSecs tip)"
    using best_chain.hash_string [OF assms(1), of "nodeHash tip"] best_chain.node_hash [OF assms(1) assms(3)]
    by auto
  moreover have "(ucast (HeaderTipHeight S) - ?h \<le>s 3) \<longleftrightarrow> unat (HeaderTipHeight S) \<le> unat (nodeHeight tip) + 3"
    by (rule widened_difference)
  ultimately show ?thesis
    using assms(2,4) ident by (auto simp: NetworkStatus_def Let_def syncStatusOf_def split: option.splits)
qed

theorem status_agrees_with_blocks_witness:
  "\<exists>status. NetworkStatus exampleApi = Inr status \<and> Synced (syncStatus status) \<and>
     CurrentBlockIdentifier status = blockIdentifier (exampleApiBlock 2)"
proof -
  have N: "apiNode exampleApi = exampleN" by (simp add: exampleApi_def)
  obtain status where status: "NetworkStatus exampleApi = Inr status"
    by (simp add: NetworkStatus_def Let_def exampleApi_def exampleN_def exampleBlockchain_def exampleNode_def)
  have "serveBlock exampleApi \<lparr>partialIndex = None, partialHash = None\<rparr> = Some (Inr (exampleApiBlock 2))"
    using exampleN_block(1) [of 2]
    by (simp add: serveBlock_def exampleApi_def CurrentBlock_def) (simp add: exampleN_def exampleBlockchain_def exampleNode_def)
  then show ?thesis
    using status_agrees_with_blocks [of exampleApi "exampleNode 2" status "exampleApiBlock 2"] status
      example_chain.best_chain_axioms
    by (simp add: N) (simp add: exampleApi_def exampleN_def exampleBlockchain_def exampleNode_def)
qed


end
