(* ===== verification/Config.thy ===== *)
theory Config
  imports Services
begin

text \<open>
  \<open>LoadConfig\<close> of \<open>deso/config.go\<close>: from the settings to the configuration of the node and the
  services, or an error. The settings (\<open>viper\<close>), the parameters of the two networks and the bounds
  of the block index are arguments.
\<close>

section \<open>Settings\<close>

text \<open>
  \<open>strings.ToUpper\<close> on a UTF-8 string. Beside the ASCII letters, the two runes whose upper case is
  an ASCII letter are mapped: the dotless i (C4 B1) and the long s (C5 BF). Other runes outside ASCII
  keep an upper case outside ASCII and are left alone; the program only compares the result with
  ASCII words.
\<close>

definition upperChar :: "char \<Rightarrow> char" where
  "upperChar c =
     (let n = (of_char c :: nat) in if 97 \<le> n \<and> n \<le> 122 then char_of (n - 32) else c)"

fun ToUpper :: "string \<Rightarrow> string" where
  "ToUpper (c # d # cs) =
     (if c = CHR 0xC4 \<and> d = CHR 0xB1 then CHR ''I'' # ToUpper cs
      else if c = CHR 0xC5 \<and> d = CHR 0xBF then CHR ''S'' # ToUpper cs
      else upperChar c # ToUpper (d # cs))"
| "ToUpper [c] = [upperChar c]"
| "ToUpper [] = []"

record viper =
  GetString :: "string \<Rightarrow> string"
  GetInt :: "string \<Rightarrow> i64"
  GetBool :: "string \<Rightarrow> bool"
  GetStringSlice :: "string \<Rightarrow> string list"
  GetUint64 :: "string \<Rightarrow> u64"
  GetUint32 :: "string \<Rightarrow> u32"

record networkParams =
  coreParams :: DeSoParams
  NetworkTypeString :: string
  GenesisBlockHashHex :: string

text \<open>\<open>MkdirAll\<close> says whether the directory could be created; if not the process exits.\<close>

record configLib =
  DeSoMainnetParams :: networkParams
  DeSoTestnetParams :: networkParams
  DefaultBlockIndexSize :: i64
  MinBlockIndexSize :: i64
  MaxBlockIndexSize :: i64
  DBVersionString :: string
  JoinPath :: "string \<Rightarrow> string \<Rightarrow> string"
  MkdirAll :: "string \<Rightarrow> bool"

record Config =
  configMode :: Mode
  configNetwork :: NetworkIdentifier
  configParams :: networkParams
  configCurrency :: Currency
  configGenesisBlockIdentifier :: BlockIdentifier
  configPort :: i64
  configNodePort :: i64
  configDataDirectory :: string
  configMinerPublicKeys :: "string list"
  configBlockProducerSeed :: string
  configPosValidatorSeed :: string
  configRegtest :: bool
  configRegtestAccelerated :: bool
  configConnectIPs :: "string list"
  configHyperSync :: bool
  configSyncType :: string
  configMaxSyncBlockHeight :: u32
  configForceChecksum :: bool
  configBlockIndexSize :: i64
  configLogDirectory :: string
  configGlogV :: u64
  configGlogVmodule :: string

section \<open>Loading\<close>

definition modeOf :: "string \<Rightarrow> Mode option" where
  "modeOf s =
     (let m = ToUpper s
      in if m = ''ONLINE'' then Some Online else if m = ''OFFLINE'' then Some Offline else None)"

definition paramsOf :: "configLib \<Rightarrow> string \<Rightarrow> networkParams option" where
  "paramsOf X s =
     (let network = ToUpper s
      in if network = ''MAINNET'' then Some (DeSoMainnetParams X)
         else if network = ''TESTNET'' then Some (DeSoTestnetParams X) else None)"

definition blockIndexSize :: "configLib \<Rightarrow> i64 \<Rightarrow> string + i64" where
  "blockIndexSize X setting =
     (let n = (if setting = 0 then DefaultBlockIndexSize X else setting)
      in if n <s 0 then Inl ''block-index-size must be >= 0''
         else if n <s MinBlockIndexSize X
           then Inl (''block-index-size must be >= '' @ FormatInt (MinBlockIndexSize X))
         else if MaxBlockIndexSize X <s n
           then Inl (''block-index-size must be <= '' @ FormatInt (MaxBlockIndexSize X))
         else Inr n)"

text \<open>\<open>None\<close> is the exit of the process at \<open>glog.Fatalf\<close>.\<close>

definition LoadConfig :: "configLib \<Rightarrow> viper \<Rightarrow> (string + Config) option" where
  "LoadConfig X V =
     (case modeOf (GetString V ''mode'') of
        None \<Rightarrow> Some (Inl ''unknown mode'')
      | Some mode \<Rightarrow>
          (case paramsOf X (GetString V ''network'') of
             None \<Rightarrow> Some (Inl ''unknown network'')
           | Some params \<Rightarrow>
               let dataDirectory = JoinPath X (GetString V ''data-directory'') (DBVersionString X)
               in if \<not> MkdirAll X dataDirectory then None
                  else
                    (case blockIndexSize X (GetInt V ''block-index-size'') of
                       Inl err \<Rightarrow> Some (Inl err)
                     | Inr n \<Rightarrow> Some (Inr
                         \<lparr>configMode = mode,
                          configNetwork = \<lparr>Blockchain = ''DeSo'', Network = NetworkTypeString params\<rparr>,
                          configParams = params, configCurrency = DesoCurrency,
                          configGenesisBlockIdentifier =
                            \<lparr>identIndex = 0, identHash = GenesisBlockHashHex params\<rparr>,
                          configPort = GetInt V ''port'', configNodePort = GetInt V ''node-port'',
                          configDataDirectory = dataDirectory,
                          configMinerPublicKeys = GetStringSlice V ''miner-public-keys'',
                          configBlockProducerSeed = GetString V ''block-producer-seed'',
                          configPosValidatorSeed = GetString V ''pos-validator-seed'',
                          configRegtest = GetBool V ''regtest'',
                          configRegtestAccelerated = GetBool V ''regtest-accelerated'',
                          configConnectIPs = GetStringSlice V ''connect-ips'',
                          configHyperSync = GetBool V ''hypersync'',
                          configSyncType = GetString V ''sync-type'',
                          configMaxSyncBlockHeight = GetUint32 V ''max-sync-block-height'',
                          configForceChecksum = GetBool V ''force-checksum'',
                          configBlockIndexSize = n,
                          configLogDirectory =
                            (if GetString V ''log-dir'' = [] then dataDirectory else GetString V ''log-dir''),
                          configGlogV = GetUint64 V ''glog-v'',
                          configGlogVmodule = GetString V ''glog-vmodule''\<rparr>))))"

section \<open>Results\<close>

lemma blockIndexSize_Inr:
  "blockIndexSize X setting = Inr n \<longleftrightarrow>
     n = (if setting = 0 then DefaultBlockIndexSize X else setting) \<and>
     0 \<le> sint n \<and> sint (MinBlockIndexSize X) \<le> sint n \<and> sint n \<le> sint (MaxBlockIndexSize X)"
  by (auto simp: blockIndexSize_def Let_def word_sless_alt)

text \<open>The settings a configuration can be made of.\<close>

definition chosenSize :: "configLib \<Rightarrow> viper \<Rightarrow> i64" where
  "chosenSize X V =
     (if GetInt V ''block-index-size'' = 0 then DefaultBlockIndexSize X else GetInt V ''block-index-size'')"

definition validSettings :: "configLib \<Rightarrow> viper \<Rightarrow> bool" where
  "validSettings X V \<longleftrightarrow>
     ToUpper (GetString V ''mode'') \<in> {''ONLINE'', ''OFFLINE''} \<and>
     ToUpper (GetString V ''network'') \<in> {''MAINNET'', ''TESTNET''} \<and>
     MkdirAll X (JoinPath X (GetString V ''data-directory'') (DBVersionString X)) \<and>
     0 \<le> sint (chosenSize X V) \<and>
     sint (MinBlockIndexSize X) \<le> sint (chosenSize X V) \<and>
     sint (chosenSize X V) \<le> sint (MaxBlockIndexSize X)"

lemma modeOf_Some:
  "modeOf s = Some m \<longleftrightarrow>
     ToUpper s = ''ONLINE'' \<and> m = Online \<or> ToUpper s = ''OFFLINE'' \<and> m = Offline"
  by (auto simp: modeOf_def Let_def)

lemma paramsOf_Some:
  "paramsOf X s = Some p \<longleftrightarrow>
     ToUpper s = ''MAINNET'' \<and> p = DeSoMainnetParams X \<or>
     ToUpper s = ''TESTNET'' \<and> p = DeSoTestnetParams X"
  by (auto simp: paramsOf_def Let_def)

lemma validSettings_parts:
  "validSettings X V \<longleftrightarrow>
     (\<exists>mode. modeOf (GetString V ''mode'') = Some mode) \<and>
     (\<exists>params. paramsOf X (GetString V ''network'') = Some params) \<and>
     MkdirAll X (JoinPath X (GetString V ''data-directory'') (DBVersionString X)) \<and>
     blockIndexSize X (GetInt V ''block-index-size'') = Inr (chosenSize X V)"
  unfolding validSettings_def modeOf_Some paramsOf_Some blockIndexSize_Inr chosenSize_def by blast

lemma LoadConfig_Inr:
  assumes "LoadConfig X V = Some (Inr c)"
  shows "modeOf (GetString V ''mode'') = Some (configMode c) \<and>
    paramsOf X (GetString V ''network'') = Some (configParams c) \<and>
    MkdirAll X (JoinPath X (GetString V ''data-directory'') (DBVersionString X)) \<and>
    blockIndexSize X (GetInt V ''block-index-size'') = Inr (configBlockIndexSize c) \<and>
    configCurrency c = DesoCurrency \<and> Network (configNetwork c) = NetworkTypeString (configParams c)"
  using assms by (auto simp: LoadConfig_def Let_def split: option.splits if_splits sum.splits)

lemma LoadConfig_loads:
  assumes "modeOf (GetString V ''mode'') = Some mode" and "paramsOf X (GetString V ''network'') = Some params"
    and "MkdirAll X (JoinPath X (GetString V ''data-directory'') (DBVersionString X))"
    and "blockIndexSize X (GetInt V ''block-index-size'') = Inr n"
  shows "\<exists>c. LoadConfig X V = Some (Inr c)"
  using assms by (simp add: LoadConfig_def Let_def)

section \<open>Properties\<close>

text \<open>C24: A configuration loads exactly if the mode is ONLINE or OFFLINE and the network MAINNET or TESTNET,
  in any case of letters, the data directory can be created, and the block index size, or its default
  where it is 0, is not negative and within its bounds. It then has that mode and that size, the
  parameters of that network, and DESO as its currency.\<close>

theorem config_loads_iff_valid:
  "case LoadConfig X V of
     Some (Inr c) \<Rightarrow>
       validSettings X V \<and>
       (configMode c = Online \<longleftrightarrow> ToUpper (GetString V ''mode'') = ''ONLINE'') \<and>
       configParams c = (if ToUpper (GetString V ''network'') = ''MAINNET'' then DeSoMainnetParams X
                         else DeSoTestnetParams X) \<and>
       Network (configNetwork c) = NetworkTypeString (configParams c) \<and>
       configCurrency c = DesoCurrency \<and> configBlockIndexSize c = chosenSize X V
   | _ \<Rightarrow> \<not> validSettings X V"
proof (cases "\<exists>c. LoadConfig X V = Some (Inr c)")
  case True
  then obtain c where c: "LoadConfig X V = Some (Inr c)" by blast
  then show ?thesis
    using LoadConfig_Inr [OF c]
    by (auto simp: validSettings_def chosenSize_def modeOf_Some paramsOf_Some blockIndexSize_Inr)
next
  case False
  then have "\<not> validSettings X V"
    unfolding validSettings_parts using LoadConfig_loads by blast
  moreover have "LoadConfig X V = None \<or> (\<exists>e. LoadConfig X V = Some (Inl e))"
    using False by (metis not_None_eq sum.exhaust)
  ultimately show ?thesis by auto
qed

end
