(* ===== verification/Peers.thy ===== *)
theory Peers
  imports Config
begin

text \<open>
  How \<open>Start\<close> of \<open>deso/node.go\<close> finds peers: \<open>getAddrsToListenOn\<close>, \<open>addIPsForHost\<close>,
  \<open>addSeedAddrsFromPrefixes\<close> and the lines of \<open>Start\<close> that call them; and what else \<open>Start\<close> decides about
  the hosts that the node and its server may contact. The answers of the network
  (interfaces, sockets, DNS, random numbers) are arguments, given by the number of the call where two
  calls may be answered differently; the calls of the address manager are results.
\<close>

type_synonym ip = bytes
type_synonym i32 = "32 word"
type_synonym u16 = "16 word"

section \<open>Addresses\<close>

text \<open>\<open>IP.To4\<close> and \<open>IP.IsLinkLocalUnicast\<close> of the package net.\<close>

definition To4 :: "ip \<Rightarrow> ip option" where
  "To4 a =
     (if length a = 4 then Some a
      else if length a = 16 \<and> take 10 a = replicate 10 0 \<and> a ! 10 = 0xff \<and> a ! 11 = 0xff
        then Some (drop 12 a)
      else None)"

definition IsLinkLocalUnicast :: "ip \<Rightarrow> bool" where
  "IsLinkLocalUnicast a =
     (case To4 a of
        Some a4 \<Rightarrow> a4 ! 0 = 169 \<and> a4 ! 1 = 254
      | None \<Rightarrow> length a = 16 \<and> a ! 0 = 0xfe \<and> take_bit 2 (drop_bit 6 (a ! 1)) = 2)"

record TCPAddr =
  tcpIP :: ip
  tcpPort :: i64

text \<open>The arguments of \<open>wire.NetAddressV2FromBytes\<close>; the time as seconds before now.\<close>

record netAddress =
  secondsAgo :: int
  services :: u64
  addrBytes :: ip
  addrPort :: u16

text \<open>The fields of \<open>DeSoParams\<close> that concern peers.\<close>

record peerParams =
  DNSSeeds :: "string list"
  DNSSeedGenerators :: "string list list"
  DefaultSocketPort :: u16
  isMainnet :: bool

text \<open>The answers of the outside: \<open>ParseCIDR\<close> of an interface address, the socket opened by a call of
  \<open>Listen\<close>, the addresses of a host, and the random numbers.\<close>

record 'l netLib =
  InterfaceAddrs :: "string list option"
  ParseCIDR :: "string \<Rightarrow> ip option"
  NetListen :: "nat \<Rightarrow> TCPAddr \<Rightarrow> 'l option"
  LookupIP :: "nat \<Rightarrow> string \<Rightarrow> ip list option"
  SecondsIn3Days :: i32
  SecondsIn4Days :: i32
  RandInt32 :: "i32 \<Rightarrow> nat \<Rightarrow> i32"
  Int63 :: "nat \<Rightarrow> 63 word"

section \<open>Listening\<close>

fun listenLoop :: "'l netLib \<Rightarrow> i64 \<Rightarrow> nat \<Rightarrow> string list \<Rightarrow> (TCPAddr list \<times> 'l list) \<Rightarrow> TCPAddr list \<times> 'l list" where
  "listenLoop W protocolPort n [] result = result"
| "listenLoop W protocolPort n (iAddr # rest) (listeningAddrs, listeners) =
     (case ParseCIDR W iAddr of
        None \<Rightarrow> listenLoop W protocolPort n rest (listeningAddrs, listeners)
      | Some ifaceIP \<Rightarrow>
          if IsLinkLocalUnicast ifaceIP then listenLoop W protocolPort n rest (listeningAddrs, listeners)
          else
            let netAddr = \<lparr>tcpIP = ifaceIP, tcpPort = protocolPort\<rparr>
            in (case NetListen W n netAddr of
                  None \<Rightarrow> listenLoop W protocolPort (Suc n) rest (listeningAddrs, listeners)
                | Some listener \<Rightarrow>
                    listenLoop W protocolPort (Suc n) rest (listeningAddrs @ [netAddr], listeners @ [listener])))"

definition getAddrsToListenOn :: "'l netLib \<Rightarrow> i64 \<Rightarrow> TCPAddr list \<times> 'l list" where
  "getAddrsToListenOn W protocolPort =
     (case InterfaceAddrs W of
        None \<Rightarrow> ([], [])
      | Some ifaceAddrs \<Rightarrow> listenLoop W protocolPort 0 ifaceAddrs ([], []))"

section \<open>The addresses of a host\<close>

text \<open>The time that an address was last seen: 3 days and a random part of 4 days ago, in an \<open>int32\<close>.\<close>

definition randomAge :: "'l netLib \<Rightarrow> nat \<Rightarrow> int" where
  "randomAge W n = sint (SecondsIn3Days W + RandInt32 W (SecondsIn4Days W) n)"

text \<open>The call of \<open>AddAddresses\<close> that \<open>addIPsForHost\<close> ends with, if it gets there: the addresses and their
  source. \<open>call\<close> is the number of the lookup and \<open>n\<close> that of the first random number.\<close>

definition addIPsForHost ::
  "'l netLib \<Rightarrow> peerParams \<Rightarrow> nat \<Rightarrow> nat \<Rightarrow> string \<Rightarrow> (netAddress list \<times> netAddress) option" where
  "addIPsForHost W P call n host =
     (case LookupIP W call host of
        None \<Rightarrow> None
      | Some ipAddrs \<Rightarrow>
          if length ipAddrs = 0 then None
          else
            let ipsPerHost = 5;
                ipAddrs = (if length ipAddrs > ipsPerHost then take ipsPerHost ipAddrs else ipAddrs);
                netAddrs = map (\<lambda>(ii, a). \<lparr>secondsAgo = randomAge W (n + ii), services = 0, addrBytes = a,
                                            addrPort = DefaultSocketPort P\<rparr>)
                             (zip [0..<length ipAddrs] ipAddrs)
            in Some (netAddrs, netAddrs ! 0))"

section \<open>The names of the seeds\<close>

definition MaxIterations :: nat where "MaxIterations = 99999"

text \<open>\<open>None\<close> is the panic of an index out of range.\<close>

definition dnsString :: "i64 \<Rightarrow> string list \<Rightarrow> string option" where
  "dnsString dnsNumber dnsGenerator =
     (if length dnsGenerator < 2 then None
      else Some (dnsGenerator ! 0 @ FormatInt dnsNumber @ dnsGenerator ! 1))"

text \<open>The hosts of one round of a search; its goroutines run at the same time and are waited for.\<close>

definition seedRound :: "peerParams \<Rightarrow> i64 \<Rightarrow> string list option" where
  "seedRound P dnsNumber = those (map (dnsString dnsNumber) (DNSSeedGenerators P))"

definition sequentialSearch :: "peerParams \<Rightarrow> string list list option" where
  "sequentialSearch P = those (map (\<lambda>dnsNumber. seedRound P (of_nat dnsNumber)) [0..<MaxIterations])"

definition randomSearch :: "'l netLib \<Rightarrow> peerParams \<Rightarrow> string list list option" where
  "randomSearch W P =
     those (map (\<lambda>index. seedRound P (of_nat (unat (Int63 W index) mod MaxIterations))) [0..<MaxIterations])"

text \<open>The hosts that the two searches of \<open>addSeedAddrsFromPrefixes\<close> look up.\<close>

definition addSeedAddrsFromPrefixes :: "'l netLib \<Rightarrow> peerParams \<Rightarrow> string set option" where
  "addSeedAddrsFromPrefixes W P =
     (case (sequentialSearch P, randomSearch W P) of
        (Some sequential, Some random) \<Rightarrow> Some (set (concat sequential) \<union> set (concat random))
      | _ \<Rightarrow> None)"

section \<open>The part of Start that concerns peers\<close>

definition discovers :: "Config \<Rightarrow> bool" where
  "discovers c \<longleftrightarrow> configMode c = Online \<and> length (configConnectIPs c) = 0"

definition localAddresses :: "'l netLib \<Rightarrow> Config \<Rightarrow> netAddress list" where
  "localAddresses W c =
     (let listeningAddrs = fst (getAddrsToListenOn W (configNodePort c))
      in if discovers c
         then map (\<lambda>(ii, a). \<lparr>secondsAgo = randomAge W ii, services = 0, addrBytes = tcpIP a,
                             addrPort = ucast (tcpPort a)\<rparr>)
                (zip [0..<length listeningAddrs] listeningAddrs)
         else [])"

text \<open>The hosts looked up for peers, by \<open>addIPsForHost\<close> for every DNS seed and by the searches.\<close>

definition hostsLookedUp :: "'l netLib \<Rightarrow> peerParams \<Rightarrow> Config \<Rightarrow> string set option" where
  "hostsLookedUp W P c =
     (if discovers c then map_option (\<lambda>hosts. set (DNSSeeds P) \<union> hosts) (addSeedAddrsFromPrefixes W P)
      else Some {})"

definition connectIPs :: "peerParams \<Rightarrow> Config \<Rightarrow> string list" where
  "connectIPs P c =
     (let ips = configConnectIPs c;
          ips = (if length ips = 0 \<and> isMainnet P then ips @ [''deso-seed-4.io''] else ips)
      in if configMode c \<noteq> Online then [] else ips)"

text \<open>
  What else \<open>Start\<close> hands to the server about the network: whether it may use it and write, the providers of
  checkpoints, and the address of a statsd agent, from the environment.
\<close>

definition disableNetworking :: "Config \<Rightarrow> bool" where
  "disableNetworking c \<longleftrightarrow> configMode c \<noteq> Online"

definition readOnly :: "Config \<Rightarrow> bool" where
  "readOnly c \<longleftrightarrow> configMode c \<noteq> Online"

definition checkpointSyncingProviders :: "peerParams \<Rightarrow> string list" where
  "checkpointSyncingProviders P =
     (if isMainnet P then [''https://node.deso.org''] else [''https://test.deso.org''])"

definition statsdAddress :: "(string \<Rightarrow> string) \<Rightarrow> string option" where
  "statsdAddress Getenv =
     (let ddAgentHost = Getenv ''DD_AGENT_HOST''
      in if ddAgentHost \<noteq> '''' then Some (Getenv ''DD_AGENT_HOST'' @ '':8125'') else None)"


section \<open>Lemmas\<close>

lemma those_map_Some [simp]: "those (map (\<lambda>x. Some (f x)) xs) = Some (map f xs)"
  by (induction xs) simp_all

lemma those_map_cong: "(\<And>x. x \<in> set xs \<Longrightarrow> f x = Some (g x)) \<Longrightarrow> those (map f xs) = Some (map g xs)"
  by (induction xs) simp_all

definition listenable :: "'l netLib \<Rightarrow> i64 \<Rightarrow> TCPAddr \<Rightarrow> bool" where
  "listenable W port a \<longleftrightarrow>
     tcpPort a = port \<and> \<not> IsLinkLocalUnicast (tcpIP a) \<and> (\<exists>s. ParseCIDR W s = Some (tcpIP a))"

lemma listenLoop_pairs:
  assumes "list_all2 (\<lambda>a l. listenable W port a \<and> (\<exists>k. NetListen W k a = Some l)) as ls"
    and "listenLoop W port n ifs (as, ls) = (as', ls')"
  shows "list_all2 (\<lambda>a l. listenable W port a \<and> (\<exists>k. NetListen W k a = Some l)) as' ls'"
  using assms
proof (induction W port n ifs "(as, ls)" arbitrary: as ls rule: listenLoop.induct)
  case (2 W port n iAddr rest as ls)
  show ?case
  proof (cases "ParseCIDR W iAddr")
    case None
    with 2 show ?thesis by simp
  next
    case (Some a)
    show ?thesis
    proof (cases "IsLinkLocalUnicast a \<or> NetListen W n \<lparr>tcpIP = a, tcpPort = port\<rparr> = None")
      case True
      with 2 Some show ?thesis by (auto simp: Let_def split: if_splits)
    next
      case False
      let ?addr = "\<lparr>tcpIP = a, tcpPort = port\<rparr>"
      from False obtain l where l: "NetListen W n ?addr = Some l" by auto
      have "listenable W port ?addr" using False Some by (auto simp: listenable_def)
      with 2(5) l have "list_all2 (\<lambda>a l. listenable W port a \<and> (\<exists>k. NetListen W k a = Some l))
          (as @ [?addr]) (ls @ [l])"
        by (auto intro: list_all2_appendI)
      with 2 Some False l show ?thesis by (simp add: Let_def)
    qed
  qed
qed simp

text \<open>Every address that is listened on has its listener beside it, on the port of the node, and is not
  link-local.\<close>

lemma listening_addresses:
  assumes "getAddrsToListenOn W port = (as, ls)"
  shows "list_all2 (\<lambda>a l. listenable W port a \<and> (\<exists>k. NetListen W k a = Some l)) as ls"
  using assms listenLoop_pairs [of W port "[]" "[]" 0]
  by (auto simp: getAddrsToListenOn_def split: option.splits)

lemma sint_small: "n < 99999 \<Longrightarrow> sint (of_nat n :: i64) = int n"
  by (simp add: signed_of_nat signed_take_bit_int_eq_self)

lemma dnsString_small:
  "n < 99999 \<Longrightarrow> 2 \<le> length g \<Longrightarrow> dnsString (of_nat n) g = Some (g ! 0 @ decimal n @ g ! 1)"
  by (simp add: dnsString_def FormatInt_def sint_small)

definition seedName :: "nat \<Rightarrow> string list \<Rightarrow> string" where
  "seedName n g = g ! 0 @ decimal n @ g ! 1"

lemma seedRound_names:
  assumes "\<forall>g \<in> set (DNSSeedGenerators P). 2 \<le> length g" and "n < 99999"
  shows "seedRound P (of_nat n) = Some (map (seedName n) (DNSSeedGenerators P))"
  unfolding seedRound_def using assms by (intro those_map_cong) (simp add: dnsString_small seedName_def)

lemma search_names:
  assumes gens: "\<forall>g \<in> set (DNSSeedGenerators P). 2 \<le> length g"
  shows "addSeedAddrsFromPrefixes W P =
    Some {seedName n g | n g. n < 99999 \<and> g \<in> set (DNSSeedGenerators P)}"
proof -
  have "sequentialSearch P = Some (map (\<lambda>n. map (seedName n) (DNSSeedGenerators P)) [0..<99999])"
    unfolding sequentialSearch_def MaxIterations_def using seedRound_names [OF gens]
    by (intro those_map_cong) simp
  moreover have "randomSearch W P =
      Some (map (\<lambda>i. map (seedName (unat (Int63 W i) mod 99999)) (DNSSeedGenerators P)) [0..<99999])"
    unfolding randomSearch_def MaxIterations_def using seedRound_names [OF gens]
    by (intro those_map_cong) simp
  moreover have "unat (Int63 W i) mod 99999 < 99999" for i by simp
  ultimately show ?thesis
    by (fastforce simp: addSeedAddrsFromPrefixes_def simp del: upt_conv_Cons)
qed


section \<open>Properties\<close>

text \<open>C39: Where \<open>Start\<close> makes a node look for peers, for a configuration that was loaded: an offline node
  looks up no host for peers, connects to no peer, and has its server without networking and read-only; a
  node that is given peers looks up none and connects to exactly these; any
  other node looks up the DNS seeds and, for every generator of two parts, each of its 99999 numbered
  names. The random search stays within these names, so all it changes is their order. The mode
  does not matter for two hosts that are no peers: the server always gets the provider of checkpoints of its
  network, and a statsd client is made whenever the environment names its host.\<close>

theorem contacts_follow_configuration:
  assumes "LoadConfig X V = Some (Inr c)" and "\<forall>g \<in> set (DNSSeedGenerators P). 2 \<le> length g"
  shows "hostsLookedUp W P c = Some
      (if ToUpper (GetString V ''mode'') = ''ONLINE'' \<and> GetStringSlice V ''connect-ips'' = []
       then set (DNSSeeds P) \<union> {seedName n g | n g. n < 99999 \<and> g \<in> set (DNSSeedGenerators P)}
       else {}) \<and>
    connectIPs P c =
      (if ToUpper (GetString V ''mode'') = ''OFFLINE'' then []
       else if GetStringSlice V ''connect-ips'' = [] \<and> isMainnet P then [''deso-seed-4.io'']
       else GetStringSlice V ''connect-ips'') \<and>
    (disableNetworking c \<longleftrightarrow> ToUpper (GetString V ''mode'') = ''OFFLINE'') \<and>
    (readOnly c \<longleftrightarrow> ToUpper (GetString V ''mode'') = ''OFFLINE'') \<and>
    set (checkpointSyncingProviders P) =
      {if isMainnet P then ''https://node.deso.org'' else ''https://test.deso.org''} \<and>
    (statsdAddress Getenv = None \<longleftrightarrow> Getenv ''DD_AGENT_HOST'' = '''')"
proof -
  have ips: "configConnectIPs c = GetStringSlice V ''connect-ips''"
    using assms(1) by (auto simp: LoadConfig_def Let_def split: option.splits if_splits sum.splits)
  have mode: "configMode c = Online \<longleftrightarrow> ToUpper (GetString V ''mode'') = ''ONLINE''"
    "configMode c = Online \<longleftrightarrow> ToUpper (GetString V ''mode'') \<noteq> ''OFFLINE''"
    using LoadConfig_Inr [OF assms(1)] by (auto simp: modeOf_def Let_def split: if_splits)
  have "hostsLookedUp W P c = Some
      (if configMode c = Online \<and> configConnectIPs c = []
       then set (DNSSeeds P) \<union> {seedName n g | n g. n < 99999 \<and> g \<in> set (DNSSeedGenerators P)}
       else {})"
    by (simp add: search_names [OF assms(2)] hostsLookedUp_def discovers_def)
  moreover have "connectIPs P c =
      (if configMode c \<noteq> Online then []
       else if configConnectIPs c = [] \<and> isMainnet P then [''deso-seed-4.io''] else configConnectIPs c)"
    by (simp add: connectIPs_def Let_def)
  moreover have "(disableNetworking c \<longleftrightarrow> ToUpper (GetString V ''mode'') = ''OFFLINE'') \<and>
      (readOnly c \<longleftrightarrow> ToUpper (GetString V ''mode'') = ''OFFLINE'')"
    using mode(2) by (simp add: disableNetworking_def readOnly_def)
  moreover have "set (checkpointSyncingProviders P) =
      {if isMainnet P then ''https://node.deso.org'' else ''https://test.deso.org''}"
    by (simp add: checkpointSyncingProviders_def)
  moreover have "statsdAddress Getenv = None \<longleftrightarrow> Getenv ''DD_AGENT_HOST'' = ''''"
    by (simp add: statsdAddress_def Let_def)
  ultimately show ?thesis using ips mode by simp
qed

definition exampleSettings :: viper where
  "exampleSettings =
     \<lparr>GetString = (\<lambda>k. if k = ''mode'' then ''ONLINE'' else if k = ''network'' then ''TESTNET'' else ''''),
      GetInt = (\<lambda>_. 0), GetBool = (\<lambda>_. False), GetStringSlice = (\<lambda>_. []), GetUint64 = (\<lambda>_. 0),
      GetUint32 = (\<lambda>_. 0)\<rparr>"

definition exampleConfigLib :: configLib where
  "exampleConfigLib =
     (let p = \<lparr>coreParams = \<lparr>BalanceModelBlockHeight = 0, CreatorCoinAutoSellThresholdNanos = 0,
                             GenesisOutputs = []\<rparr>,
               NetworkTypeString = ''TESTNET'', GenesisBlockHashHex = ''''\<rparr>
      in \<lparr>DeSoMainnetParams = p, DeSoTestnetParams = p, DefaultBlockIndexSize = 10, MinBlockIndexSize = 1,
          MaxBlockIndexSize = 20, DBVersionString = '''', JoinPath = (@), MkdirAll = (\<lambda>_. True)\<rparr>)"

definition examplePeers :: peerParams where
  "examplePeers =
     \<lparr>DNSSeeds = [''seed.org''], DNSSeedGenerators = [[''seed-'', ''.io'']], DefaultSocketPort = 18000,
      isMainnet = False\<rparr>"

definition exampleNet :: "unit netLib" where
  "exampleNet =
     \<lparr>InterfaceAddrs = Some [], ParseCIDR = (\<lambda>_. None), NetListen = (\<lambda>_ _. None),
      LookupIP = (\<lambda>_ _. Some (map (\<lambda>i. [10, 0, 0, i]) [1, 2, 3, 4, 5, 6, 7])),
      SecondsIn3Days = 259200, SecondsIn4Days = 345600, RandInt32 = (\<lambda>_ k. of_nat (k mod 100)),
      Int63 = (\<lambda>_. 0)\<rparr>"

lemma exampleConfig: "\<exists>c. LoadConfig exampleConfigLib exampleSettings = Some (Inr c)"
  by (rule LoadConfig_loads)
    (simp_all add: exampleConfigLib_def exampleSettings_def modeOf_def paramsOf_def blockIndexSize_def
      Let_def upperChar_def word_sless_alt)

lemma contacts_follow_configuration_witness:
  "\<exists>c hosts. LoadConfig exampleConfigLib exampleSettings = Some (Inr c) \<and>
     hostsLookedUp exampleNet examplePeers c = Some hosts \<and>
     ''seed.org'' \<in> hosts \<and> ''seed-7.io'' \<in> hosts"
proof -
  obtain c where c: "LoadConfig exampleConfigLib exampleSettings = Some (Inr c)"
    using exampleConfig by blast
  have "hostsLookedUp exampleNet examplePeers c = Some ({''seed.org''} \<union> {seedName n [''seed-'', ''.io''] | n. n < 99999})"
    using contacts_follow_configuration [OF c, of examplePeers exampleNet]
    by (simp add: examplePeers_def exampleSettings_def upperChar_def)
  moreover have "''seed-7.io'' = seedName 7 [''seed-'', ''.io'']"
    by (simp add: seedName_def decimal.simps digit_def)
  ultimately show ?thesis using c by (auto intro!: exI [of _ 7])
qed

text \<open>C40: What \<open>addIPsForHost\<close> hands to the address manager for a host: the first five addresses of the
  host at most, in order, at least one, on the port of the network and last seen 3 to 7 days ago, with
  the first of them as their source.\<close>

theorem discovered_addresses:
  assumes "addIPsForHost W P call n host = Some (netAddrs, source)"
    and "SecondsIn3Days W = 259200" and "SecondsIn4Days W = 345600"
    and "\<forall>k. 0 \<le> sint (RandInt32 W 345600 k) \<and> sint (RandInt32 W 345600 k) < 345600"
  shows "\<exists>ips. LookupIP W call host = Some ips \<and> map addrBytes netAddrs = take 5 ips \<and>
    1 \<le> length netAddrs \<and> length netAddrs \<le> 5 \<and> source = hd netAddrs \<and>
    (\<forall>a \<in> set netAddrs. addrPort a = DefaultSocketPort P \<and>
       3 * 86400 \<le> secondsAgo a \<and> secondsAgo a < 7 * 86400)"
proof -
  have age: "3 * 86400 \<le> randomAge W k \<and> randomAge W k < 7 * 86400" for k
  proof -
    have "sint (259200 + RandInt32 W 345600 k) = 259200 + sint (RandInt32 W 345600 k)"
      using spec [OF assms(4), of k]
      by (simp add: sint_word_ariths(1) signed_take_bit_int_eq_self)
    then show ?thesis using assms(2-4) by (simp add: randomAge_def)
  qed
  from assms(1) obtain ips where ips: "LookupIP W call host = Some ips" "ips \<noteq> []"
    and addrs: "netAddrs = map (\<lambda>(ii, a). \<lparr>secondsAgo = randomAge W (n + ii), services = 0, addrBytes = a,
      addrPort = DefaultSocketPort P\<rparr>) (zip [0..<length (take 5 ips)] (take 5 ips))"
    and source: "source = netAddrs ! 0"
    by (auto simp: addIPsForHost_def Let_def split: option.splits if_splits)
  have "map addrBytes netAddrs = take 5 ips"
    unfolding addrs by (simp add: case_prod_beta' comp_def)
  moreover from this have "length netAddrs = length (take 5 ips)" by (metis length_map)
  moreover have "\<forall>a \<in> set netAddrs. addrPort a = DefaultSocketPort P \<and>
       3 * 86400 \<le> secondsAgo a \<and> secondsAgo a < 7 * 86400"
    unfolding addrs using age by auto
  ultimately show ?thesis
    using ips source by (cases ips) (auto simp: hd_conv_nth)
qed

lemma discovered_addresses_witness:
  "\<exists>netAddrs source. addIPsForHost exampleNet examplePeers 0 0 ''seed.org'' = Some (netAddrs, source) \<and>
     map addrBytes netAddrs = [[10, 0, 0, 1], [10, 0, 0, 2], [10, 0, 0, 3], [10, 0, 0, 4], [10, 0, 0, 5]] \<and>
     source = hd netAddrs"
proof -
  obtain netAddrs source where r: "addIPsForHost exampleNet examplePeers 0 0 ''seed.org'' = Some (netAddrs, source)"
    by (simp add: addIPsForHost_def exampleNet_def Let_def)
  have "0 \<le> sint (RandInt32 exampleNet 345600 k) \<and> sint (RandInt32 exampleNet 345600 k) < 345600" for k
  proof -
    have "k mod 100 < 100" by simp
    then show ?thesis by (simp add: exampleNet_def signed_of_nat signed_take_bit_int_eq_self)
  qed
  then have "\<exists>ips. LookupIP exampleNet 0 ''seed.org'' = Some ips \<and> map addrBytes netAddrs = take 5 ips \<and>
      source = hd netAddrs"
    using discovered_addresses [OF r] by (auto simp: exampleNet_def)
  with r show ?thesis by (auto simp: exampleNet_def)
qed

end
