(* ===== verification/Lifecycle.thy ===== *)
theory Lifecycle
  imports Prelude
begin

text \<open>
  The life of the node in \<open>deso/node.go\<close>: \<open>Start\<close>, \<open>Stop\<close>, \<open>listenToRestart\<close> and the goroutine that
  waits for a signal, as threads that take atomic steps over the fields of the node. The statements
  between two steps touch nothing another thread reads. A node is started once by the command line,
  with one exit channel.
\<close>

section \<open>The state\<close>

type_synonym chan = nat

datatype NodeMessage = NodeRestart | NodeErase

text \<open>Why the process ended: a panic of the code, or a failure that it makes fatal.\<close>

datatype panicKind =
  CannotOpenDatabase | CannotCreateServer | CannotCloseDatabase | NotRunning | CloseOfClosedChannel | CannotErase

text \<open>
  The fields of \<open>Node\<close> (a nil channel is \<open>None\<close>), the channels that are closed, the first channel not
  used yet, which resources are in use, and the exit variables of callers that are not closed yet.
\<close>

record nodeState =
  isRunning :: bool
  mutexLocked :: bool
  internalExitChan :: "chan option"
  nodeMessageChan :: "chan option"
  closedChans :: "chan set"
  nextChan :: chan
  chainDBOpen :: bool
  indexDBOpen :: bool
  serverRunning :: bool
  openExits :: "nat set"
  panicked :: "panicKind option"

datatype startPc =
  StartLock | StartSpawn | StartOpen | StartIndex | StartServer | StartRun bool | StartFlag bool
| StartSend | StartWatch | StartUnlock

datatype stopPc = StopLock | StopCheck | StopServer | StopDatabases | StopClose | StopNil | StopUnlock

text \<open>What the caller of \<open>Stop\<close> does next: the listener restarts, the signal handler closes its exits.\<close>

datatype caller = AfterRestart NodeMessage | AfterSignal "nat list"

datatype thread =
  Start startPc "nat list"
| Stop stopPc caller
| Listen | ListenSelect "chan option" "chan option" | ListenCheck NodeMessage | ListenRestart NodeMessage
| Watch "nat list" | WatchSelect "chan option" "nat list" | WatchClose "nat list"
| Finished

type_synonym system = "nodeState \<times> thread multiset"

text \<open>\<open>NewNode\<close> makes two channels; \<open>cmd/run.go\<close> starts the node with the exit variable 0.\<close>

definition NewNode :: nodeState where
  "NewNode =
     \<lparr>isRunning = False, mutexLocked = False, internalExitChan = Some 0, nodeMessageChan = Some 1,
      closedChans = {}, nextChan = 2, chainDBOpen = False, indexDBOpen = False, serverRunning = False,
      openExits = {0}, panicked = None\<rparr>"

definition initial :: system where
  "initial = (NewNode, {#Start StartLock [0]#})"

text \<open>The command waits on its exit variable: it returns once that was closed.\<close>

definition commandReturns :: "nodeState \<Rightarrow> bool" where
  "commandReturns n \<longleftrightarrow> 0 \<notin> openExits n"

section \<open>The steps of one thread\<close>

text \<open>
  \<open>start_step n th n' th' spawned\<close>: in node \<open>n\<close> the thread \<open>th\<close> inside \<open>Start\<close> can take a step to
  \<open>th'\<close>, leaving node \<open>n'\<close> and starting the threads \<open>spawned\<close>. Opening the chain database of a
  running node fails on the lock of its directory; opening the index may fail too, but that error is not
  looked at. The step \<open>server_fails\<close> also stands for a failing statsd client or BLS key store.
\<close>

inductive start_step :: "nodeState \<Rightarrow> thread \<Rightarrow> nodeState \<Rightarrow> thread \<Rightarrow> thread multiset \<Rightarrow> bool" where
  lock: "\<not> mutexLocked n \<Longrightarrow>
    start_step n (Start StartLock ex) (n\<lparr>mutexLocked := True\<rparr>) (Start StartSpawn ex) {#}"
| spawn:
    "start_step n (Start StartSpawn ex)
       (n\<lparr>internalExitChan := Some (nextChan n), nodeMessageChan := Some (nextChan n + 1),
          nextChan := nextChan n + 2\<rparr>) (Start StartOpen ex) {#Listen#}"
| open_chain: "\<not> chainDBOpen n \<Longrightarrow>
    start_step n (Start StartOpen ex) (n\<lparr>chainDBOpen := True\<rparr>) (Start StartIndex ex) {#}"
| open_fails:
    "start_step n (Start StartOpen ex) (n\<lparr>panicked := Some CannotOpenDatabase\<rparr>) Finished {#}"
| index: "\<not> indexDBOpen n \<Longrightarrow>
    start_step n (Start StartIndex ex) (n\<lparr>indexDBOpen := True\<rparr>) (Start StartServer ex) {#}"
| index_fails:
    "start_step n (Start StartIndex ex) n (Start StartServer ex) {#}"
| server:
    "start_step n (Start StartServer ex) n (Start (StartRun shouldRestart) ex) {#}"
| server_fails:
    "start_step n (Start StartServer ex) (n\<lparr>panicked := Some CannotCreateServer\<rparr>) Finished {#}"
| run:
    "start_step n (Start (StartRun shouldRestart) ex)
       (n\<lparr>serverRunning := \<not> shouldRestart\<rparr>) (Start (StartFlag shouldRestart) ex) {#}"
| flag:
    "start_step n (Start (StartFlag shouldRestart) ex) (n\<lparr>isRunning := True\<rparr>)
       (Start (if shouldRestart then StartSend else StartWatch) ex) {#}"
| send_nil: "nodeMessageChan n = None \<Longrightarrow>
    start_step n (Start StartSend ex) n (Start StartWatch ex) {#}"
| watch:
    "start_step n (Start StartWatch ex) n (Start StartUnlock ex) {#Watch ex#}"
| unlock:
    "start_step n (Start StartUnlock ex) (n\<lparr>mutexLocked := False\<rparr>) Finished {#}"

definition afterStop :: "caller \<Rightarrow> thread" where
  "afterStop c = (case c of AfterRestart m \<Rightarrow> ListenRestart m | AfterSignal ex \<Rightarrow> WatchClose ex)"

text \<open>\<open>Stop\<close> with \<open>closeDb\<close>, whose two goroutines are waited for; then its caller goes on.\<close>

inductive stop_step :: "nodeState \<Rightarrow> thread \<Rightarrow> nodeState \<Rightarrow> thread \<Rightarrow> thread multiset \<Rightarrow> bool" where
  lock: "\<not> mutexLocked n \<Longrightarrow>
    stop_step n (Stop StopLock c) (n\<lparr>mutexLocked := True\<rparr>) (Stop StopCheck c) {#}"
| not_running: "\<not> isRunning n \<Longrightarrow>
    stop_step n (Stop StopCheck c) n (Stop StopUnlock c) {#}"
| running: "isRunning n \<Longrightarrow>
    stop_step n (Stop StopCheck c) (n\<lparr>isRunning := False\<rparr>) (Stop StopServer c) {#}"
| server:
    "stop_step n (Stop StopServer c) (n\<lparr>serverRunning := False\<rparr>) (Stop StopDatabases c) {#}"
| databases:
    "stop_step n (Stop StopDatabases c) (n\<lparr>chainDBOpen := False, indexDBOpen := False\<rparr>) (Stop StopClose c) {#}"
| databases_fails:
    "stop_step n (Stop StopDatabases c) (n\<lparr>panicked := Some CannotCloseDatabase\<rparr>) Finished {#}"
| close_nil: "internalExitChan n = None \<Longrightarrow>
    stop_step n (Stop StopClose c) n (Stop StopUnlock c) {#}"
| close: "internalExitChan n = Some ch \<Longrightarrow> ch \<notin> closedChans n \<Longrightarrow>
    stop_step n (Stop StopClose c) (n\<lparr>closedChans := insert ch (closedChans n)\<rparr>) (Stop StopNil c) {#}"
| close_closed: "internalExitChan n = Some ch \<Longrightarrow> ch \<in> closedChans n \<Longrightarrow>
    stop_step n (Stop StopClose c) (n\<lparr>panicked := Some CloseOfClosedChannel\<rparr>) Finished {#}"
| nil:
    "stop_step n (Stop StopNil c) (n\<lparr>internalExitChan := None\<rparr>) (Stop StopUnlock c) {#}"
| unlock:
    "stop_step n (Stop StopUnlock c) (n\<lparr>mutexLocked := False\<rparr>)
       (afterStop c) {#}"

text \<open>\<open>listenToRestart\<close>. Its first step evaluates the two channels of the \<open>select\<close>.\<close>

inductive listen_step :: "nodeState \<Rightarrow> thread \<Rightarrow> nodeState \<Rightarrow> thread \<Rightarrow> thread multiset \<Rightarrow> bool" where
  select:
    "listen_step n Listen n (ListenSelect (internalExitChan n) (nodeMessageChan n)) {#}"
| exit: "ch \<in> closedChans n \<Longrightarrow>
    listen_step n (ListenSelect (Some ch) msgs) n Finished {#}"
| server: "serverRunning n \<Longrightarrow> nodeMessageChan n = Some ch \<Longrightarrow>
    listen_step n (ListenSelect ex (Some ch)) n (ListenCheck m) {#}"
| not_running: "\<not> isRunning n \<Longrightarrow>
    listen_step n (ListenCheck m) (n\<lparr>panicked := Some NotRunning\<rparr>) Finished {#}"
| running: "isRunning n \<Longrightarrow>
    listen_step n (ListenCheck m) n (Stop StopLock (AfterRestart m)) {#}"
| restart:
    "listen_step n (ListenRestart m) n Finished {#Start StartLock []#}"
| erase_fails:
    "listen_step n (ListenRestart NodeErase) (n\<lparr>panicked := Some CannotErase\<rparr>) Finished {#}"

text \<open>The goroutine at the end of \<open>Start\<close> that waits for a signal.\<close>

inductive watch_step :: "nodeState \<Rightarrow> thread \<Rightarrow> nodeState \<Rightarrow> thread \<Rightarrow> thread multiset \<Rightarrow> bool" where
  select:
    "watch_step n (Watch ex) n (WatchSelect (internalExitChan n) ex) {#}"
| exit: "ch \<in> closedChans n \<Longrightarrow>
    watch_step n (WatchSelect (Some ch) ex) n Finished {#}"
| signal:
    "watch_step n (WatchSelect ch ex) n (Stop StopLock (AfterSignal ex)) {#}"
| close:
    "watch_step n (WatchClose ex) (n\<lparr>openExits := openExits n - set ex\<rparr>) Finished {#}"

inductive thread_step :: "nodeState \<Rightarrow> thread \<Rightarrow> nodeState \<Rightarrow> thread \<Rightarrow> thread multiset \<Rightarrow> bool" where
  start: "start_step n th n' th' spawned \<Longrightarrow> thread_step n th n' th' spawned"
| stop: "stop_step n th n' th' spawned \<Longrightarrow> thread_step n th n' th' spawned"
| listen: "listen_step n th n' th' spawned \<Longrightarrow> thread_step n th n' th' spawned"
| watch: "watch_step n th n' th' spawned \<Longrightarrow> thread_step n th n' th' spawned"

section \<open>The system\<close>

text \<open>
  One thread steps; or \<open>Start\<close> hands \<open>NodeRestart\<close> to a listener over the unbuffered message channel.
  Nothing steps after a panic.
\<close>

inductive step :: "system \<Rightarrow> system \<Rightarrow> bool" where
  local: "panicked n = None \<Longrightarrow> thread_step n th n' th' spawned \<Longrightarrow>
    step (n, add_mset th R) (n', add_mset th' (R + spawned))"
| send: "panicked n = None \<Longrightarrow> nodeMessageChan n = Some ch \<Longrightarrow>
    step (n, add_mset (Start StartSend ex) (add_mset (ListenSelect e (Some ch)) R))
         (n, add_mset (Start StartWatch ex) (add_mset (ListenCheck NodeRestart) R))"

inductive reachable :: "system \<Rightarrow> bool" where
  init: "reachable initial"
| step: "reachable s \<Longrightarrow> step s s' \<Longrightarrow> reachable s'"

lemmas thread_step_intros = thread_step.intros start_step.intros stop_step.intros listen_step.intros watch_step.intros

lemmas thread_stepE = thread_step.cases start_step.cases stop_step.cases listen_step.cases watch_step.cases

inductive_cases sendE: "step (n, {#Start StartSend ex#}) s"

lemma send_needs_listener: "nodeMessageChan n \<noteq> None \<Longrightarrow> \<not> step (n, {#Start StartSend ex#}) s"
  by (auto elim!: sendE thread_stepE)


section \<open>What every reachable state keeps\<close>

definition cnt :: "(thread \<Rightarrow> bool) \<Rightarrow> thread multiset \<Rightarrow> nat" where
  "cnt P T = size (filter_mset P T)"

lemma cnt_add [simp]: "cnt P (add_mset t T) = (if P t then Suc (cnt P T) else cnt P T)"
  by (simp add: cnt_def)

lemma cnt_union [simp]: "cnt P (T + U) = cnt P T + cnt P U"
  by (simp add: cnt_def)

lemma cnt_empty [simp]: "cnt P {#} = 0"
  by (simp add: cnt_def)

lemma cnt_pos: "t \<in># T \<Longrightarrow> P t \<Longrightarrow> 0 < cnt P T"
  by (induction T) auto

lemma cnt_mono: "(\<And>t. P t \<Longrightarrow> Q t) \<Longrightarrow> cnt P T \<le> cnt Q T"
  by (induction T) auto

text \<open>The threads that hold the mutex, and the phases of a start and of a restart.\<close>

fun critical :: "thread \<Rightarrow> bool" where
  "critical (Start pc ex) = (pc \<noteq> StartLock)"
| "critical (Stop pc c) = (pc \<noteq> StopLock)"
| "critical t = False"

fun starting :: "thread \<Rightarrow> bool" where
  "starting (Start (StartFlag b) ex) = False"
| "starting (Start pc ex) = (pc \<noteq> StartSend \<and> pc \<noteq> StartWatch \<and> pc \<noteq> StartUnlock)"
| "starting t = False"

text \<open>Between the start of the server and \<open>isRunning = true\<close>; \<open>serverFirst\<close> when it was started.\<close>

fun flagging :: "thread \<Rightarrow> bool" where
  "flagging (Start (StartFlag b) ex) = True"
| "flagging t = False"

fun serverFirst :: "thread \<Rightarrow> bool" where
  "serverFirst (Start (StartFlag b) ex) = (\<not> b)"
| "serverFirst t = False"

fun toRestart :: "caller \<Rightarrow> bool" where
  "toRestart (AfterRestart m) = True"
| "toRestart (AfterSignal ex) = False"

fun restarting :: "thread \<Rightarrow> bool" where
  "restarting (ListenCheck m) = True"
| "restarting (ListenRestart m) = True"
| "restarting (Stop pc c) = toRestart c"
| "restarting t = False"

fun beforeListener :: "thread \<Rightarrow> bool" where
  "beforeListener (Start pc ex) = (pc = StartLock \<or> pc = StartSpawn)"
| "beforeListener t = False"

fun listening :: "thread \<Rightarrow> bool" where
  "listening Listen = True"
| "listening (ListenSelect e c) = True"
| "listening t = False"

fun sending :: "thread \<Rightarrow> bool" where
  "sending (Start pc ex) = (pc = StartSend)"
| "sending t = False"

fun opened :: "thread \<Rightarrow> bool" where
  "opened (Start pc ex) = (pc = StartIndex \<or> pc = StartServer \<or> (\<exists>b. pc = StartRun b \<or> pc = StartFlag b))"
| "opened (Stop pc c) = (pc = StopServer \<or> pc = StopDatabases)"
| "opened t = False"

fun openedIndex :: "thread \<Rightarrow> bool" where
  "openedIndex (Start pc ex) = (pc = StartServer \<or> (\<exists>b. pc = StartRun b \<or> pc = StartFlag b))"
| "openedIndex (Stop pc c) = (pc = StopServer \<or> pc = StopDatabases)"
| "openedIndex t = False"

fun stoppingServer :: "thread \<Rightarrow> bool" where
  "stoppingServer (Stop pc c) = (pc = StopServer)"
| "stoppingServer t = False"

fun stopping :: "thread \<Rightarrow> bool" where
  "stopping (Stop pc c) = (pc = StopServer \<or> pc = StopDatabases)"
| "stopping t = False"

fun stoppedToRestart :: "thread \<Rightarrow> bool" where
  "stoppedToRestart (Stop pc c) = (toRestart c \<and> pc \<noteq> StopLock \<and> pc \<noteq> StopCheck)"
| "stoppedToRestart (ListenRestart m) = True"
| "stoppedToRestart t = False"

fun aboutToStart :: "thread \<Rightarrow> bool" where
  "aboutToStart (ListenRestart m) = True"
| "aboutToStart t = False"

fun afterClose :: "thread \<Rightarrow> bool" where
  "afterClose (Stop pc c) = (pc = StopNil)"
| "afterClose t = False"

lemma afterStop_phases [simp]:
  "\<not> critical (afterStop c)" "\<not> starting (afterStop c)" "\<not> flagging (afterStop c)" "\<not> serverFirst (afterStop c)"
  "restarting (afterStop c) = toRestart c" "stoppedToRestart (afterStop c) = toRestart c"
  "aboutToStart (afterStop c) = toRestart c" "\<not> beforeListener (afterStop c)" "\<not> listening (afterStop c)"
  "\<not> sending (afterStop c)" "\<not> opened (afterStop c)" "\<not> openedIndex (afterStop c)"
  "\<not> stoppingServer (afterStop c)" "\<not> stopping (afterStop c)" "\<not> afterClose (afterStop c)"
  by (cases c; simp add: afterStop_def)+

text \<open>The invariant: who holds the mutex, who may start and restart, and what they leave in use.\<close>

definition mutexInv :: "nodeState \<Rightarrow> thread multiset \<Rightarrow> bool" where
  "mutexInv n T \<longleftrightarrow>
     cnt critical T = (if mutexLocked n then 1 else 0) \<and>
     cnt starting T + cnt restarting T \<le> 1 \<and>
     cnt beforeListener T + cnt listening T + cnt restarting T \<le> 1 \<and>
     (isRunning n \<longrightarrow> cnt starting T = 0 \<and> cnt stoppedToRestart T = 0) \<and>
     (0 < cnt flagging T \<longrightarrow> \<not> isRunning n \<and> cnt starting T = 0 \<and> cnt stoppedToRestart T = 0) \<and>
     (0 < cnt stopping T \<longrightarrow> \<not> isRunning n \<and> cnt starting T = 0 \<and> cnt aboutToStart T = 0) \<and>
     (0 < cnt sending T \<longrightarrow> isRunning n)"

definition resourceInv :: "nodeState \<Rightarrow> thread multiset \<Rightarrow> bool" where
  "resourceInv n T \<longleftrightarrow>
     chainDBOpen n = (isRunning n \<or> 0 < cnt opened T) \<and>
     (indexDBOpen n \<longrightarrow> isRunning n \<or> 0 < cnt openedIndex T) \<and>
     (serverRunning n \<longrightarrow> isRunning n \<or> 0 < cnt stoppingServer T \<or> 0 < cnt serverFirst T)"

definition channelInv :: "nodeState \<Rightarrow> thread multiset \<Rightarrow> bool" where
  "channelInv n T \<longleftrightarrow>
     closedChans n \<subseteq> {..<nextChan n} \<and>
     (\<forall>c. internalExitChan n = Some c \<longrightarrow> c < nextChan n \<and> (c \<in> closedChans n \<longrightarrow> 0 < cnt afterClose T))"

definition lifecycleInv :: "system \<Rightarrow> bool" where
  "lifecycleInv s \<longleftrightarrow>
     (panicked (fst s) = None \<longrightarrow>
        mutexInv (fst s) (snd s) \<and> resourceInv (fst s) (snd s) \<and> channelInv (fst s) (snd s)) \<and>
     panicked (fst s) \<noteq> Some CloseOfClosedChannel"

lemma phase_counts:
  "cnt opened T \<le> cnt critical T" "cnt openedIndex T \<le> cnt opened T"
  "cnt stoppingServer T \<le> cnt stopping T" "cnt stopping T \<le> cnt openedIndex T" "cnt sending T \<le> cnt critical T"
  "cnt afterClose T \<le> cnt critical T" "cnt stoppedToRestart T \<le> cnt restarting T"
  "cnt beforeListener T \<le> cnt starting T" "cnt aboutToStart T \<le> cnt stoppedToRestart T"
  "cnt serverFirst T \<le> cnt flagging T" "cnt flagging T \<le> cnt critical T"
proof -
  show "cnt opened T \<le> cnt critical T" by (rule cnt_mono) (erule opened.elims; auto)
  show "cnt openedIndex T \<le> cnt opened T" by (rule cnt_mono) (erule openedIndex.elims; auto)
  show "cnt stoppingServer T \<le> cnt stopping T" by (rule cnt_mono) (erule stoppingServer.elims; auto)
  show "cnt stopping T \<le> cnt openedIndex T" by (rule cnt_mono) (erule stopping.elims; auto)
  show "cnt sending T \<le> cnt critical T" by (rule cnt_mono) (erule sending.elims; auto)
  show "cnt afterClose T \<le> cnt critical T" by (rule cnt_mono) (erule afterClose.elims; auto)
  show "cnt stoppedToRestart T \<le> cnt restarting T" by (rule cnt_mono) (erule stoppedToRestart.elims; auto)
  show "cnt beforeListener T \<le> cnt starting T" by (rule cnt_mono) (erule beforeListener.elims; auto)
  show "cnt aboutToStart T \<le> cnt stoppedToRestart T" by (rule cnt_mono) (erule aboutToStart.elims; auto)
  show "cnt serverFirst T \<le> cnt flagging T" by (rule cnt_mono) (erule serverFirst.elims; auto)
  show "cnt flagging T \<le> cnt critical T" by (rule cnt_mono) (erule flagging.elims; auto)
qed

lemma mutex_counts:
  "cnt stoppingServer T \<le> cnt critical T" "cnt stopping T \<le> cnt critical T" "cnt sending T \<le> cnt critical T"
  "cnt stoppedToRestart T \<le> cnt restarting T" "cnt aboutToStart T \<le> cnt stoppedToRestart T"
  "cnt flagging T \<le> cnt critical T"
  using phase_counts [of T] by linarith+

lemma mutexInv_step:
  assumes "thread_step n th n' th' spawned" and "mutexInv n (add_mset th R)"
    and "resourceInv n (add_mset th R)" and "panicked n' = None"
  shows "mutexInv n' (add_mset th' (R + spawned))"
proof -
  have "serverRunning n \<Longrightarrow> \<not> critical th \<Longrightarrow> isRunning n \<or> 0 < cnt stopping R \<or> 0 < cnt flagging R"
    using assms(3) phase_counts(3,10) [of R]
    by (cases th) (auto simp: resourceInv_def split: if_splits)
  then show ?thesis
    using assms(1,2,4) mutex_counts [of R]
    by (elim thread_stepE; auto simp: mutexInv_def split: if_splits)
qed

lemma resourceInv_step:
  assumes "thread_step n th n' th' spawned" and "mutexInv n (add_mset th R)"
    and "resourceInv n (add_mset th R)" and "panicked n' = None"
  shows "resourceInv n' (add_mset th' (R + spawned))"
  using assms phase_counts [of R]
  by (elim thread_stepE; auto simp: mutexInv_def resourceInv_def split: if_splits)

lemma channelInv_step:
  assumes "thread_step n th n' th' spawned" and "mutexInv n (add_mset th R)"
    and "channelInv n (add_mset th R)" and "panicked n' = None"
  shows "channelInv n' (add_mset th' (R + spawned))"
  using assms phase_counts [of R]
  by (elim thread_stepE; auto simp: mutexInv_def channelInv_def split: if_splits)

lemma never_closes_twice:
  assumes "thread_step n th n' th' spawned" and "mutexInv n (add_mset th R)"
    and "channelInv n (add_mset th R)" and "panicked n = None"
  shows "panicked n' \<noteq> Some CloseOfClosedChannel"
  using assms phase_counts [of R]
  by (elim thread_stepE; auto simp: mutexInv_def channelInv_def split: if_splits)

lemma lifecycleInv_step: "step s s' \<Longrightarrow> lifecycleInv s \<Longrightarrow> lifecycleInv s'"
proof (induction rule: step.induct)
  case (local n th n' th' spawned R)
  then have "mutexInv n (add_mset th R)" "resourceInv n (add_mset th R)" "channelInv n (add_mset th R)"
    by (auto simp: lifecycleInv_def)
  with local show ?case
    by (auto simp: lifecycleInv_def intro: mutexInv_step resourceInv_step channelInv_step
        dest: never_closes_twice)
next
  case (send n ch ex e R)
  then show ?case
    by (auto simp: lifecycleInv_def mutexInv_def resourceInv_def channelInv_def split: if_splits)
qed

lemma reachable_inv: "reachable s \<Longrightarrow> lifecycleInv s"
proof (induction rule: reachable.induct)
  case init
  show ?case
    by (simp add: initial_def NewNode_def lifecycleInv_def mutexInv_def resourceInv_def channelInv_def)
qed (rule lifecycleInv_step)


section \<open>The listener that waits for a restart at startup\<close>

fun awaiting :: "thread \<Rightarrow> bool" where
  "awaiting (Start (StartFlag b) ex) = b"
| "awaiting (Start pc ex) =
     (pc \<noteq> StartLock \<and> pc \<noteq> StartSpawn \<and> pc \<noteq> StartWatch \<and> pc \<noteq> StartUnlock)"
| "awaiting t = False"

definition currentListener :: "chan option \<Rightarrow> chan option \<Rightarrow> thread \<Rightarrow> bool" where
  "currentListener e c t \<longleftrightarrow> t = Listen \<or> t = ListenSelect e c"

definition listenerInv :: "nodeState \<Rightarrow> thread multiset \<Rightarrow> bool" where
  "listenerInv n T \<longleftrightarrow>
     (0 < cnt awaiting T \<longrightarrow>
        \<not> serverRunning n \<and> 0 < cnt (currentListener (internalExitChan n) (nodeMessageChan n)) T \<and>
        (\<exists>c e. nodeMessageChan n = Some c \<and> internalExitChan n = Some e \<and> e \<notin> closedChans n))"

lemma afterStop_waits [simp]: "\<not> awaiting (afterStop c)" "\<not> currentListener e ch (afterStop c)"
  by (cases c; simp add: afterStop_def currentListener_def)+

lemma awaiting_critical: "cnt awaiting T \<le> cnt critical T"
  by (rule cnt_mono) (erule awaiting.elims; auto)

lemma listenerInv_step:
  assumes "thread_step n th n' th' spawned" and "mutexInv n (add_mset th R)"
    and "resourceInv n (add_mset th R)" and "channelInv n (add_mset th R)"
    and "listenerInv n (add_mset th R)" and "panicked n' = None"
  shows "listenerInv n' (add_mset th' (R + spawned))"
proof -
  have alone: "critical th \<Longrightarrow> cnt awaiting R = 0"
    using assms(2) awaiting_critical [of R] by (auto simp: mutexInv_def split: if_splits)
  have fresh: "nextChan n \<notin> closedChans n"
    using assms(4) by (auto simp: channelInv_def)
  have quiet: "\<not> serverRunning n" if "th = Start StartSpawn ex" for ex
    using that assms(2,3) phase_counts [of R] by (auto simp: mutexInv_def resourceInv_def split: if_splits)
  show ?thesis
    using assms(1,5,6) alone fresh quiet
    by (elim thread_stepE; auto simp: listenerInv_def currentListener_def split: if_splits)
qed

lemma reachable_listener: "reachable s \<Longrightarrow> panicked (fst s) = None \<Longrightarrow> listenerInv (fst s) (snd s)"
proof (induction rule: reachable.induct)
  case init
  show ?case by (simp add: initial_def listenerInv_def)
next
  case (step s s')
  from step.hyps(2) reachable_inv [OF step.hyps(1)] step.IH step.prems show ?case
  proof (cases rule: step.cases)
    case (local n th n' th' spawned R)
    with reachable_inv [OF step.hyps(1)] step.IH step.prems show ?thesis
      by (auto simp: lifecycleInv_def intro: listenerInv_step)
  next
    case (send n ch ex e R)
    with reachable_inv [OF step.hyps(1)] awaiting_critical [of R] show ?thesis
      by (auto simp: lifecycleInv_def mutexInv_def listenerInv_def split: if_splits)
  qed
qed


section \<open>The mutex is released\<close>

fun rank :: "thread \<Rightarrow> nat" where
  "rank (Start StartLock ex) = 0"
| "rank (Start StartSpawn ex) = 18"
| "rank (Start StartOpen ex) = 16"
| "rank (Start StartIndex ex) = 14"
| "rank (Start StartServer ex) = 12"
| "rank (Start (StartRun b) ex) = 10"
| "rank (Start (StartFlag b) ex) = 8"
| "rank (Start StartSend ex) = 6"
| "rank (Start StartWatch ex) = 4"
| "rank (Start StartUnlock ex) = 2"
| "rank (Stop StopLock c) = 0"
| "rank (Stop StopCheck c) = 12"
| "rank (Stop StopServer c) = 10"
| "rank (Stop StopDatabases c) = 8"
| "rank (Stop StopClose c) = 6"
| "rank (Stop StopNil c) = 4"
| "rank (Stop StopUnlock c) = 2"
| "rank Listen = 1"
| "rank t = 0"

lemma rank_afterStop [simp]: "rank (afterStop c) = 0"
  by (cases c) (simp_all add: afterStop_def)

definition work :: "thread multiset \<Rightarrow> nat" where
  "work T = sum_mset (image_mset rank T)"

lemma work_add [simp]: "work (add_mset t T) = rank t + work T" and work_union [simp]: "work (T + U) = work T + work U"
  and work_empty [simp]: "work {#} = 0"
  by (simp_all add: work_def)

text \<open>A thread that holds the mutex can step, without a panic; a \<open>Start\<close> that sends needs its listener.\<close>

lemma holder_steps:
  assumes "critical th" and "\<And>ex. th \<noteq> Start StartSend ex" and "panicked n = None"
    and "\<And>ex. th = Start StartOpen ex \<Longrightarrow> \<not> chainDBOpen n"
    and "\<And>c ch. th = Stop StopClose c \<Longrightarrow> internalExitChan n = Some ch \<Longrightarrow> ch \<notin> closedChans n"
  shows "\<exists>n' th' spawned. thread_step n th n' th' spawned \<and> panicked n' = None
    \<and> rank th' + work spawned < rank th"
proof (cases th)
  case (Start pc ex)
  with assms show ?thesis
    by (cases pc) (fastforce intro: thread_step_intros)+
next
  case (Stop pc c)
  show ?thesis
  proof (cases "pc = StopClose")
    case True
    with assms Stop show ?thesis
      by (cases "internalExitChan n") (fastforce intro: thread_step_intros)+
  next
    case False
    with assms Stop show ?thesis
      by (cases pc; cases "isRunning n"; cases c) (fastforce intro: thread_step_intros)+
  qed
qed (use assms in auto)


lemma cnt_pos_split:
  assumes "0 < cnt P T"
  obtains t R where "P t" and "T = add_mset t R"
proof -
  from assms have "\<exists>t. t \<in># T \<and> P t" by (induction T) (auto split: if_splits)
  then show ?thesis using that by (metis insert_DiffM)
qed

lemma locked_steps:
  assumes "reachable (n, T)" and "panicked n = None" and "mutexLocked n"
  shows "\<exists>n' T'. step (n, T) (n', T') \<and> panicked n' = None \<and> work T' < work T"
proof -
  from reachable_inv [OF assms(1)] reachable_listener [OF assms(1)] assms(2)
  have inv: "mutexInv n T" "resourceInv n T" "channelInv n T" "listenerInv n T"
    by (auto simp: lifecycleInv_def)
  with assms(3) have "0 < cnt critical T" by (simp add: mutexInv_def)
  then obtain th R where th: "critical th" and T: "T = add_mset th R" by (rule cnt_pos_split)
  show ?thesis
  proof (cases "\<exists>ex. th = Start StartSend ex")
    case True
    then obtain ex where ex: "th = Start StartSend ex" by blast
    with inv(4) T obtain c where c: "nodeMessageChan n = Some c"
      and "0 < cnt (currentListener (internalExitChan n) (Some c)) R"
      by (auto simp: listenerInv_def currentListener_def)
    then obtain l R' where l: "currentListener (internalExitChan n) (Some c) l" and R: "R = add_mset l R'"
      by (auto elim: cnt_pos_split)
    show ?thesis
    proof (cases "l = Listen")
      case True
      have "step (n, add_mset Listen (add_mset th R'))
          (n, add_mset (ListenSelect (internalExitChan n) (nodeMessageChan n)) (add_mset th R' + {#}))"
        by (rule step.local [OF assms(2)]) (rule thread_step.listen [OF listen_step.select])
      then show ?thesis
        using True T R assms(2) by (force simp: add_mset_commute)
    next
      case False
      with l have "l = ListenSelect (internalExitChan n) (Some c)" by (simp add: currentListener_def)
      with step.send [OF assms(2) c, of ex "internalExitChan n" R'] T R ex assms(2) show ?thesis by force
    qed
  next
    case False
    have "\<not> chainDBOpen n" if "th = Start StartOpen ex" for ex
      using that inv T phase_counts [of R] by (auto simp: mutexInv_def resourceInv_def split: if_splits)
    moreover have "ch \<notin> closedChans n" if "th = Stop StopClose c" "internalExitChan n = Some ch" for c ch
      using that inv T phase_counts [of R] by (auto simp: mutexInv_def channelInv_def split: if_splits)
    ultimately obtain n' th' spawned where "thread_step n th n' th' spawned" "panicked n' = None"
      "rank th' + work spawned < rank th"
      using holder_steps [OF th _ assms(2)] False by metis
    then show ?thesis
      using step.local [OF assms(2)] T by fastforce
  qed
qed

lemma mutex_released_by_steps:
  "reachable (n, T) \<Longrightarrow> panicked n = None \<Longrightarrow>
   \<exists>n' T'. step\<^sup>*\<^sup>* (n, T) (n', T') \<and> panicked n' = None \<and> \<not> mutexLocked n'"
proof (induction "work T" arbitrary: n T rule: less_induct)
  case less
  show ?case
  proof (cases "mutexLocked n")
    case True
    with locked_steps [OF less.prems] obtain n' T' where
      "step (n, T) (n', T')" "panicked n' = None" "work T' < work T" by blast
    moreover from this have "reachable (n', T')" using less.prems reachable.step by blast
    ultimately show ?thesis using less.hyps by (meson converse_rtranclp_into_rtranclp)
  next
    case False
    with less.prems show ?thesis by blast
  qed
qed

section \<open>What holds of the running program\<close>

lemma critical_count: "reachable (n, T) \<Longrightarrow> panicked n = None \<Longrightarrow>
  cnt critical T = (if mutexLocked n then 1 else 0)"
  using reachable_inv [of "(n, T)"] by (simp add: lifecycleInv_def mutexInv_def)

lemma opened_split: "cnt opened T \<le> cnt starting T + cnt flagging T + cnt stopping T"
proof (induction T)
  case (add t T)
  have "opened t \<Longrightarrow> starting t \<or> flagging t \<or> stopping t" by (erule opened.elims) auto
  with add show ?case by auto
qed simp

lemma directory_unused:
  assumes "reachable (n, T)" and "panicked n = None" and "ListenRestart m \<in># T"
  shows "\<not> isRunning n \<and> \<not> chainDBOpen n \<and> \<not> indexDBOpen n \<and> \<not> serverRunning n"
proof -
  obtain R where "T = add_mset (ListenRestart m) R" using assms(3) by (metis insert_DiffM)
  with reachable_inv [OF assms(1)] assms(2) phase_counts [of R] opened_split [of R] show ?thesis
    by (auto simp: lifecycleInv_def mutexInv_def resourceInv_def split: if_splits)
qed


section \<open>Runs of one operation\<close>

lemma run_step:
  assumes "panicked n = None" and "thread_step n th n' th' spawned"
    and "step\<^sup>*\<^sup>* (n', add_mset th' (R + spawned)) s"
  shows "step\<^sup>*\<^sup>* (n, add_mset th R) s"
  using step.local [OF assms(1,2)] assms(3) by (rule converse_rtranclp_into_rtranclp)

definition startedNode :: "nodeState \<Rightarrow> nodeState" where
  "startedNode n =
     n\<lparr>mutexLocked := False, internalExitChan := Some (nextChan n), nodeMessageChan := Some (nextChan n + 1),
       nextChan := nextChan n + 2, chainDBOpen := True, indexDBOpen := True, serverRunning := True,
       isRunning := True\<rparr>"

definition stoppedNode :: "nodeState \<Rightarrow> nodeState" where
  "stoppedNode n =
     n\<lparr>mutexLocked := False, isRunning := False, serverRunning := False, chainDBOpen := False,
       indexDBOpen := False, internalExitChan := None,
       closedChans := set_option (internalExitChan n) \<union> closedChans n\<rparr>"

text \<open>\<open>Start\<close> up to the index, from the server to the flag, and its end.\<close>

definition openedNode :: "nodeState \<Rightarrow> nodeState" where
  "openedNode n =
     n\<lparr>mutexLocked := True, internalExitChan := Some (nextChan n), nodeMessageChan := Some (nextChan n + 1),
       nextChan := nextChan n + 2, chainDBOpen := True\<rparr>"

lemma start_to_index:
  assumes "panicked n = None" and "\<not> mutexLocked n" and "\<not> chainDBOpen n"
  shows "step\<^sup>*\<^sup>* (n, add_mset (Start StartLock ex) R)
    (openedNode n, add_mset (Start StartIndex ex) (add_mset Listen R))"
  apply (rule run_step [OF _ thread_step.start [OF start_step.lock]], simp_all only: assms simp_thms)
  apply (rule run_step [OF _ thread_step.start [OF start_step.spawn]], simp add: assms)
  apply (rule run_step [OF _ thread_step.start [OF start_step.open_chain]], simp_all add: assms)
  apply (cases n; simp add: openedNode_def)
  done

lemma start_to_flag:
  assumes "panicked n = None"
  shows "step\<^sup>*\<^sup>* (n, add_mset (Start StartServer ex) R)
    (n\<lparr>serverRunning := \<not> b, isRunning := True\<rparr>,
     add_mset (Start (if b then StartSend else StartWatch) ex) R)"
  apply (rule run_step [OF assms thread_step.start [OF start_step.server [where shouldRestart = b]]])
  apply (rule run_step [OF assms thread_step.start [OF start_step.run]])
  apply (rule run_step [OF _ thread_step.start [OF start_step.flag]])
  apply (simp_all add: assms)
  done

lemma start_to_end:
  assumes "panicked n = None"
  shows "step\<^sup>*\<^sup>* (n, add_mset (Start StartWatch ex) R)
    (n\<lparr>mutexLocked := False\<rparr>, add_mset Finished (add_mset (Watch ex) R))"
  apply (rule run_step [OF _ thread_step.start [OF start_step.watch]], simp_all add: assms)
  apply (rule run_step [OF _ thread_step.start [OF start_step.unlock]], simp_all add: assms)
  done

lemma start_run_alone:
  assumes "panicked n = None" and "\<not> mutexLocked n" and "\<not> chainDBOpen n" and "\<not> indexDBOpen n"
  shows "step\<^sup>*\<^sup>* (n, add_mset (Start StartLock ex) R)
    (startedNode n, add_mset Finished (add_mset (Watch ex) (add_mset Listen R)))"
  apply (rule rtranclp_trans [OF start_to_index], simp_all add: assms)
  apply (rule run_step [OF _ thread_step.start [OF start_step.index]], simp_all add: assms openedNode_def)
  apply (rule rtranclp_trans [OF start_to_flag [where b = False]], simp_all add: assms)
  apply (rule rtranclp_trans [OF start_to_end], simp_all add: assms)
  apply (cases n; simp add: startedNode_def)
  done

lemma stop_run_alone:
  assumes "panicked n = None" and "\<not> mutexLocked n" and "isRunning n"
    and "internalExitChan n = Some ch" and "ch \<notin> closedChans n"
  shows "step\<^sup>*\<^sup>* (n, add_mset (Stop StopLock c) R)
    (stoppedNode n, add_mset (afterStop c) R)"
  apply (rule run_step [OF _ thread_step.stop [OF stop_step.lock]], simp_all add: assms)
  apply (rule run_step [OF _ thread_step.stop [OF stop_step.running]], simp_all add: assms)
  apply (rule run_step [OF _ thread_step.stop [OF stop_step.server]], simp_all add: assms)
  apply (rule run_step [OF _ thread_step.stop [OF stop_step.databases]], simp_all add: assms)
  apply (rule run_step [OF _ thread_step.stop [OF stop_step.close [where ch = ch]]], simp_all add: assms)
  apply (rule run_step [OF _ thread_step.stop [OF stop_step.nil]], simp_all add: assms)
  apply (rule run_step [OF _ thread_step.stop [OF stop_step.unlock]], simp_all add: assms)
  apply (cases n; use assms in \<open>simp add: stoppedNode_def\<close>)
  done


lemma reachable_steps:
  assumes "reachable s" and "step\<^sup>*\<^sup>* s s'"
  shows "reachable s'"
  using assms(2) by (induction rule: rtranclp_induct) (auto intro: assms(1) reachable.step)

lemma run_thread:
  assumes "panicked n = None" and "th \<in># T" and "thread_step n th n' th' spawned"
    and "step\<^sup>*\<^sup>* (n', add_mset th' (T - {#th#} + spawned)) s"
  shows "step\<^sup>*\<^sup>* (n, T) s"
  using run_step [OF assms(1,3,4)] assms(2) by simp

lemmas node_simps = afterStop_def NewNode_def startedNode_def stoppedNode_def

text \<open>A node that runs, with its listener and its signal handler at their selects.\<close>

definition running :: system where
  "running = (startedNode NewNode,
     {#ListenSelect (Some 2) (Some 3), WatchSelect (Some 2) [0], Finished#})"

lemma running_steps: "step\<^sup>*\<^sup>* initial running"
proof -
  let ?n = "startedNode NewNode"
  have "step\<^sup>*\<^sup>* initial (?n, {#Finished, Watch [0], Listen#})"
    unfolding initial_def by (rule start_run_alone) (simp_all add: NewNode_def)
  moreover have "step\<^sup>*\<^sup>* (?n, {#Finished, Watch [0], Listen#}) running"
    apply (rule run_thread [OF _ _ thread_step.listen [OF listen_step.select]], simp_all add: node_simps)
    apply (rule run_thread [OF _ _ thread_step.watch [OF watch_step.select [where ex = "[0]"]]], simp_all)
    apply (simp add: running_def node_simps add_mset_commute)
    done
  ultimately show ?thesis by (rule rtranclp_trans)
qed

lemma running_reachable: "reachable running"
  using reachable.init running_steps by (rule reachable_steps)

text \<open>The server asks for a restart: the listener stops the node and is about to start it again.\<close>

definition restartable :: "NodeMessage \<Rightarrow> system" where
  "restartable m = (stoppedNode (startedNode NewNode), {#ListenRestart m, WatchSelect (Some 2) [0], Finished#})"

lemma restartable_reachable: "reachable (restartable m)"
proof -
  let ?n = "startedNode NewNode" and ?R = "{#WatchSelect (Some 2) [0], Finished#}"
  have "step\<^sup>*\<^sup>* running (restartable m)"
    apply (simp add: running_def)
    apply (rule run_thread [OF _ _ thread_step.listen [OF listen_step.server [where m = m]]], simp_all add: node_simps)
    apply (rule run_thread [OF _ _ thread_step.listen [OF listen_step.running]], simp_all)
    apply (rule rtranclp_trans [OF stop_run_alone [where ch = 2]], simp_all)
    apply (simp add: restartable_def node_simps)
    done
  then show ?thesis by (rule reachable_steps [OF running_reachable])
qed


lemma opens_once:
  assumes "reachable (n, T)" and "panicked n = None"
  shows "Start StartOpen ex \<in># T \<Longrightarrow> \<not> chainDBOpen n" and "Start StartIndex ex \<in># T \<Longrightarrow> \<not> indexDBOpen n"
proof -
  from reachable_inv [OF assms(1)] assms(2) have inv: "mutexInv n T" "resourceInv n T"
    by (auto simp: lifecycleInv_def)
  show "\<not> chainDBOpen n" if "Start StartOpen ex \<in># T"
  proof -
    from that obtain R where "T = add_mset (Start StartOpen ex) R" by (metis insert_DiffM)
    with inv phase_counts [of R] show ?thesis
      by (auto simp: mutexInv_def resourceInv_def split: if_splits)
  qed
  show "\<not> indexDBOpen n" if "Start StartIndex ex \<in># T"
  proof -
    from that obtain R where "T = add_mset (Start StartIndex ex) R" by (metis insert_DiffM)
    with inv phase_counts [of R] show ?thesis
      by (auto simp: mutexInv_def resourceInv_def split: if_splits)
  qed
qed

lemma reachable_resources:
  assumes "reachable (n, T)" and "panicked n = None"
  shows "size (filter_mset critical T) \<le> 1" and "isRunning n \<Longrightarrow> chainDBOpen n"
  using reachable_inv [OF assms(1)] assms(2)
  by (auto simp: lifecycleInv_def mutexInv_def resourceInv_def cnt_def)

section \<open>The properties\<close>

text \<open>C35: In every state of the node's life no channel was closed twice, and until a panic at most one
  \<open>Start\<close> or \<open>Stop\<close> is past the mutex, a running node has its chain database open, \<open>Start\<close> never opens
  a database that is open, and when the data directory may be erased the node is stopped, with its
  server and both databases closed.\<close>

theorem lifecycle_safe:
  assumes "reachable (n, T)"
  shows "panicked n \<noteq> Some CloseOfClosedChannel \<and>
    (panicked n = None \<longrightarrow> size (filter_mset critical T) \<le> 1 \<and>
       (isRunning n \<longrightarrow> chainDBOpen n) \<and>
       (\<forall>ex. Start StartOpen ex \<in># T \<longrightarrow> \<not> chainDBOpen n) \<and>
       (\<forall>ex. Start StartIndex ex \<in># T \<longrightarrow> \<not> indexDBOpen n) \<and>
       (\<forall>m. ListenRestart m \<in># T \<longrightarrow>
          \<not> isRunning n \<and> \<not> serverRunning n \<and> \<not> chainDBOpen n \<and> \<not> indexDBOpen n))"
proof -
  have "panicked n \<noteq> Some CloseOfClosedChannel"
    using reachable_inv [OF assms] by (simp add: lifecycleInv_def)
  then show ?thesis
    using opens_once [OF assms] reachable_resources [OF assms] directory_unused [OF assms] by blast
qed

lemma lifecycle_safe_witness:
  "\<exists>n T. reachable (n, T) \<and> ListenRestart NodeErase \<in># T \<and> \<not> chainDBOpen n \<and> \<not> indexDBOpen n"
proof -
  let ?n = "stoppedNode (startedNode NewNode)"
  have r: "reachable (?n, {#ListenRestart NodeErase, WatchSelect (Some 2) [0], Finished#})"
    using restartable_reachable [of NodeErase] by (simp add: restartable_def)
  have "panicked ?n = None" by (simp add: node_simps)
  with lifecycle_safe [OF r] have "\<not> chainDBOpen ?n \<and> \<not> indexDBOpen ?n" by simp
  with r show ?thesis by fastforce
qed

text \<open>C36: \<open>Start\<close> and \<open>Stop\<close> do not deadlock: from every state in which one of them holds the mutex there are
  steps to a state without a panic in which it is released, even when \<open>Start\<close> holds it while it hands
  \<open>NodeRestart\<close> to the listener over the unbuffered channel.\<close>

theorem mutex_is_released:
  assumes "reachable (n, T)" and "panicked n = None"
  shows "\<exists>n' T'. step\<^sup>*\<^sup>* (n, T) (n', T') \<and> panicked n' = None \<and> \<not> mutexLocked n'"
  by (rule mutex_released_by_steps [OF assms])

text \<open>A first start that finds it must restart: the node is marked running and sends while locked.\<close>

definition sendingNode :: nodeState where
  "sendingNode = (startedNode NewNode)\<lparr>mutexLocked := True, serverRunning := False\<rparr>"

lemma sending_reachable: "reachable (sendingNode, {#Start StartSend [0], Listen#})"
proof -
  have "step\<^sup>*\<^sup>* initial (sendingNode, {#Start StartSend [0], Listen#})"
    unfolding initial_def
    apply (rule rtranclp_trans [OF start_to_index], simp_all add: NewNode_def)
    apply (rule run_step [OF _ thread_step.start [OF start_step.index]], simp_all add: openedNode_def)
    apply (rule rtranclp_trans [OF start_to_flag [where b = True]], simp_all add: sendingNode_def node_simps)
    done
  then show ?thesis by (rule reachable_steps [OF reachable.init])
qed

lemma mutex_is_released_witness:
  "mutexLocked sendingNode \<and> (\<exists>n' T'. step\<^sup>*\<^sup>* (sendingNode, {#Start StartSend [0], Listen#}) (n', T') \<and>
     panicked n' = None \<and> \<not> mutexLocked n')"
  using mutex_is_released [OF sending_reachable] by (simp add: sendingNode_def node_simps)


text \<open>C38: A shutdown that overlaps a restart request of the server makes the listener panic. From a running
  node there are steps to a state in which the node still runs, the listener received the message, and the
  signal handler is about to stop the node; and from there to a panic because the node does not run any
  more, with the exit channel of the command still open. A message of the server that arrives before
  \<open>Start\<close> sets \<open>isRunning\<close> makes the listener panic too, without any signal.\<close>

theorem restart_panic_reachable:
  "(\<exists>n T n' T' m. step\<^sup>*\<^sup>* running (n, T) \<and> isRunning n \<and> panicked n = None \<and>
      ListenCheck m \<in># T \<and> Stop StopLock (AfterSignal [0]) \<in># T \<and>
      step\<^sup>*\<^sup>* (n, T) (n', T') \<and> panicked n' = Some NotRunning \<and> \<not> commandReturns n') \<and>
   (\<exists>n T n' T' m. reachable (n, T) \<and> panicked n = None \<and>
      Start (StartFlag False) [0] \<in># T \<and> ListenCheck m \<in># T \<and>
      step (n, T) (n', T') \<and> panicked n' = Some NotRunning \<and> \<not> commandReturns n')"
proof
  let ?n = "startedNode NewNode"
  let ?T = "{#ListenCheck NodeErase, Stop StopLock (AfterSignal [0]), Finished#}"
  let ?n' = "(stoppedNode ?n)\<lparr>panicked := Some NotRunning\<rparr>"
  have "step\<^sup>*\<^sup>* running (?n, ?T)"
    apply (simp add: running_def)
    apply (rule run_thread [OF _ _ thread_step.listen [OF listen_step.server [where m = NodeErase]]], simp_all add: node_simps)
    apply (rule run_thread [OF _ _ thread_step.watch [OF watch_step.signal [where ex = "[0]"]]], simp_all)
    apply (simp add: node_simps add_mset_commute)
    done
  moreover have "step\<^sup>*\<^sup>* (?n, ?T) (?n', {#Finished, WatchClose [0], Finished#})"
    apply (subst add_mset_commute)
    apply (rule rtranclp_trans [OF stop_run_alone [where ch = 2]], simp_all add: node_simps)
    apply (rule run_thread [OF _ _ thread_step.listen [OF listen_step.not_running [where m = NodeErase]]], simp_all add: node_simps)
    done
  moreover have "isRunning ?n" "panicked ?n = None" "panicked ?n' = Some NotRunning" "\<not> commandReturns ?n'"
    by (simp_all add: node_simps commandReturns_def)
  ultimately show "\<exists>n T n' T' m. step\<^sup>*\<^sup>* running (n, T) \<and> isRunning n \<and> panicked n = None \<and>
      ListenCheck m \<in># T \<and> Stop StopLock (AfterSignal [0]) \<in># T \<and>
      step\<^sup>*\<^sup>* (n, T) (n', T') \<and> panicked n' = Some NotRunning \<and> \<not> commandReturns n'"
    by (intro exI [of _ ?n] exI [of _ ?T] exI [of _ ?n'] exI [of _ "{#Finished, WatchClose [0], Finished#}"]
        exI [of _ NodeErase]) simp
next
  let ?n = "(openedNode NewNode)\<lparr>indexDBOpen := True, serverRunning := True\<rparr>"
  let ?T = "{#ListenCheck NodeErase, Start (StartFlag False) [0]#}"
  let ?n' = "?n\<lparr>panicked := Some NotRunning\<rparr>"
  have "step\<^sup>*\<^sup>* initial (?n, ?T)"
    unfolding initial_def
    apply (rule rtranclp_trans [OF start_to_index], simp_all add: NewNode_def)
    apply (rule run_step [OF _ thread_step.start [OF start_step.index]], simp_all add: openedNode_def)
    apply (rule run_step [OF _ thread_step.start [OF start_step.server [where shouldRestart = False]]], simp_all)
    apply (rule run_step [OF _ thread_step.start [OF start_step.run]], simp_all)
    apply (rule run_thread [OF _ _ thread_step.listen [OF listen_step.select]], simp_all)
    apply (rule run_thread [OF _ _ thread_step.listen [OF listen_step.server [where m = NodeErase]]], simp_all)
    apply simp
    done
  then have "reachable (?n, ?T)" by (rule reachable_steps [OF reachable.init])
  moreover have "step (?n, ?T) (?n', {#Finished, Start (StartFlag False) [0]#})"
    using step.local [OF _ thread_step.listen [OF listen_step.not_running [where n = ?n and m = NodeErase]],
        of "{#Start (StartFlag False) [0]#}"]
    by (simp add: node_simps openedNode_def)
  moreover have "panicked ?n = None" "panicked ?n' = Some NotRunning" "\<not> commandReturns ?n'"
    by (simp_all add: node_simps openedNode_def commandReturns_def)
  ultimately show "\<exists>n T n' T' m. reachable (n, T) \<and> panicked n = None \<and>
      Start (StartFlag False) [0] \<in># T \<and> ListenCheck m \<in># T \<and>
      step (n, T) (n', T') \<and> panicked n' = Some NotRunning \<and> \<not> commandReturns n'"
    by (intro exI [of _ ?n] exI [of _ ?T] exI [of _ ?n']
        exI [of _ "{#Finished, Start (StartFlag False) [0]#}"] exI [of _ NodeErase]) simp
qed

lemma start_run_within:
  assumes "panicked n = None" and "\<not> mutexLocked n" and "\<not> chainDBOpen n" and "\<not> indexDBOpen n"
    and "Start StartLock ex \<in># T"
  shows "step\<^sup>*\<^sup>* (n, T)
    (startedNode n, add_mset Finished (add_mset (Watch ex) (add_mset Listen (T - {#Start StartLock ex#}))))"
  using start_run_alone [OF assms(1-4), of ex "T - {#Start StartLock ex#}"] assms(5) by simp

section \<open>Who closes the exit variables\<close>

fun callerExits :: "caller \<Rightarrow> nat list" where
  "callerExits (AfterRestart m) = []"
| "callerExits (AfterSignal ex) = ex"

fun holdsExit :: "nat \<Rightarrow> thread \<Rightarrow> bool" where
  "holdsExit e (Start pc ex) = (e \<in> set ex)"
| "holdsExit e (Stop pc c) = (e \<in> set (callerExits c))"
| "holdsExit e (Watch ex) = (e \<in> set ex)"
| "holdsExit e (WatchSelect ch ex) = (e \<in> set ex)"
| "holdsExit e (WatchClose ex) = (e \<in> set ex)"
| "holdsExit e t = False"

lemma holdsExit_afterStop [simp]: "holdsExit e (afterStop c) = (e \<in> set (callerExits c))"
  by (cases c) (simp_all add: afterStop_def)

definition orphaned :: "nat \<Rightarrow> system \<Rightarrow> bool" where
  "orphaned e s \<longleftrightarrow> e \<in> openExits (fst s) \<and> cnt (holdsExit e) (snd s) = 0"

lemma orphaned_step: "step s s' \<Longrightarrow> orphaned e s \<Longrightarrow> orphaned e s'"
proof (induction rule: step.induct)
  case (local n th n' th' spawned R)
  then show ?case
    by (elim thread_stepE; auto simp: orphaned_def split: if_splits)
qed (auto simp: orphaned_def split: if_splits)

lemma orphaned_forever: "step\<^sup>*\<^sup>* s s' \<Longrightarrow> orphaned e s \<Longrightarrow> orphaned e s'"
  by (induction rule: rtranclp_induct) (auto intro: orphaned_step)

text \<open>Without a restart the signal handler closes it: a shutdown of the first run ends the command.\<close>

lemma shutdown_closes_exit: "\<exists>n T. step\<^sup>*\<^sup>* running (n, T) \<and> commandReturns n \<and> \<not> isRunning n \<and> panicked n = None"
proof -
  have "step\<^sup>*\<^sup>* running ((stoppedNode (startedNode NewNode))\<lparr>openExits := {}\<rparr>,
      {#Finished, ListenSelect (Some 2) (Some 3), Finished#})"
    apply (simp add: running_def)
    apply (rule run_thread [OF _ _ thread_step.watch [OF watch_step.signal [where ex = "[0]"]]], simp_all add: node_simps)
    apply (rule rtranclp_trans [OF stop_run_alone [where ch = 2]], simp_all add: node_simps)
    apply (rule run_step [OF _ thread_step.watch [OF watch_step.close]], simp_all add: node_simps add_mset_commute)
    done
  then show ?thesis by (force simp: node_simps commandReturns_def)
qed

text \<open>After the restart the node runs again; the signal handler of the first run is still at its select.\<close>

definition restarted :: system where
  "restarted = (startedNode (stoppedNode (startedNode NewNode)),
     {#Finished, Watch [], Listen, Finished, WatchSelect (Some 2) [0], Finished#})"

lemma restarted_steps: "step\<^sup>*\<^sup>* (restartable NodeRestart) restarted"
  apply (simp add: restartable_def)
  apply (rule run_thread [OF _ _ thread_step.listen [OF listen_step.restart [where m = NodeRestart]]], simp_all add: node_simps)
  apply (rule rtranclp_trans [OF start_run_within [where ex = "[]"]],
      simp_all add: node_simps restarted_def add_mset_commute)
  done

text \<open>C37: A shutdown of the first run ends the command that waits on its exit channel. A restart can lose that
  channel: the listener is started without the exit channels, so the node that it restarts has none to
  close, and only the signal handler of the first run still holds them. From the restarted, running
  node there are steps to a state in which it still runs and from which no sequence of steps ends the command:
  that handler ended, since the restart closed the channel it waits on. Only if it
  takes the signal first does a shutdown after the restart still end the command.\<close>

theorem restart_loses_exit_channel:
  "(\<exists>s. step\<^sup>*\<^sup>* initial s \<and> commandReturns (fst s) \<and> panicked (fst s) = None) \<and>
   reachable (restartable NodeRestart) \<and> step\<^sup>*\<^sup>* (restartable NodeRestart) restarted \<and> isRunning (fst restarted) \<and>
   (\<exists>s. step\<^sup>*\<^sup>* restarted s \<and> isRunning (fst s) \<and> panicked (fst s) = None \<and>
      {s'. step\<^sup>*\<^sup>* s s'} \<subseteq> {s'. \<not> commandReturns (fst s')}) \<and>
   (\<exists>s. step\<^sup>*\<^sup>* restarted s \<and> commandReturns (fst s) \<and> panicked (fst s) = None)"
proof (intro conjI)
  show "\<exists>s. step\<^sup>*\<^sup>* initial s \<and> commandReturns (fst s) \<and> panicked (fst s) = None"
    using shutdown_closes_exit running_steps by (metis fst_conv rtranclp_trans)
  show "reachable (restartable NodeRestart)" by (rule restartable_reachable)
  show "step\<^sup>*\<^sup>* (restartable NodeRestart) restarted" by (rule restarted_steps)
  show "isRunning (fst restarted)" by (simp add: restarted_def node_simps)
  let ?n = "startedNode (stoppedNode (startedNode NewNode))"
  let ?s = "(?n, {#Finished, Finished, Watch [], Listen, Finished, Finished#})"
  have "step\<^sup>*\<^sup>* restarted ?s"
    apply (simp add: restarted_def)
    apply (rule run_thread [OF _ _ thread_step.watch [OF watch_step.exit [where ch = 2 and ex = "[0]"]]], simp_all add: node_simps)
    done
  moreover have "orphaned 0 ?s" by (simp add: orphaned_def node_simps)
  then have "{s'. step\<^sup>*\<^sup>* ?s s'} \<subseteq> {s'. \<not> commandReturns (fst s')}"
    using orphaned_forever by (auto simp: orphaned_def commandReturns_def)
  moreover have "isRunning (fst ?s)" "panicked (fst ?s) = None" by (simp_all add: node_simps)
  ultimately show "\<exists>s. step\<^sup>*\<^sup>* restarted s \<and> isRunning (fst s) \<and> panicked (fst s) = None \<and>
      {s'. step\<^sup>*\<^sup>* s s'} \<subseteq> {s'. \<not> commandReturns (fst s')}" by blast
  let ?s' = "((stoppedNode ?n)\<lparr>openExits := {}\<rparr>, {#Finished, Finished, Watch [], Listen, Finished, Finished#})"
  have "step\<^sup>*\<^sup>* restarted ?s'"
    apply (simp add: restarted_def)
    apply (rule run_thread [OF _ _ thread_step.watch [OF watch_step.signal [where ch = "Some 2" and ex = "[0]"]]], simp_all add: node_simps)
    apply (rule rtranclp_trans [OF stop_run_alone [where ch = 4]], simp_all add: node_simps)
    apply (rule run_step [OF _ thread_step.watch [OF watch_step.close]], simp_all add: node_simps)
    done
  moreover have "commandReturns (fst ?s')" "panicked (fst ?s') = None"
    by (simp_all add: node_simps commandReturns_def)
  ultimately show "\<exists>s. step\<^sup>*\<^sup>* restarted s \<and> commandReturns (fst s) \<and> panicked (fst s) = None" by blast
qed

text \<open>The error of opening the index is not looked at: a node runs without it.\<close>

lemma index_error_ignored: "\<exists>n T. reachable (n, T) \<and> isRunning n \<and> panicked n = None \<and> \<not> indexDBOpen n \<and> serverRunning n"
proof -
  let ?n = "(startedNode NewNode)\<lparr>indexDBOpen := False\<rparr>"
  have "step\<^sup>*\<^sup>* initial (?n, {#Finished, Watch [0], Listen#})"
    unfolding initial_def
    apply (rule rtranclp_trans [OF start_to_index], simp_all add: NewNode_def)
    apply (rule run_step [OF _ thread_step.start [OF start_step.index_fails]], simp_all add: openedNode_def)
    apply (rule rtranclp_trans [OF start_to_flag [where b = False]], simp_all)
    apply (rule rtranclp_trans [OF start_to_end], simp_all add: node_simps)
    done
  then have "reachable (?n, {#Finished, Watch [0], Listen#})" by (rule reachable_steps [OF reachable.init])
  then show ?thesis by (force simp: node_simps)
qed

end
