(* ===== verification/Router.thy ===== *)
theory Router
  imports Config Construction
begin

text \<open>
  The wiring of \<open>services/router.go\<close>: the five services, all made from one configuration and one node, and
  the controllers that get them. Controllers and router are those of the Rosetta SDK; the services are the
  ones of the theories of the endpoints.
\<close>

section \<open>Parameters of the network\<close>

text \<open>\<open>Start\<close> and the debug command turn on regtest in the parameters that the configuration points to;
  services read the parameters through the configuration.\<close>

definition startParams :: "(bool \<Rightarrow> networkParams \<Rightarrow> networkParams) \<Rightarrow> Config \<Rightarrow> networkParams" where
  "startParams EnableRegtest config =
     (if configRegtest config then EnableRegtest (configRegtestAccelerated config) (configParams config)
      else configParams config)"

section \<open>The services\<close>

text \<open>
  What the node gives the services: its chain and index, and for each kind of service the rest of what the
  endpoints ask of it. The constructors add the configuration.
\<close>

record ('db, 'wb, 'm) nodeView =
  viewNode :: "('db, 'wb) node"
  viewApi :: "('db, 'wb) apiService"
  viewAccount :: "('db, 'wb) accountService"
  viewConstruction :: "'m constructionService"

definition NewNetworkAPIService :: "Config \<Rightarrow> ('db, 'wb, 'm) nodeView \<Rightarrow> ('db, 'wb) apiService" where
  "NewNetworkAPIService config node =
     (viewApi node)\<lparr>apiMode := configMode config, apiNetwork := configNetwork config, apiNode := viewNode node\<rparr>"

definition NewBlockAPIService :: "Config \<Rightarrow> ('db, 'wb, 'm) nodeView \<Rightarrow> ('db, 'wb) apiService" where
  "NewBlockAPIService config node =
     (viewApi node)\<lparr>apiMode := configMode config, apiNetwork := configNetwork config, apiNode := viewNode node\<rparr>"

definition NewMempoolAPIService :: "Config \<Rightarrow> ('db, 'wb, 'm) nodeView \<Rightarrow> ('db, 'wb) apiService" where
  "NewMempoolAPIService config node =
     (viewApi node)\<lparr>apiMode := configMode config, apiNetwork := configNetwork config, apiNode := viewNode node\<rparr>"

definition NewAccountAPIService :: "Config \<Rightarrow> ('db, 'wb, 'm) nodeView \<Rightarrow> ('db, 'wb) accountService" where
  "NewAccountAPIService config node =
     (viewAccount node)\<lparr>accountMode := configMode config, accountNode := viewNode node\<rparr>"

definition NewConstructionAPIService ::
  "(bool \<Rightarrow> networkParams \<Rightarrow> networkParams) \<Rightarrow> Config \<Rightarrow> ('db, 'wb, 'm) nodeView \<Rightarrow> 'm constructionService" where
  "NewConstructionAPIService EnableRegtest config node =
     (viewConstruction node)\<lparr>constructionMode := configMode config,
        constructionParams := coreParams (startParams EnableRegtest config)\<rparr>"

section \<open>The router\<close>

datatype ('db, 'wb, 'm) controller =
    NetworkAPIController "('db, 'wb) apiService"
  | BlockAPIController "('db, 'wb) apiService"
  | AccountAPIController "('db, 'wb) accountService"
  | ConstructionAPIController "'m constructionService"
  | MempoolAPIController "('db, 'wb) apiService"

text \<open>\<open>newRouter\<close> stands for \<open>server.NewRouter\<close>, which adds the routes of the controllers it is given, in order.\<close>

definition NewBlockchainRouter ::
  "(('db, 'wb, 'm) controller list \<Rightarrow> 'h) \<Rightarrow> (bool \<Rightarrow> networkParams \<Rightarrow> networkParams) \<Rightarrow> Config \<Rightarrow>
     ('db, 'wb, 'm) nodeView \<Rightarrow> 'h" where
  "NewBlockchainRouter newRouter EnableRegtest config node =
     newRouter
       [NetworkAPIController (NewNetworkAPIService config node),
        BlockAPIController (NewBlockAPIService config node),
        AccountAPIController (NewAccountAPIService config node),
        ConstructionAPIController (NewConstructionAPIService EnableRegtest config node),
        MempoolAPIController (NewMempoolAPIService config node)]"

lemmas new_services = NewNetworkAPIService_def NewBlockAPIService_def NewMempoolAPIService_def
  NewAccountAPIService_def NewConstructionAPIService_def

text \<open>Services of one router work on one node, in one mode.\<close>

lemma services_of_router [simp]:
  "apiNode (NewNetworkAPIService config node) = viewNode node"
  "apiNode (NewBlockAPIService config node) = viewNode node"
  "apiNode (NewMempoolAPIService config node) = viewNode node"
  "accountNode (NewAccountAPIService config node) = viewNode node"
  "apiMode (NewNetworkAPIService config node) = configMode config"
  "apiMode (NewBlockAPIService config node) = configMode config"
  "apiMode (NewMempoolAPIService config node) = configMode config"
  "accountMode (NewAccountAPIService config node) = configMode config"
  "constructionMode (NewConstructionAPIService R config node) = configMode config"
  by (simp_all add: new_services)

end
