(* ===== verification/Command.thy ===== *)
theory Command
  imports Peers Lifecycle Router
begin

text \<open>
  The command line of \<open>cmd/root.go\<close> and \<open>cmd/run.go\<close>: which command gets the flags, their defaults, the
  run command up to the wait for its exit channel, and the checks of the debug command. Settings come
  from viper; the servers behind the routes are the Rosetta SDK.
\<close>

section \<open>Flags\<close>

datatype flagValue = StringFlag string | IntFlag i64

text \<open>The flags of \<open>initFlags\<close> beside those that the core library sets up.\<close>

definition initFlags :: "(string \<times> flagValue) list" where
  "initFlags =
     [(''network'', StringFlag ''MAINNET''), (''mode'', StringFlag ''ONLINE''), (''port'', IntFlag 17005),
      (''node-port'', IntFlag 17000), (''data-directory'', StringFlag ''/data'')]"

text \<open>A setting that nothing else gives has the default of its flag.\<close>

definition hasDefaults :: "viper \<Rightarrow> bool" where
  "hasDefaults V \<longleftrightarrow>
     list_all (\<lambda>(name, v). case v of StringFlag s \<Rightarrow> GetString V name = s | IntFlag n \<Rightarrow> GetInt V name = n)
       initFlags"

datatype command = RunCmd | DebugCmd

text \<open>\<open>init\<close>: the command whose flags are set up, and which is known then.\<close>

definition commandOf :: "string list \<Rightarrow> command" where
  "commandOf args = (if length args > 1 \<and> args ! 1 = ''debug'' then DebugCmd else RunCmd)"

text \<open>\<open>initConfig\<close>: the file given, or the name to look for in the home directory.\<close>

datatype configFile = ConfigFile string | ConfigName string string

definition initConfig :: "string option \<Rightarrow> string \<Rightarrow> configFile option" where
  "initConfig home cfgFile =
     (if cfgFile \<noteq> '''' then Some (ConfigFile cfgFile)
      else case home of None \<Rightarrow> None | Some h \<Rightarrow> Some (ConfigName h ''.rosetta-deso''))"

text \<open>The replacer that \<open>initConfig\<close> gives viper: the name under which a setting is looked up in the
  environment has underscores for dashes.\<close>

definition envKeyReplacer :: "string \<Rightarrow> string" where
  "envKeyReplacer = map (\<lambda>c. if c = CHR ''-'' then CHR ''_'' else c)"

text \<open>Different flags keep different names in the environment.\<close>

lemma flags_in_environment: "distinct (map (envKeyReplacer \<circ> fst) initFlags)"
  by (simp add: envKeyReplacer_def initFlags_def)

section \<open>The run command\<close>

text \<open>How far the command gets: it returns an error, the process exits, or it serves the requests for a
  configuration beside a node that it starts with its exit channel.\<close>

datatype runResult = RunError string | RunFatal | Serving Config system i64

definition runCmd :: "configLib \<Rightarrow> viper \<Rightarrow> bool \<Rightarrow> runResult" where
  "runCmd X V asserterOk =
     (case LoadConfig X V of
        None \<Rightarrow> RunFatal
      | Some (Inl err) \<Rightarrow> RunError err
      | Some (Inr config) \<Rightarrow>
          if \<not> asserterOk then RunFatal else Serving config initial (configPort config))"

section \<open>The debug command\<close>

datatype debugResult = DebugError string | DebugFatal | DebugPanic string | DebugDone

record 'd chainLib =
  openBadger :: "string \<Rightarrow> 'd option"
  GetBadgerDbPath :: "string \<Rightarrow> string"
  EnableRegtest :: "bool \<Rightarrow> networkParams \<Rightarrow> networkParams"
  DbGetBestHash :: "'d \<Rightarrow> blockhash option"
  GetBlockIndex :: "'d \<Rightarrow> networkParams \<Rightarrow> (blockhash \<rightharpoonup> BlockNode option) option"

definition debugCmd :: "'d chainLib \<Rightarrow> configLib \<Rightarrow> viper \<Rightarrow> debugResult" where
  "debugCmd D X V =
     (case LoadConfig X V of
        None \<Rightarrow> DebugFatal
      | Some (Inl err) \<Rightarrow> DebugError err
      | Some (Inr config) \<Rightarrow>
          (case openBadger D (GetBadgerDbPath D (configDataDirectory config)) of
             None \<Rightarrow> DebugPanic ''''
           | Some chainDB \<Rightarrow>
               (case DbGetBestHash D chainDB of
                  None \<Rightarrow> DebugPanic ''bestBlockHash is nil''
                | Some bestBlockHash \<Rightarrow>
                    (case GetBlockIndex D chainDB (startParams (EnableRegtest D) config) of
                       None \<Rightarrow> DebugPanic ''Problem reading block index from db''
                     | Some blockIndexByHash \<Rightarrow>
                         (case blockIndexByHash bestBlockHash of
                            Some (Some tipNode) \<Rightarrow> DebugDone
                          | _ \<Rightarrow> DebugPanic ''Best hash not found in block index'')))))"

section \<open>What a command line starts\<close>

text \<open>With the defaults of the flags the run command serves on port 17005 and starts an online node of the
  main network on port 17000, exactly if the data directory can be created and the block index size is
  within its bounds.\<close>

lemma default_command_line:
  assumes "hasDefaults V" and "MkdirAll X (JoinPath X ''/data'' (DBVersionString X))"
    and "blockIndexSize X (GetInt V ''block-index-size'') = Inr n"
  shows "\<exists>c. runCmd X V True = Serving c initial 17005 \<and> configMode c = Online \<and>
    configParams c = DeSoMainnetParams X \<and> configNodePort c = 17000 \<and>
    configDataDirectory c = JoinPath X ''/data'' (DBVersionString X) \<and> configBlockIndexSize c = n"
  using assms
  by (simp add: runCmd_def LoadConfig_def hasDefaults_def initFlags_def modeOf_def paramsOf_def Let_def
      upperChar_def)

text \<open>The command that serves can return, by a shutdown of the node it started; and it may not be able to
  any more, once the node was restarted.\<close>

lemma run_command_can_return:
  assumes "runCmd X V ok = Serving c s port"
  shows "\<exists>n T. step\<^sup>*\<^sup>* s (n, T) \<and> commandReturns n \<and> panicked n = None"
proof -
  have "s = initial"
    using assms by (auto simp: runCmd_def split: option.splits sum.splits if_splits)
  moreover have "step\<^sup>*\<^sup>* initial running" by (rule running_steps)
  ultimately show ?thesis using shutdown_closes_exit by (meson rtranclp_trans)
qed

end
