(* ===== verification/Spec2Isabelle.thy ===== *)
theory Spec2Isabelle
  imports BlockTotal SyncedNode SigningScript Command
begin

text \<open>
  A model of \<open>rosetta-deso\<close>, the Rosetta API of the DeSo blockchain, and what it promises.

  \<^bold>\<open>The program.\<close> A node of the core library follows the chain (or only signs, when it is offline). Two
  of its events fill an index of balances: after a hypersync, \<open>handleSnapshotCompleted\<close> spreads all
  balances of the chain snapshot over synthetic blocks; after that, \<open>handleBlockCommitted\<close> stores the
  balances that a block changed. The Rosetta endpoints answer from the chain and from the index: blocks
  as lists of operations, balances at a height, and the construction of transactions, which a client
  may do partly offline. A client checks that the operations of the blocks add up to the balances.

  \<^bold>\<open>The theories\<close>, in the order in which they build on one another, with the source below \<open>src/\<close>.

  \<^item> \<open>Prelude\<close>: association lists in insertion order as Go maps (\<open>goSet\<close>, \<open>goGet\<close>), numbered lists,
    the order of byte strings. \<open>GoLib\<close>: \<open>strconv\<close>, \<open>strings\<close>, \<open>hex\<close>. Machine integers are words, a slice
    is a list, a run-time panic is \<open>None\<close>, an error value is the left of a sum.
  \<^item> \<open>Core\<close>: the structs of the core library and of the Rosetta SDK as records; \<open>deso/types.go\<close>. The
    functions called of the core library are the fields of the record \<open>corelib\<close>. \<open>CoreLaws\<close> states what
    is relied on: addresses decode to what they were made from and hold no dash (\<open>address_codec\<close>), the
    8-byte integers are big-endian (\<open>uint64_codec\<close>), both together (\<open>core_library\<close>).
  \<^item> \<open>Squash\<close>: \<open>squashOperations\<close> of \<open>deso/block.go\<close>, a loop over a list and a map of positions, equal to
    grouping by first appearance, with the sums of the amounts.
  \<^item> \<open>TxnOps\<close> and \<open>BlockOps\<close>: the operations of a transaction, one definition for each \<open>get...Ops\<close>, the
    recursion into atomic transactions, and the conversion of a block. \<open>netAmount\<close> adds up what a list
    of operations moves on an account; the lemmas say that conversion moves what the transaction does.
    \<open>BlockTotal\<close>: on which blocks the conversion returns.
  \<^item> \<open>Errors\<close>: \<open>deso/errors.go\<close>, \<open>services/errors.go\<close>.
  \<^item> \<open>Store\<close>: the key-value store as an interface: \<open>badger_store\<close> (what a read, a reverse seek and a flush
    do to a map of keys; a batch that is not flushed may have committed some of its writes early),
    \<open>reliable_store\<close> (no write fails). \<open>Index\<close>: \<open>deso/index.go\<close>, the keys, reads
    and writes of the index, against the abstract history of an account, the set of its snapshots
    (\<open>snapshotsOf\<close>), of which a read at a height returns the latest. \<open>gob_codec\<close> is the round trip
    of the encoding of maps; \<open>index_store\<close> and \<open>hypersync_store\<close> put these together.
  \<^item> \<open>Partition\<close> and \<open>Hypersync\<close>: the loop of \<open>handleSnapshotCompleted\<close> in \<open>deso/events.go\<close>, proved once
    over the interface \<open>partition\<close> of two writes, and its four scopes, which are instances of it.
  \<^item> \<open>SeedBlocks\<close>: the transactions of a synthetic block. \<open>BlockCommit\<close>: \<open>handleBlockCommitted\<close>.
    \<open>SyncedNode\<close>: the index after the snapshot handler and any run of the block handler.
    \<open>Blocks\<close>: \<open>GetBlock\<close>, \<open>GetBlockAtHeight\<close>, \<open>CurrentBlock\<close>; \<open>best_chain\<close> is what is relied on of the
    blockchain: a best chain by height whose blocks name their parent, in 32-byte hashes.
  \<^item> \<open>AccountService\<close>, \<open>Services\<close>: the account, network, block and mempool endpoints. \<open>Construction\<close>: the
    construction endpoints with \<open>services/types.go\<close>. \<open>ConstructionFlow\<close> follows a transfer through them
    over \<open>construction_codecs\<close> (JSON objects and serialised transactions come back as they were) and
    \<open>balance_model_node\<close> (the node adds no outputs); \<open>ConstructionRef\<close> is a service with which these hold.
    \<open>SigningScript\<close>: the helper \<open>scripts/testnet/sign.go\<close> that signs between payloads and combine, over
    \<open>signing_library\<close> (what a private key signs verifies under its public key).
  \<^item> \<open>Config\<close>: \<open>LoadConfig\<close>. \<open>Router\<close>: \<open>services/router.go\<close> and the constructors of the services, which
    put all endpoints over one configuration and one node. \<open>Peers\<close>: the discovery of peers in
    \<open>deso/node.go\<close> and the other hosts that \<open>Start\<close> names. \<open>Lifecycle\<close>: \<open>Start\<close>,
    \<open>Stop\<close>, \<open>listenToRestart\<close> and the goroutine of the signal as threads. A system is the fields of the
    node with the multiset of the threads that run, and \<open>step\<close> lets one of them take one atomic step, or
    two of them meet at the unbuffered channel. The invariant counts threads by phase.
    \<open>Command\<close>: the flags and commands of \<open>cmd/\<close>.

  This theory holds the properties that span components: the reconciliation of the blocks a client is
  served with the balances it is served, and what the services behind the router of an offline
  configuration refuse and what they still answer.

  \<^bold>\<open>Interfaces.\<close> Each locale named above states documented behaviour of code outside the repository and is
  interpreted: the store on an association list with a list of pending writes (\<open>memory\<close>), the codecs on
  hexadecimal text and big-endian bytes (\<open>reference\<close>), the chain on a chain of three blocks, the
  construction endpoints on \<open>refService\<close>. \<open>public_scope\<close> and \<open>locked_scope\<close> give \<open>partition\<close> for the writes
  of the program itself. The witnesses of the properties evaluate the model on these instances.

  \<^bold>\<open>Bounds and termination.\<close> Every loop of the program that is modelled ranges over a list and is
  structural; the recursion into atomic transactions is by the size of the transaction. No fuel is
  used in the model; only the reference decoder of lists in \<open>ConstructionRef\<close> has fuel, one more than the
  bytes it may consume. Amounts are 64-bit words: where a theorem needs that a sum does not wrap or that an
  amount is below \<open>2 ^ 63\<close>, its hypotheses say so. Both searches for seeds end after 99999 rounds.
  In the node's life, \<open>mutex_is_released\<close> gives a run to the release of the mutex from every state.

  \<^bold>\<open>What the model shows to be wrong.\<close> Accounts of locked stake never resolve (\<open>TxnOps\<close>,
  \<open>AccountService\<close>), and their index lookup reads other bytes than the balance (\<open>Index\<close>). An unstake moves a
  positive amount, and the operations of a swap of identities have the direction of amounts before the swap,
  where the comment speaks of amounts after it (\<open>TxnOps\<close>). A missing public key ends a scope of the snapshot
  before its flush: all is lost that the store did not commit early (\<open>Hypersync\<close>). A
  selection of coins is lost between preprocess and metadata (\<open>ConstructionRef\<close>). Three error codes are not
  advertised (\<open>Services\<close>). A restart can lose the exit channel of the command, and a restart request that
  overlaps a shutdown panics (\<open>Lifecycle\<close>).

  \<^bold>\<open>Not modelled.\<close> The core library, badger, the Rosetta SDK and the signature library, which are arguments;
  the routes of the controllers and the HTTP server that \<open>cmd/run.go\<close> starts are calls of that SDK. Of \<open>Start\<close>,
  the long list of constant arguments of \<open>NewServer\<close>, what the server, the providers of checkpoints and the
  statsd client then do, and the logging flags; of the handlers,
  the counters that are only logged and the mutex of the index, which serialises them. \<open>main.go\<close> and
  \<open>Execute\<close> hand over to cobra. \<open>handleTransactionConnected\<close> and \<open>call_service.go\<close> are empty.
\<close>

section \<open>Blocks and balances of a hypersynced node\<close>

lemma of_nat_up_to:
  assumes "x \<in> {1..unat (h :: u64)}"
  shows "(of_nat x :: u64) \<noteq> 0 \<and> (of_nat x :: u64) \<le> h"
proof -
  have "x < 2 ^ 64" using assms unat_u64_bound [of h] by auto
  then have "unat (of_nat x :: u64) = x" by (simp add: unat_of_nat take_bit_nat_eq_self)
  then show ?thesis using assms by (auto simp: word_le_nat_alt)
qed

lemma word_gt_0_nat: "0 < (h :: u64) \<Longrightarrow> 0 < unat h"
  by (simp add: word_less_nat_alt)

text \<open>A block of a synthetic height, as the endpoint returns it.\<close>

lemma synthetic_block_at_height:
  assumes "best_chain (nodeLib N) (nodeBlockchain N)" and "GetBlockAtHeight N x = Some (Inr b)"
    and "isSyntheticHeight N x"
  shows "\<exists>hash. blockTransactions b =
    getBlockTransactionsWithHypersync (nodeLib N) (nodeGob N) (nodeStore N) (nodeIndex N) x hash"
  using best_chain.block_at_height [OF assms(1,2) refl refl] assms(3) by auto

text \<open>C1: What the endpoints of a hypersynced node report adds up, which is what a Rosetta client
  checks. After the snapshot handler filled an empty index and any blocks were committed since, the balance
  that \<open>AccountBalance\<close> reports at a height up to the snapshot height is, to the nano, the sum of what the
  blocks 1 to that height, as \<open>GetBlockAtHeight\<close> returns them, credit to the account; and the balance names
  that last block. For plain, creator coin and validator accounts.\<close>

theorem api_blocks_add_up_to_balances:
  assumes "hypersync_setting L B kv pending G" and "0 < H" and "snapshotEntries L X C entries locked"
    and "kv db = Map.empty" and "handleSnapshotCompleted L G B X C (Some H) db = Some db0"
    and "commitAll L B (Some (Some H)) True events db0 = Some db'"
    and "sorted_wrt (<) (map fst events)" and "\<forall>(n, view) \<in> set events. wfView view"
    and "tip_on_chain S" and "accountMode S = Online"
    and "nodeLib (accountNode S) = L" and "nodeStore (accountNode S) = B" and "nodeGob (accountNode S) = G"
    and "nodeIndex (accountNode S) = db'" and "nodeHyperSync (accountNode S)"
    and "FirstSnapshotBlockHeight (nodeBlockchain (accountNode S)) = Some H"
    and "GetCommittedTip (nodeBlockchain (accountNode S)) = Some tip" and "h \<le> ucast (nodeHeight tip)"
    and "0 < h" and "h \<le> H"
    and "\<forall>x \<in> {1..unat h}. GetBlockAtHeight (accountNode S) (of_nat x) = Some (Inr (blocks x))"
    and "publicKeyBalance t" and "length pk = 33"
  shows "\<exists>v. AccountBalance S \<lparr>balanceAccountIdentifier = accountFor L t pk,
      balanceBlockIdentifier = Some \<lparr>partialIndex = Some h, partialHash = None\<rparr>\<rparr> =
    Some (Inr \<lparr>responseBlockIdentifier = blockIdentifier (blocks (unat h)),
               Balances = [amountOf (FormatUint v)]\<rparr>) \<and>
    unat v = (\<Sum>x \<in> {1..unat h}. creditsTo (accountFor L t pk) (blockTransactions (blocks x)))"
proof -
  let ?N = "accountNode S"
  have chain: "best_chain L (nodeBlockchain ?N)" using assms(9,11) by (simp add: tip_on_chain_def)
  have index: "index_store L B kv pending"
    using assms(1) by (simp add: hypersync_setting_def hypersync_store_def)
  have "\<exists>hash. blockTransactions (blocks x) = getBlockTransactionsWithHypersync L G B db' (of_nat x) hash"
    if x: "x \<in> {1..unat h}" for x
  proof -
    have "isSyntheticHeight ?N (of_nat x)"
      using of_nat_up_to [OF x] assms(2,15,16,20) by (auto simp: isSyntheticHeight_def)
    then show ?thesis
      using synthetic_block_at_height [of ?N "of_nat x" "blocks x"] chain assms(11-14,21) x by simp
  qed
  then obtain hash where hash: "blockTransactions (blocks x) =
      getBlockTransactionsWithHypersync L G B db' (of_nat x) (hash x)" if "x \<in> {1..unat h}" for x
    by metis
  have sum: "(\<Sum>x \<in> {1..unat h}. creditsTo (accountFor L t pk) (blockTransactions (blocks x))) =
      (\<Sum>x \<in> {1..unat h}. creditsTo (accountFor L t pk)
         (getBlockTransactionsWithHypersync L G B db' (of_nat x) (hash x)))"
    by (rule sum.cong) (simp_all add: hash)
  note credits = hypersync_setting.synced_credits [OF assms(1-8,22,23,20), of hash]
  have last: "GetBlockAtHeight ?N h = Some (Inr (blocks (unat h)))"
    using bspec [OF assms(21), of "unat h"] word_gt_0_nat [OF assms(19)] by simp
  obtain n where n: "GetBlockFromBestChainByHeight (nodeBlockchain ?N) h = Some (Some n)"
    and ident: "blockIdentifier (blocks (unat h)) = \<lparr>identIndex = h, identHash = BlockHashString L (nodeHash n)\<rparr>"
    using best_chain.block_at_height [OF chain last refl assms(11)] by blast
  from AccountBalance_latest [OF assms(9) index _ assms(11,12,14,10,22,23,17,18) n] credits sum ident
  show ?thesis by (intro exI [of _ "latest (snapshotsOf L (kv db') t pk) h"]) simp
qed


text \<open>The example node with the index of a snapshot of two heights.\<close>

definition hypersyncedService :: "memDB \<Rightarrow> (memDB, (bytes \<times> bytes) list) accountService" where
  "hypersyncedService db = exampleService\<lparr>accountNode := exampleN\<lparr>nodeIndex := db\<rparr>\<rparr>"

definition syntheticApiBlock :: "memDB \<Rightarrow> u64 \<Rightarrow> Block" where
  "syntheticApiBlock db h = (exampleApiBlock h)\<lparr>blockTransactions :=
     getBlockTransactionsWithHypersync refLib refGob memStore db h (copyArray 32 (PutUint64 h))\<rparr>"

lemma hypersynced_block:
  assumes "h = 1 \<or> h = 2"
  shows "GetBlockAtHeight (accountNode (hypersyncedService db)) h = Some (Inr (syntheticApiBlock db h))"
proof -
  let ?N = "exampleN\<lparr>nodeIndex := db\<rparr>"
  have "GetBlock ?N (hexEncode (copyArray 32 (PutUint64 h))) = Some (Inr (syntheticApiBlock db h))"
    using assms
    by (auto simp: GetBlock_def exampleN_def exampleBlockchain_def exampleNode_def parentIdentifier_def
        isSyntheticHeight_def exampleApiBlock_def syntheticApiBlock_def milliseconds_def Let_def)
  then show ?thesis
    using assms by (auto simp: hypersyncedService_def GetBlockAtHeight_def exampleN_def exampleBlockchain_def
        exampleNode_def word_sless_alt)
qed

lemma hypersyncedService_tip: "tip_on_chain (hypersyncedService db)"
proof -
  have "tip_on_chain exampleService" by (rule example_service.tip_on_chain_axioms)
  then show ?thesis
    by (simp add: hypersyncedService_def tip_on_chain_def tip_on_chain_axioms_def exampleService_def exampleN_def)
qed

theorem api_blocks_add_up_to_balances_witness:
  "\<exists>db db' v. handleSnapshotCompleted refLib refGob memStore refCodec exampleChain (Some 2) [] = Some db \<and>
     commitAll refLib memStore (Some (Some 2)) True [(3, exampleView 30)] db = Some db' \<and>
     AccountBalance (hypersyncedService db') \<lparr>balanceAccountIdentifier = plainAccount (hexEncode examplePk),
       balanceBlockIdentifier = Some \<lparr>partialIndex = Some 2, partialHash = None\<rparr>\<rparr> =
     Some (Inr \<lparr>responseBlockIdentifier = blockIdentifier (exampleApiBlock 2),
                Balances = [amountOf (FormatUint v)]\<rparr>) \<and>
     unat v = (\<Sum>x \<in> {1..2}. creditsTo (plainAccount (hexEncode examplePk))
       (blockTransactions (syntheticApiBlock db' (of_nat x))))"
proof -
  have views: "sorted_wrt (<) (map fst [(3 :: u64, exampleView 30)])"
    "\<forall>(n, view) \<in> set [(3 :: u64, exampleView 30)]. wfView view" by simp_all
  obtain db db' where run: "handleSnapshotCompleted refLib refGob memStore refCodec exampleChain (Some 2) [] = Some db"
    and commits: "commitAll refLib memStore (Some (Some 2)) True [(3, exampleView 30)] db = Some db'"
    using memory_hypersync.synced_index [OF _ exampleChain_entries _ views, of 2 "[]"] by auto
  have blocks: "\<forall>x \<in> {1..unat (2 :: u64)}. GetBlockAtHeight (accountNode (hypersyncedService db')) (of_nat x) =
      Some (Inr (syntheticApiBlock db' (of_nat x)))"
  proof
    fix x assume "x \<in> {1..unat (2 :: u64)}"
    then have "x = 1 \<or> x = 2" by auto
    then show "GetBlockAtHeight (accountNode (hypersyncedService db')) (of_nat x) =
        Some (Inr (syntheticApiBlock db' (of_nat x)))"
      by (intro hypersynced_block) auto
  qed
  note fields = hypersyncedService_def exampleService_def exampleN_def exampleBlockchain_def exampleNode_def
  have "\<exists>v. AccountBalance (hypersyncedService db') \<lparr>balanceAccountIdentifier = accountFor refLib DESOBalance examplePk,
       balanceBlockIdentifier = Some \<lparr>partialIndex = Some 2, partialHash = None\<rparr>\<rparr> =
     Some (Inr \<lparr>responseBlockIdentifier = blockIdentifier (syntheticApiBlock db' (of_nat (unat (2 :: u64)))),
                Balances = [amountOf (FormatUint v)]\<rparr>) \<and>
     unat v = (\<Sum>x \<in> {1..unat (2 :: u64)}. creditsTo (accountFor refLib DESOBalance examplePk)
       (blockTransactions (syntheticApiBlock db' (of_nat x))))"
    by (rule api_blocks_add_up_to_balances [OF memory_hypersync.hypersync_setting_axioms _ exampleChain_entries _ run
          commits views hypersyncedService_tip _ _ _ _ _ _ _ _ _ _ _ blocks DESOBalance_prefix(1) example_length, of "exampleNode 2"])
      (simp_all add: fields)
  then show ?thesis using run commits by (auto simp: accountFor_def syntheticApiBlock_def)
qed


section \<open>Offline mode\<close>

text \<open>The same service on another node of the network: another mode, mempool view, tip, and another way to add
  inputs and broadcast. The network parameters stay: \<open>NewNode\<close> gives the node those of the configuration.\<close>

definition onOtherNode ::
  "Mode \<Rightarrow> ('m \<Rightarrow> globalParams option) \<Rightarrow> ('m \<Rightarrow> u32) \<Rightarrow> ('m \<Rightarrow> MsgDeSoTxn \<Rightarrow> u64 \<Rightarrow> (MsgDeSoTxn \<times> u64) option) \<Rightarrow>
     ('m \<Rightarrow> MsgDeSoTxn \<Rightarrow> 'm \<times> bool) \<Rightarrow> 'm constructionService \<Rightarrow> 'm constructionService" where
  "onOtherNode mode view tip add broadcast S =
     S\<lparr>constructionMode := mode, GetAugmentedUniversalView := view, BlockTipHeight := tip,
       AddInputsAndChangeToTransaction := add, VerifyAndBroadcastTransaction := broadcast\<rparr>"

lemma onOtherNode_sel [simp]:
  "constructionCore (onOtherNode mode view tip add broadcast S) = constructionCore S"
  "MarshalOptions (onOtherNode mode view tip add broadcast S) = MarshalOptions S"
  "UnmarshalMetadata (onOtherNode mode view tip add broadcast S) = UnmarshalMetadata S"
  "TxnToBytes (onOtherNode mode view tip add broadcast S) = TxnToBytes S"
  "ScalarSetBytes (onOtherNode mode view tip add broadcast S) = ScalarSetBytes S"
  "merkleSha256DoubleHash (onOtherNode mode view tip add broadcast S) = merkleSha256DoubleHash S"
  "causeText (onOtherNode mode view tip add broadcast S) = causeText S"
  "MustDecodeHexBlockHash (onOtherNode mode view tip add broadcast S) = MustDecodeHexBlockHash S"
  by (simp_all add: onOtherNode_def)

lemma steps_onOtherNode [simp]:
  "preprocessInput (onOtherNode mode view tip add broadcast S) = preprocessInput S"
  "preprocessOutput (onOtherNode mode view tip add broadcast S) = preprocessOutput S"
  "attribute (onOtherNode mode view tip add broadcast S) = attribute S"
  "readTransaction (onOtherNode mode view tip add broadcast S) = readTransaction S"
  "marshalTransaction (onOtherNode mode view tip add broadcast S) = marshalTransaction S"
  by (intro ext, simp add: preprocessInput_def preprocessOutput_def attribute_def readTransaction_def
      marshalTransaction_def onOtherNode_def Let_def cong: if_cong sum.case_cong option.case_cong prod.case_cong)+

lemma preprocessLoop_onOtherNode [simp]:
  "preprocessLoop (onOtherNode mode view tip add broadcast S) metadata ops = preprocessLoop S metadata ops"
proof (induction ops)
  case (Cons op ops)
  then show ?case by (intro ext) simp
qed (intro ext, simp)

lemma network_status_mode:
  "NetworkStatus (S\<lparr>apiMode := mode, apiNetwork := network, apiNode := N\<rparr>) =
     NetworkStatus (S\<lparr>apiMode := mode', apiNetwork := network, apiNode := N\<rparr>)"
  by (simp add: NetworkStatus_def connectedPeers_def syncStatusOf_def Let_def cong: option.case_cong)

text \<open>Each of the eight endpoints that check the mode and read or change the state of the node answers an offline request with
  the offline error; the six construction endpoints that a signer uses answer as on any other node.\<close>

lemma offline_services_refuse:
  assumes "accountMode A = Offline" and "apiMode P = Offline" and "constructionMode S = Offline"
  shows "AccountBalance A balanceRequest = Some (Inl ErrUnavailableOffline) \<and>
    AccountCoins A account = Some (Inl ErrUnavailableOffline) \<and>
    serveBlock P ident = Some (Inl ErrUnavailableOffline) \<and>
    BlockTransaction P = Inl ErrUnavailableOffline \<and>
    Mempool P = Inl ErrUnavailableOffline \<and> MempoolTransaction P = ErrUnavailableOffline \<and>
    ConstructionMetadata S mem options = Some (Inl ErrUnavailableOffline) \<and>
    ConstructionSubmit S mem txnHex = (mem, Some (Inl ErrUnavailableOffline)) \<and>
    (\<forall>mode view tip add broadcast. let S' = onOtherNode mode view tip add broadcast S in
       ConstructionDerive S' = ConstructionDerive S \<and> ConstructionPreprocess S' = ConstructionPreprocess S \<and>
       ConstructionPayloads S' = ConstructionPayloads S \<and> ConstructionCombine S' = ConstructionCombine S \<and>
       ConstructionHash S' = ConstructionHash S \<and> ConstructionParse S' = ConstructionParse S)"
proof -
  have "let S' = onOtherNode mode view tip add broadcast S in
       ConstructionDerive S' = ConstructionDerive S \<and> ConstructionPreprocess S' = ConstructionPreprocess S \<and>
       ConstructionPayloads S' = ConstructionPayloads S \<and> ConstructionCombine S' = ConstructionCombine S \<and>
       ConstructionHash S' = ConstructionHash S \<and> ConstructionParse S' = ConstructionParse S"
    for mode view tip add broadcast
    unfolding Let_def
    by (intro conjI ext; simp only: ConstructionDerive_def ConstructionPreprocess_def ConstructionPayloads_def
        ConstructionCombine_def ConstructionHash_def ConstructionParse_def preprocessLoop_onOtherNode
        steps_onOtherNode onOtherNode_sel)
  then show ?thesis
    using assms
    by (simp add: AccountBalance_def AccountCoins_def serveBlock_def BlockTransaction_def Mempool_def
        MempoolTransaction_def ConstructionMetadata_def ConstructionSubmit_def)
qed

text \<open>C16: An offline node serves no block, balance, coin, mempool or fee, and signing needs no chain. Behind the
  router that is made of an offline configuration the eight endpoints that check the mode answer with the
  offline error, whatever the node, and a refused submission leaves the node as it was: block, block
  transaction, account balance, account coins, mempool, mempool transaction, construction metadata and
  submit. The six construction endpoints that a signer uses use nothing of the node but its
  network parameters: they answer as with any other mode, mempool, tip and broadcast. The network endpoints
  do not check the mode: the list is the network of the configuration, and the
  status is that of the chain of the node, as it would be online.\<close>

theorem offline_node_refuses_chain_access:
  assumes "configMode config = Offline"
    and "c \<in> set (NewBlockchainRouter (\<lambda>controllers. controllers) regtest config node)"
  shows "case c of
      NetworkAPIController N \<Rightarrow> NetworkList N = [configNetwork config] \<and>
        NetworkStatus N = NetworkStatus (NewNetworkAPIService (config\<lparr>configMode := Online\<rparr>) node)
    | BlockAPIController P \<Rightarrow> serveBlock P ident = Some (Inl ErrUnavailableOffline) \<and>
        BlockTransaction P = Inl ErrUnavailableOffline
    | AccountAPIController A \<Rightarrow> AccountBalance A balanceRequest = Some (Inl ErrUnavailableOffline) \<and>
        AccountCoins A account = Some (Inl ErrUnavailableOffline)
    | MempoolAPIController P \<Rightarrow> Mempool P = Inl ErrUnavailableOffline \<and>
        MempoolTransaction P = ErrUnavailableOffline
    | ConstructionAPIController S \<Rightarrow> ConstructionMetadata S mem options = Some (Inl ErrUnavailableOffline) \<and>
        ConstructionSubmit S mem txnHex = (mem, Some (Inl ErrUnavailableOffline)) \<and>
        (\<forall>mode view tip add broadcast. let S' = onOtherNode mode view tip add broadcast S in
           ConstructionDerive S' = ConstructionDerive S \<and> ConstructionPreprocess S' = ConstructionPreprocess S \<and>
           ConstructionPayloads S' = ConstructionPayloads S \<and> ConstructionCombine S' = ConstructionCombine S \<and>
           ConstructionHash S' = ConstructionHash S \<and> ConstructionParse S' = ConstructionParse S)"
proof -
  note refuse = offline_services_refuse [of "NewAccountAPIService config node" _
      "NewConstructionAPIService regtest config node"]
  show ?thesis
    using assms refuse [of "NewBlockAPIService config node"] refuse [of "NewMempoolAPIService config node"]
    by (auto simp: NewBlockchainRouter_def NetworkList_def NewNetworkAPIService_def network_status_mode)
qed

definition offlineSettings :: viper where
  "offlineSettings = exampleSettings\<lparr>GetString := \<lambda>name.
     if name = ''mode'' then ''OFFLINE'' else GetString exampleSettings name\<rparr>"

definition exampleNodeView :: "(memDB, (bytes \<times> bytes) list, MsgDeSoTxn list) nodeView" where
  "exampleNodeView = \<lparr>viewNode = exampleN, viewApi = exampleApi, viewAccount = exampleService,
     viewConstruction = refService\<rparr>"

theorem offline_node_refuses_chain_access_witness:
  "\<exists>config. LoadConfig exampleConfigLib offlineSettings = Some (Inr config) \<and>
     Mempool (NewMempoolAPIService config exampleNodeView) = Inl ErrUnavailableOffline \<and>
     ConstructionSubmit (NewConstructionAPIService (\<lambda>_ params. params) config exampleNodeView) [] ''00'' =
       ([], Some (Inl ErrUnavailableOffline))"
proof -
  have mode: "modeOf (GetString offlineSettings ''mode'') = Some Offline"
    by (simp add: offlineSettings_def modeOf_def upperChar_def)
  have "\<exists>config. LoadConfig exampleConfigLib offlineSettings = Some (Inr config)"
    by (rule LoadConfig_loads [OF mode])
      (simp_all add: offlineSettings_def exampleConfigLib_def exampleSettings_def paramsOf_def blockIndexSize_def
        Let_def upperChar_def word_sless_alt)
  then obtain config where config: "LoadConfig exampleConfigLib offlineSettings = Some (Inr config)" by blast
  then have offline: "configMode config = Offline" using LoadConfig_Inr mode by fastforce
  let ?router = "NewBlockchainRouter (\<lambda>cs. cs) (\<lambda>_ params. params) config exampleNodeView"
  have mempool: "MempoolAPIController (NewMempoolAPIService config exampleNodeView) \<in> set ?router"
    and construction: "ConstructionAPIController
        (NewConstructionAPIService (\<lambda>_ params. params) config exampleNodeView) \<in> set ?router"
    by (simp_all add: NewBlockchainRouter_def)
  show ?thesis
    using config offline_node_refuses_chain_access [OF offline mempool]
      offline_node_refuses_chain_access [OF offline construction] by auto
qed

end
